(* ===== verification/HNC_Prelude.thy ===== *)
theory HNC_Prelude
  imports
    Main
    "HOL-Library.AList"
    "HOL-Library.Char_ord"
    "HOL-Library.List_Lexorder"
    "HOL-Library.Monad_Syntax"
begin

text \<open>
  The shared base of the development: Go maps, Go strings and the handful of
  standard-library functions the sources use on them.

  A Go map is an association list with distinct keys, in the order in which one
  \<^verbatim>\<open>range\<close> over it visits the entries. Go does not fix that order, so every
  theorem about a loop over a map is proved for an arbitrary list, that is, for every
  order. A map that may be \<^verbatim>\<open>nil\<close> is an option of such a list, because
  \<^verbatim>\<open>reflect.DeepEqual\<close> tells \<^verbatim>\<open>nil\<close> from an empty map.
  Go compares strings byte by byte, which is the lexicographic order on char lists.
\<close>

section \<open>Collections of the development\<close>

named_theorems forest_simps \<open>reads after writes on the namespace heap\<close>
named_theorems wf_intros \<open>operations keep the forest well formed\<close>
named_theorems gomap_simps \<open>lookups and keys after map updates\<close>

section \<open>Go maps\<close>

type_synonym ('k, 'v) gomap = "('k \<times> 'v) list"

abbreviation keys :: "('k, 'v) gomap \<Rightarrow> 'k list" where
  "keys m \<equiv> map fst m"

abbreviation distinct_keys :: "('k, 'v) gomap \<Rightarrow> bool" where
  "distinct_keys m \<equiv> distinct (map fst m)"

definition has_key :: "('k, 'v) gomap \<Rightarrow> 'k \<Rightarrow> bool" where
  "has_key m k = (map_of m k \<noteq> None)"

text \<open>A read of a \<^verbatim>\<open>map[string]string\<close> gives the empty string for a missing key.\<close>

definition get_str :: "(string, string) gomap \<Rightarrow> string \<Rightarrow> string" where
  "get_str m k = (case map_of m k of None \<Rightarrow> '''' | Some v \<Rightarrow> v)"

text \<open>Ranging over, or reading from, a nil map is the same as from an empty one.\<close>

definition nil_map :: "('k, 'v) gomap option \<Rightarrow> ('k, 'v) gomap" where
  "nil_map m = (case m of None \<Rightarrow> [] | Some xs \<Rightarrow> xs)"

lemma nil_map_simps [simp]: "nil_map None = []" "nil_map (Some m) = m"
  by (simp_all add: nil_map_def)

text \<open>
  \<^verbatim>\<open>reflect.DeepEqual\<close> on two maps: both nil, or both non-nil with the same
  entries whatever their order.
\<close>

definition map_equal :: "('k, 'v) gomap \<Rightarrow> ('k, 'v) gomap \<Rightarrow> bool" where
  "map_equal a b = (length a = length b \<and> list_all (\<lambda>(k, v). map_of b k = Some v) a)"

definition DeepEqual_map :: "('k, 'v) gomap option \<Rightarrow> ('k, 'v) gomap option \<Rightarrow> bool" where
  "DeepEqual_map a b = (case (a, b) of
       (None, None) \<Rightarrow> True
     | (Some x, Some y) \<Rightarrow> map_equal x y
     | _ \<Rightarrow> False)"

lemma has_key_iff: "has_key m k \<longleftrightarrow> k \<in> set (keys m)"
  by (simp add: has_key_def map_of_eq_None_iff)

lemma map_of_update [gomap_simps]:
  "map_of (AList.update k v m) k' = (if k' = k then Some v else map_of m k')"
  by (simp add: AList.update_conv')

lemma map_of_delete' [gomap_simps]:
  "map_of (AList.delete k m) k' = (if k' = k then None else map_of m k')"
  by (simp add: AList.delete_conv')

lemma keys_update [gomap_simps]: "set (keys (AList.update k v m)) = insert k (set (keys m))"
  by (simp add: AList.dom_update)

lemma keys_delete [gomap_simps]: "set (keys (AList.delete k m)) = set (keys m) - {k}"
  by (simp only: AList.delete_keys) (simp add: set_eq_iff)

lemma distinct_keys_update [gomap_simps]:
  "distinct_keys m \<Longrightarrow> distinct_keys (AList.update k v m)"
  by (rule AList.distinct_update)

lemma distinct_keys_delete [gomap_simps]:
  "distinct_keys m \<Longrightarrow> distinct_keys (AList.delete k m)"
  by (rule AList.distinct_delete)

lemma set_update_mem:
  assumes "distinct_keys m"
  shows "(k', v') \<in> set (AList.update k v m) \<longleftrightarrow>
         (if k' = k then v' = v else (k', v') \<in> set m)"
proof -
  have "(k', v') \<in> set (AList.update k v m) \<longleftrightarrow> map_of (AList.update k v m) k' = Some v'"
    using assms by (simp add: AList.distinct_update)
  also have "\<dots> \<longleftrightarrow> (if k' = k then v' = v else map_of m k' = Some v')"
    by (auto simp: map_of_update)
  finally show ?thesis
    using assms by simp
qed

lemma set_delete_mem:
  "(k', v') \<in> set (AList.delete k m) \<longleftrightarrow> k' \<noteq> k \<and> (k', v') \<in> set m"
  by (auto simp: AList.delete_eq)

lemma delete_eq_Nil_iff: "AList.delete k m = [] \<longleftrightarrow> set (keys m) \<subseteq> {k}"
  by (auto simp: AList.delete_eq filter_empty_conv)

lemma map_equal_iff:
  assumes "distinct_keys a" "distinct_keys b"
  shows "map_equal a b \<longleftrightarrow> map_of a = map_of b"
proof
  assume eq: "map_equal a b"
  then have len: "length a = length b" and sub: "set a \<subseteq> set b"
    by (auto simp: map_equal_def list_all_iff dest: map_of_SomeD)
  have "card (set a) = card (set b)"
    using assms len by (simp add: distinct_card distinct_map)
  then have "set a = set b"
    using sub by (simp add: card_subset_eq)
  then show "map_of a = map_of b"
    using assms by (simp add: map_of_inject_set)
next
  assume eq: "map_of a = map_of b"
  then have "set a = set b"
    using assms by (simp add: map_of_inject_set)
  then have "length a = length b"
    using assms by (metis distinct_card distinct_map)
  then show "map_equal a b"
    using assms \<open>set a = set b\<close> by (auto simp: map_equal_def list_all_iff)
qed

section \<open>Go strings\<close>

definition HasPrefix :: "string \<Rightarrow> string \<Rightarrow> bool" where
  "HasPrefix s p = (take (length p) s = p)"

definition HasSuffix :: "string \<Rightarrow> string \<Rightarrow> bool" where
  "HasSuffix s x = (length x \<le> length s \<and> drop (length s - length x) s = x)"

fun Contains :: "string \<Rightarrow> string \<Rightarrow> bool" where
  "Contains [] sub = (sub = [])"
| "Contains (c # cs) sub = (HasPrefix (c # cs) sub \<or> Contains cs sub)"

fun Join :: "string list \<Rightarrow> string \<Rightarrow> string" where
  "Join [] sep = []"
| "Join [s] sep = s"
| "Join (s # t # ss) sep = s @ sep @ Join (t # ss) sep"

text \<open>\<^verbatim>\<open>strings.Split\<close> at a one-byte separator.\<close>

fun Split :: "string \<Rightarrow> char \<Rightarrow> string list" where
  "Split [] sep = [[]]"
| "Split (c # cs) sep =
     (if c = sep then [] # Split cs sep
      else (case Split cs sep of [] \<Rightarrow> [[c]] | s # ss \<Rightarrow> (c # s) # ss))"

text \<open>\<^verbatim>\<open>strings.SplitN(s, sep, 2)\<close>: cut at the first separator only.\<close>

fun SplitN2 :: "string \<Rightarrow> char \<Rightarrow> string list" where
  "SplitN2 [] sep = [[]]"
| "SplitN2 (c # cs) sep =
     (if c = sep then [[], cs]
      else (case SplitN2 cs sep of [] \<Rightarrow> [[c]] | s # ss \<Rightarrow> (c # s) # ss))"

text \<open>\<^verbatim>\<open>%q\<close> of \<^verbatim>\<open>fmt.Sprintf\<close> on a name without special characters.\<close>

definition quote :: "string \<Rightarrow> string" where
  "quote s = ''\"'' @ s @ ''\"''"

lemma Split_not_Nil [simp]: "Split s c \<noteq> []"
  by (induction s) (auto split: list.splits)

lemma SplitN2_not_Nil [simp]: "SplitN2 s c \<noteq> []"
  by (induction s) (auto split: list.splits)

lemma HasSuffix_append [simp]: "HasSuffix (p @ x) x"
  by (simp add: HasSuffix_def)

lemma HasSuffix_iff: "HasSuffix s x \<longleftrightarrow> (\<exists>p. s = p @ x)"
proof
  assume "HasSuffix s x"
  then have "s = take (length s - length x) s @ x"
    by (metis HasSuffix_def append_take_drop_id)
  then show "\<exists>p. s = p @ x" ..
qed auto

lemma HasPrefix_iff: "HasPrefix s p \<longleftrightarrow> (\<exists>r. s = p @ r)"
proof
  assume "HasPrefix s p"
  then have "s = p @ drop (length p) s"
    by (metis HasPrefix_def append_take_drop_id)
  then show "\<exists>r. s = p @ r" ..
qed (auto simp: HasPrefix_def)

lemma Contains_iff: "Contains s x \<longleftrightarrow> (\<exists>p r. s = p @ x @ r)"
proof (induction s)
  case Nil
  then show ?case by auto
next
  case (Cons c cs)
  have split: "(\<exists>p r. c # cs = p @ x @ r) \<longleftrightarrow>
      (\<exists>r. c # cs = x @ r) \<or> (\<exists>p r. cs = p @ x @ r)"
  proof
    assume "\<exists>p r. c # cs = p @ x @ r"
    then obtain p r where eq: "c # cs = p @ x @ r" by blast
    then show "(\<exists>r. c # cs = x @ r) \<or> (\<exists>p r. cs = p @ x @ r)"
      by (cases p) auto
  next
    assume "(\<exists>r. c # cs = x @ r) \<or> (\<exists>p r. cs = p @ x @ r)"
    then show "\<exists>p r. c # cs = p @ x @ r"
      by (metis append_Cons append_Nil)
  qed
  show ?case
    unfolding split Contains.simps HasPrefix_iff Cons.IH ..
qed

lemma HasSuffix_Contains: "HasSuffix s x \<Longrightarrow> Contains s x"
proof -
  assume "HasSuffix s x"
  then obtain p where "s = p @ x @ []" by (auto simp: HasSuffix_iff)
  then show "Contains s x" unfolding Contains_iff by blast
qed

section \<open>Loops over lists\<close>

text \<open>\<^verbatim>\<open>for\<close> loops that return at the first hit.\<close>

lemma find_Some_mem: "find P xs = Some x \<Longrightarrow> x \<in> set xs \<and> P x"
  by (auto simp: find_Some_iff)

lemma fold_invariant:
  "(\<And>x s. x \<in> set xs \<Longrightarrow> P s \<Longrightarrow> P (g x s)) \<Longrightarrow> P s \<Longrightarrow> P (fold g xs s)"
  by (induction xs arbitrary: s) simp_all

end
