(* ===== verification/HNC_API.thy ===== *)
theory HNC_API
  imports HNC_Prelude
begin

text \<open>
  The API objects (\<^verbatim>\<open>api/v1alpha2\<close>), the Kubernetes objects HNC reads and
  writes, and the metadata helpers of \<^verbatim>\<open>internal/metadata\<close>.

  A record holds the fields the code reads or writes; a \<^verbatim>\<open>metav1.Time\<close> is a
  natural number whose zero is the zero time. An \<^verbatim>\<open>unstructured.Unstructured\<close> keeps
  its metadata in typed fields and every other top-level field of its
  \<^verbatim>\<open>Object\<close> map in \<open>obj_content\<close>.
\<close>

named_theorems api_consts \<open>the string constants of the API\<close>

section \<open>Constants\<close>

definition MetaGroup :: string where [api_consts]: "MetaGroup = ''hnc.x-k8s.io''"
definition Singleton :: string where [api_consts]: "Singleton = ''hierarchy''"
definition LabelInheritedFrom :: string where
  [api_consts]: "LabelInheritedFrom = MetaGroup @ ''/inherited-from''"
definition FinalizerHasSubnamespace :: string where
  [api_consts]: "FinalizerHasSubnamespace = MetaGroup @ ''/hasSubnamespace''"
definition LabelTreeDepthSuffix :: string where
  [api_consts]: "LabelTreeDepthSuffix = ''.tree.'' @ MetaGroup @ ''/depth''"
definition AnnotationManagedBy :: string where
  [api_consts]: "AnnotationManagedBy = MetaGroup @ ''/managed-by''"
definition AnnotationPropagatePrefix :: string where
  [api_consts]: "AnnotationPropagatePrefix = ''propagate.'' @ MetaGroup"
definition AnnotationSelector :: string where
  [api_consts]: "AnnotationSelector = AnnotationPropagatePrefix @ ''/select''"
definition AnnotationTreeSelector :: string where
  [api_consts]: "AnnotationTreeSelector = AnnotationPropagatePrefix @ ''/treeSelect''"
definition AnnotationNoneSelector :: string where
  [api_consts]: "AnnotationNoneSelector = AnnotationPropagatePrefix @ ''/none''"
definition AnnotationAllSelector :: string where
  [api_consts]: "AnnotationAllSelector = AnnotationPropagatePrefix @ ''/all''"
definition LabelManagedByApps :: string where
  [api_consts]: "LabelManagedByApps = ''app.kubernetes.io/managed-by''"
definition LabelIncludedNamespace :: string where
  [api_consts]: "LabelIncludedNamespace = MetaGroup @ ''/included-namespace''"
definition SubnamespaceOf :: string where
  [api_consts]: "SubnamespaceOf = MetaGroup @ ''/subnamespace-of''"

definition ConditionActivitiesHalted :: string where
  [api_consts]: "ConditionActivitiesHalted = ''ActivitiesHalted''"
definition ConditionBadConfiguration :: string where
  [api_consts]: "ConditionBadConfiguration = ''BadConfiguration''"

definition ReasonAncestor :: string where
  [api_consts]: "ReasonAncestor = ''AncestorHaltActivities''"
definition ReasonAnchorMissing :: string where
  [api_consts]: "ReasonAnchorMissing = ''SubnamespaceAnchorMissing''"
definition ReasonDeletingCRD :: string where
  [api_consts]: "ReasonDeletingCRD = ''DeletingCRD''"
definition ReasonIllegalManagedAnnotation :: string where
  [api_consts]: "ReasonIllegalManagedAnnotation = ''IllegalManagedAnnotation''"
definition ReasonIllegalManagedLabel :: string where
  [api_consts]: "ReasonIllegalManagedLabel = ''IllegalManagedLabel''"
definition ReasonIllegalParent :: string where
  [api_consts]: "ReasonIllegalParent = ''IllegalParent''"
definition ReasonInCycle :: string where
  [api_consts]: "ReasonInCycle = ''InCycle''"
definition ReasonParentMissing :: string where
  [api_consts]: "ReasonParentMissing = ''ParentMissing''"

definition AllConditions :: "(string, string list) gomap" where
  "AllConditions =
     [(ConditionActivitiesHalted,
        [ReasonAncestor, ReasonDeletingCRD, ReasonIllegalManagedAnnotation,
         ReasonIllegalManagedLabel, ReasonIllegalParent, ReasonInCycle, ReasonParentMissing]),
      (ConditionBadConfiguration, [ReasonAnchorMissing])]"

section \<open>Types\<close>

type_synonym Time = nat

abbreviation IsZero :: "Time \<Rightarrow> bool" where
  "IsZero t \<equiv> t = 0"

datatype SynchronizationMode =
  Propagate | Ignore | Remove | AllowPropagate | UnsetMode | OtherMode string

datatype SubnamespaceAnchorState = Missing | Ok | Conflict | Forbidden | OtherState string

record GroupVersionKind =
  gvk_group :: string
  gvk_version :: string
  gvk_kind :: string

record GroupKind =
  gk_group :: string
  gk_kind :: string

definition GroupKind_of :: "GroupVersionKind \<Rightarrow> GroupKind" where
  "GroupKind_of g = \<lparr>gk_group = gvk_group g, gk_kind = gvk_kind g\<rparr>"

record NamespacedName =
  nnm_namespace :: string
  nnm_name :: string

record MetaKVP =
  kvp_key :: string
  kvp_value :: string

record Condition =
  cond_type :: string
  cond_status :: bool
  cond_lastTransitionTime :: Time
  cond_reason :: string
  cond_message :: string

record HierarchyConfiguration =
  hc_name :: string
  hc_namespace :: string
  hc_creationTimestamp :: Time
  hc_deletionTimestamp :: Time
  hc_finalizers :: "string list"
  hc_parent :: string
  hc_allowCascadingDeletion :: bool
  hc_labels :: "MetaKVP list"
  hc_annotations :: "MetaKVP list"
  hc_children :: "string list"
  hc_conditions :: "Condition list"

record SubnamespaceAnchor =
  an_name :: string
  an_namespace :: string
  an_creationTimestamp :: Time
  an_deletionTimestamp :: Time
  an_finalizers :: "string list"
  an_labels :: "MetaKVP list"
  an_annotations :: "MetaKVP list"
  an_state :: SubnamespaceAnchorState

text \<open>\<^verbatim>\<open>corev1.Namespace\<close>\<close>

record NamespaceInst =
  nsi_name :: string
  nsi_labels :: "(string, string) gomap option"
  nsi_annotations :: "(string, string) gomap option"
  nsi_deletionTimestamp :: Time

datatype json =
  JNull | JBool bool | JNum int | JStr string | JArr "json list" | JObj "(string \<times> json) list"

record Unstructured =
  obj_gvk :: GroupVersionKind
  obj_name :: string
  obj_namespace :: string
  obj_labels :: "(string, string) gomap option"
  obj_annotations :: "(string, string) gomap option"
  obj_finalizers :: "string list"
  obj_creationTimestamp :: Time
  obj_deletionTimestamp :: Time
  obj_resourceVersion :: string
  obj_content :: "(string, json) gomap"

text \<open>
  A resource quantity: \<^verbatim>\<open>resource.Quantity\<close> is an exact decimal, rounded on parsing
  to a multiple of one nano unit, so it is an integer number of nano units;
  \<^verbatim>\<open>Cmp\<close>, \<^verbatim>\<open>Add\<close>, \<^verbatim>\<open>Sub\<close> and \<^verbatim>\<open>Neg\<close> are
  exact on it (they change to arbitrary precision when an \<^verbatim>\<open>int64\<close> would overflow).
\<close>

type_synonym Quantity = int
type_synonym ResourceName = string
type_synonym ResourceList = "(ResourceName, Quantity) gomap"

record HierarchicalResourceQuota =
  hrq_name :: string
  hrq_namespace :: string
  hrq_creationTimestamp :: Time
  hrq_spec_hard :: ResourceList
  hrq_status_hard :: ResourceList
  hrq_status_used :: ResourceList
  hrq_requestsSummary :: string
  hrq_limitsSummary :: string

section \<open>Metadata (internal/metadata/metav1.go)\<close>

definition GetLabel :: "Unstructured \<Rightarrow> string \<Rightarrow> string \<times> bool" where
  "GetLabel inst label = (case obj_labels inst of
       None \<Rightarrow> ('''', False)
     | Some labels \<Rightarrow> (get_str labels label, has_key labels label))"

definition SetLabel :: "Unstructured \<Rightarrow> string \<Rightarrow> string \<Rightarrow> Unstructured" where
  "SetLabel inst label v =
     inst\<lparr>obj_labels := Some (AList.update label v (nil_map (obj_labels inst)))\<rparr>"

definition SetLabel_ns :: "NamespaceInst \<Rightarrow> string \<Rightarrow> string \<Rightarrow> NamespaceInst" where
  "SetLabel_ns inst label v =
     inst\<lparr>nsi_labels := Some (AList.update label v (nil_map (nsi_labels inst)))\<rparr>"

definition SetAnnotation_ns :: "NamespaceInst \<Rightarrow> string \<Rightarrow> string \<Rightarrow> NamespaceInst" where
  "SetAnnotation_ns inst annotation v =
     inst\<lparr>nsi_annotations := Some (AList.update annotation v (nil_map (nsi_annotations inst)))\<rparr>"

lemma GetLabel_SetLabel:
  "GetLabel (SetLabel inst l v) l' = (if l' = l then (v, True) else GetLabel inst l')"
  by (cases "obj_labels inst")
    (auto simp: GetLabel_def SetLabel_def get_str_def has_key_def map_of_update)

section \<open>Admission responses (internal/webhooks/webhooks.go)\<close>

datatype StatusReason =
  StatusReasonBadRequest | StatusReasonConflict | StatusReasonForbidden
| StatusReasonInternalError | StatusReasonInvalid | StatusReasonServiceUnavailable
| StatusReasonUnauthorized

datatype Response = Allow string | Deny StatusReason string

fun Allowed :: "Response \<Rightarrow> bool" where
  "Allowed (Allow msg) = True"
| "Allowed (Deny r msg) = False"

definition DenyBadRequest :: "string \<Rightarrow> Response" where
  "DenyBadRequest err = Deny StatusReasonBadRequest err"
definition DenyConflict :: "string \<Rightarrow> Response" where
  "DenyConflict err = Deny StatusReasonConflict err"
definition DenyForbidden :: "string \<Rightarrow> Response" where
  "DenyForbidden err = Deny StatusReasonForbidden err"
definition DenyInternalError :: "string \<Rightarrow> Response" where
  "DenyInternalError err = Deny StatusReasonInternalError err"
definition DenyInvalid :: "string \<Rightarrow> Response" where
  "DenyInvalid err = Deny StatusReasonInvalid err"
definition DenyServiceUnavailable :: "string \<Rightarrow> Response" where
  "DenyServiceUnavailable err = Deny StatusReasonServiceUnavailable err"
definition DenyUnauthorized :: "string \<Rightarrow> Response" where
  "DenyUnauthorized err = Deny StatusReasonUnauthorized err"

lemmas deny_defs = DenyBadRequest_def DenyConflict_def DenyForbidden_def DenyInternalError_def
  DenyInvalid_def DenyServiceUnavailable_def DenyUnauthorized_def

lemma Allowed_deny [simp]:
  "\<not> Allowed (DenyBadRequest e)" "\<not> Allowed (DenyConflict e)" "\<not> Allowed (DenyForbidden e)"
  "\<not> Allowed (DenyInternalError e)" "\<not> Allowed (DenyInvalid e)"
  "\<not> Allowed (DenyServiceUnavailable e)" "\<not> Allowed (DenyUnauthorized e)"
  by (simp_all add: deny_defs)

text \<open>Operations of an admission request.\<close>

datatype Operation = Create | Update | Delete | OtherOperation string

fun show_operation :: "Operation \<Rightarrow> string" where
  "show_operation Create = ''CREATE''"
| "show_operation Update = ''UPDATE''"
| "show_operation Delete = ''DELETE''"
| "show_operation (OtherOperation op) = op"

section \<open>Reads from the API server\<close>

text \<open>
  A read by the controller-runtime client: the object, \<^verbatim>\<open>IsNotFound\<close>, or another
  error.
\<close>

datatype 'a read = Found 'a | NotFound | ReadError string

text \<open>
  \<^verbatim>\<open>internal/crd/crd.go\<close>: the read gives the deletion timestamp of the definition; one
  that is not there has been deleted.
\<close>

definition IsDeletingCRD :: "Time read \<Rightarrow> string + bool" where
  "IsDeletingCRD rd = (case rd of
       NotFound \<Rightarrow> Inr True
     | ReadError err \<Rightarrow> Inl err
     | Found t \<Rightarrow> Inr (\<not> IsZero t))"

end
