(* ===== verification/Resources.thy ===== *)
theory Resources
  imports HNC_API
begin

text \<open>
  Resource lists, \<^verbatim>\<open>internal/hrq/utils/resources.go\<close>: the arithmetic on maps
  from resource names to quantities that the hierarchical quota code is built on.
  Each loop over a map is a fold over its entries in the order given.
\<close>

section \<open>Operations\<close>

definition Equals :: "ResourceList \<Rightarrow> ResourceList \<Rightarrow> bool" where
  "Equals a b = (if length a \<noteq> length b then False
     else list_all (\<lambda>(key, value1). case map_of b key of
            None \<Rightarrow> False
          | Some value2 \<Rightarrow> value1 = value2) a)"

definition LessThanOrEqual :: "ResourceList \<Rightarrow> ResourceList \<Rightarrow> bool \<times> ResourceName list" where
  "LessThanOrEqual a b = fold
     (\<lambda>(key, value) (result, resourceNames).
        case map_of a key of
          None \<Rightarrow> (result, resourceNames)
        | Some other \<Rightarrow> (if other > value then (False, resourceNames @ [key])
                         else (result, resourceNames)))
     b (True, [])"

definition AddIfExists :: "ResourceList \<Rightarrow> ResourceList \<Rightarrow> ResourceList" where
  "AddIfExists a b = fold
     (\<lambda>(key, value) result.
        case map_of b key of
          None \<Rightarrow> result
        | Some other \<Rightarrow> AList.update key (value + other) result)
     a []"

definition Add :: "ResourceList \<Rightarrow> ResourceList \<Rightarrow> ResourceList" where
  "Add a b =
     (let result = fold (\<lambda>(key, value) result.
            AList.update key
              (case map_of b key of None \<Rightarrow> value | Some other \<Rightarrow> value + other) result) a []
      in fold (\<lambda>(key, value) result.
            if has_key result key then result else AList.update key value result) b result)"

definition Subtract :: "ResourceList \<Rightarrow> ResourceList \<Rightarrow> ResourceList" where
  "Subtract a b =
     (let result = fold (\<lambda>(key, value) result.
            AList.update key
              (case map_of b key of None \<Rightarrow> value | Some other \<Rightarrow> value - other) result) a []
      in fold (\<lambda>(key, value) result.
            if has_key result key then result else AList.update key (- value) result) b result)"

text \<open>
  \<^verbatim>\<open>OmitLTEZero\<close> deletes from its argument while ranging over it; the deleted key
  is the one just visited, so every entry is visited once.
\<close>

definition OmitLTEZero :: "ResourceList \<Rightarrow> ResourceList" where
  "OmitLTEZero a = fold (\<lambda>(n, q) a. if q = 0 then AList.delete n a
                                     else if q \<le> 0 then AList.delete n a else a) a a"

definition Min :: "ResourceList \<Rightarrow> ResourceList \<Rightarrow> ResourceList" where
  "Min a b =
     (let result = fold (\<lambda>(key, value) result.
            AList.update key
              (case map_of b key of
                 None \<Rightarrow> value
               | Some other \<Rightarrow> if value > other then other else value) result) a []
      in fold (\<lambda>(key, value) result.
            if has_key result key then result else AList.update key value result) b result)"

definition resourceNames :: "ResourceList \<Rightarrow> ResourceName list" where
  "resourceNames resources = map fst resources"

definition mask :: "ResourceList \<Rightarrow> ResourceName list \<Rightarrow> ResourceList" where
  "mask resources names = fold
     (\<lambda>(key, value) result. if key \<in> set names then AList.update key value result else result)
     resources []"

definition FilterUnlimited :: "ResourceList \<Rightarrow> ResourceList \<Rightarrow> ResourceList" where
  "FilterUnlimited rawUsages limits = mask rawUsages (resourceNames limits)"

section \<open>What each operation computes\<close>

text \<open>
  One lemma covers every loop of the form "for each entry of \<open>a\<close>, maybe store a value
  under its key": \<open>g\<close> says what is stored, if anything.
\<close>

lemma fold_store:
  assumes "distinct_keys a"
  shows "map_of (fold (\<lambda>(k, v) r. case g k v r0 of None \<Rightarrow> r | Some w \<Rightarrow> AList.update k w r) a r1) k =
    (case map_of a k of
       None \<Rightarrow> map_of r1 k
     | Some v \<Rightarrow> (case g k v r0 of None \<Rightarrow> map_of r1 k | Some w \<Rightarrow> Some w))"
  using assms
proof (induction a arbitrary: r1)
  case Nil
  then show ?case by simp
next
  case (Cons kv a)
  obtain k' v' where kv: "kv = (k', v')" by force
  have not_in: "map_of a k' = None"
    using Cons.prems kv by (simp add: map_of_eq_None_iff)
  show ?case
    using Cons.prems not_in
    by (cases "g k' v' r0") (auto simp: kv Cons.IH map_of_update split: option.splits)
qed

lemma fold_store_distinct:
  "distinct_keys r1 \<Longrightarrow>
   distinct_keys (fold (\<lambda>(k, v) r. case g k v r0 of None \<Rightarrow> r | Some w \<Rightarrow> AList.update k w r) a r1)"
  by (induction a arbitrary: r1) (auto simp: AList.distinct_update split: option.splits)

text \<open>The second loop of \<open>Add\<close>, \<open>Subtract\<close> and \<open>Min\<close> fills in the missing keys.\<close>

lemma fold_fill:
  assumes "distinct_keys b"
  shows "map_of (fold (\<lambda>(k, v) r. if has_key r k then r else AList.update k (h v) r) b r1) k =
    (case map_of r1 k of None \<Rightarrow> map_option h (map_of b k) | Some w \<Rightarrow> Some w)"
  using assms
proof (induction b arbitrary: r1)
  case Nil
  then show ?case by (simp split: option.splits)
next
  case (Cons kv b)
  obtain k' v' where kv: "kv = (k', v')" by force
  have not_in: "map_of b k' = None"
    using Cons.prems kv by (simp add: map_of_eq_None_iff)
  have hk: "has_key r1 k' \<longleftrightarrow> map_of r1 k' \<noteq> None"
    by (simp add: has_key_def)
  show ?case
    using Cons.prems not_in hk
    by (cases "map_of r1 k'") (auto simp: kv Cons.IH map_of_update split: option.splits)
qed

lemma fold_fill_distinct:
  "distinct_keys r1 \<Longrightarrow>
   distinct_keys (fold (\<lambda>(k, v) r. if has_key r k then r else AList.update k (h v) r) b r1)"
  by (induction b arbitrary: r1) (auto simp: AList.distinct_update)

text \<open>
  \<open>Add\<close>, \<open>Subtract\<close> and \<open>Min\<close> share their two loops: \<open>g\<close> is what the
  first one stores for a key of \<open>a\<close>, \<open>h\<close> what the second stores for a key of
  \<open>b\<close> only.
\<close>

lemma two_loops:
  assumes "distinct_keys a" "distinct_keys b"
  shows "map_of (fold (\<lambda>(k, v) r. if has_key r k then r else AList.update k (h v) r) b
           (fold (\<lambda>(k, v) r. AList.update k (g k v) r) a [])) k =
    (case map_of a k of None \<Rightarrow> map_option h (map_of b k) | Some x \<Rightarrow> Some (g k x))"
proof -
  have "map_of (fold (\<lambda>(k, v) r. AList.update k (g k v) r) a []) k = map_option (g k) (map_of a k)"
    using fold_store [OF assms(1), of "\<lambda>k v r. Some (g k v)" _ "[]"]
    by (simp split: option.splits)
  then show ?thesis
    by (simp add: fold_fill [OF assms(2)] split: option.splits)
qed

lemma two_loops_distinct:
  "distinct_keys (fold (\<lambda>(k, v) r. if has_key r k then r else AList.update k (h v) r) b
     (fold (\<lambda>(k, v) r. AList.update k (g k v) r) a []))"
  by (intro fold_fill_distinct)
    (use fold_store_distinct [of "[]" "\<lambda>k v r. Some (g k v)"] in simp)

text \<open>The operations in terms of lookups; from here on only these are used.\<close>

lemma Add_lookup:
  assumes "distinct_keys a" "distinct_keys b"
  shows "map_of (Add a b) k =
    (case map_of a k of
       None \<Rightarrow> map_of b k
     | Some x \<Rightarrow> Some (case map_of b k of None \<Rightarrow> x | Some y \<Rightarrow> x + y))"
  unfolding Add_def Let_def two_loops [OF assms, where h = "\<lambda>v. v"]
  by (simp add: option.map_ident split: option.splits)

lemma Subtract_lookup:
  assumes "distinct_keys a" "distinct_keys b"
  shows "map_of (Subtract a b) k =
    (case map_of a k of
       None \<Rightarrow> map_option uminus (map_of b k)
     | Some x \<Rightarrow> Some (case map_of b k of None \<Rightarrow> x | Some y \<Rightarrow> x - y))"
  unfolding Subtract_def Let_def two_loops [OF assms, where h = "\<lambda>v. - v"]
  by simp

lemma Min_lookup:
  assumes "distinct_keys a" "distinct_keys b"
  shows "map_of (Min a b) k =
    (case map_of a k of
       None \<Rightarrow> map_of b k
     | Some x \<Rightarrow> Some (case map_of b k of None \<Rightarrow> x | Some y \<Rightarrow> min x y))"
  unfolding Min_def Let_def two_loops [OF assms, where h = "\<lambda>v. v"]
  by (simp add: option.map_ident min_def split: option.splits)

lemma AddIfExists_lookup:
  assumes "distinct_keys a"
  shows "map_of (AddIfExists a b) k =
    (case (map_of a k, map_of b k) of (Some x, Some y) \<Rightarrow> Some (x + y) | _ \<Rightarrow> None)"
proof -
  have "AddIfExists a b = fold (\<lambda>(k, v) r.
      case map_option (\<lambda>y. v + y) (map_of b k) of None \<Rightarrow> r | Some w \<Rightarrow> AList.update k w r) a []"
    unfolding AddIfExists_def by (rule fold_cong) (auto split: option.splits)
  then show ?thesis
    using fold_store [OF assms, of "\<lambda>k v r. map_option (\<lambda>y. v + y) (map_of b k)" _ "[]" k]
    by (simp split: option.splits)
qed

lemma mask_lookup:
  assumes "distinct_keys a"
  shows "map_of (mask a names) k = (if k \<in> set names then map_of a k else None)"
proof -
  have "mask a names = fold (\<lambda>(k, v) r.
      case (if k \<in> set names then Some v else None) of None \<Rightarrow> r | Some w \<Rightarrow> AList.update k w r) a []"
    unfolding mask_def by (rule fold_cong) auto
  then show ?thesis
    using fold_store [OF assms, of "\<lambda>k v r. if k \<in> set names then Some v else None" _ "[]" k]
    by (simp split: option.splits)
qed

lemma FilterUnlimited_lookup:
  assumes "distinct_keys a"
  shows "map_of (FilterUnlimited a l) k = (if map_of l k = None then None else map_of a k)"
  by (simp add: FilterUnlimited_def resourceNames_def mask_lookup [OF assms] map_of_eq_None_iff)

lemma delete_fold_lookup:
  "map_of (fold (\<lambda>(n, q) a. if q = 0 then AList.delete n a
                            else if q \<le> 0 then AList.delete n a else a) xs a) k =
   (if list_ex (\<lambda>(n, q). n = k \<and> q \<le> 0) xs then None else map_of a k)"
  for xs :: ResourceList
proof (induction xs arbitrary: a)
  case Nil
  then show ?case by simp
next
  case (Cons x xs)
  obtain n q where x: "x = (n, q)" by force
  show ?case
    unfolding x fold_Cons o_apply prod.case Cons.IH by (simp add: map_of_delete')
qed

lemma OmitLTEZero_lookup:
  assumes "distinct_keys a"
  shows "map_of (OmitLTEZero a) k =
    (case map_of a k of None \<Rightarrow> None | Some q \<Rightarrow> if 0 < q then Some q else None)"
proof (cases "map_of a k")
  case None
  then show ?thesis by (simp add: OmitLTEZero_def delete_fold_lookup)
next
  case (Some q)
  have "list_ex (\<lambda>(n, q). n = k \<and> q \<le> 0) a \<longleftrightarrow> q \<le> 0"
    using Some assms by (auto simp: list_ex_iff dest: eq_key_imp_eq_value [OF assms])
  then show ?thesis
    using Some by (simp add: OmitLTEZero_def delete_fold_lookup)
qed

section \<open>Results are maps again\<close>

lemma distinct_Add [gomap_simps]: "distinct_keys (Add a b)"
  unfolding Add_def Let_def by (rule two_loops_distinct [where h = "\<lambda>v. v"])

lemma distinct_Subtract [gomap_simps]: "distinct_keys (Subtract a b)"
  unfolding Subtract_def Let_def by (rule two_loops_distinct)

lemma distinct_Min [gomap_simps]: "distinct_keys (Min a b)"
  unfolding Min_def Let_def by (rule two_loops_distinct [where h = "\<lambda>v. v"])

lemma distinct_mask [gomap_simps]: "distinct_keys (mask a names)"
proof -
  have "distinct_keys r \<Longrightarrow> distinct_keys (fold
    (\<lambda>(key, value) result. if key \<in> set names then AList.update key value result else result) a r)"
    for r
    by (induction a arbitrary: r) (auto simp: AList.distinct_update)
  then show ?thesis unfolding mask_def by simp
qed

lemma distinct_FilterUnlimited [gomap_simps]: "distinct_keys (FilterUnlimited a l)"
  by (simp add: FilterUnlimited_def distinct_mask)

lemma distinct_AddIfExists [gomap_simps]: "distinct_keys (AddIfExists a b)"
proof -
  have "distinct_keys r \<Longrightarrow> distinct_keys (fold
    (\<lambda>(key, value) result. case map_of b key of None \<Rightarrow> result
       | Some other \<Rightarrow> AList.update key (value + other) result) a r)" for r
    by (induction a arbitrary: r) (auto simp: AList.distinct_update split: option.splits)
  then show ?thesis unfolding AddIfExists_def by simp
qed

lemma distinct_OmitLTEZero [gomap_simps]: "distinct_keys a \<Longrightarrow> distinct_keys (OmitLTEZero a)"
proof -
  have "distinct_keys r \<Longrightarrow> distinct_keys (fold (\<lambda>(n, q) a. if q = 0 then AList.delete n a
      else if q \<le> 0 then AList.delete n a else a) xs r)" for xs :: ResourceList and r :: ResourceList
    by (induction xs arbitrary: r) (auto simp: AList.distinct_delete)
  then show "distinct_keys a \<Longrightarrow> distinct_keys (OmitLTEZero a)" unfolding OmitLTEZero_def by simp
qed

section \<open>Comparisons\<close>

lemma Equals_eq_map_equal: "Equals a b = map_equal a b"
  by (auto simp: Equals_def map_equal_def list_all_iff split: option.splits)

lemma Equals_iff:
  "distinct_keys a \<Longrightarrow> distinct_keys b \<Longrightarrow> Equals a b \<longleftrightarrow> map_of a = map_of b"
  by (simp add: Equals_eq_map_equal map_equal_iff)

text \<open>An entry of the limits that the usages in \<open>a\<close> exceed.\<close>

definition exceeds :: "ResourceList \<Rightarrow> ResourceName \<times> Quantity \<Rightarrow> bool" where
  "exceeds a = (\<lambda>(k, v). case map_of a k of None \<Rightarrow> False | Some x \<Rightarrow> v < x)"

lemma exceeds_iff: "exceeds a (k, v) \<longleftrightarrow> (\<exists>x. map_of a k = Some x \<and> v < x)"
  by (auto simp: exceeds_def split: option.splits)

lemma LessThanOrEqual_fold:
  "fold (\<lambda>(key, value) (result, resourceNames).
        case map_of a key of
          None \<Rightarrow> (result, resourceNames)
        | Some other \<Rightarrow> (if other > value then (False, resourceNames @ [key])
                         else (result, resourceNames))) b (r, ns) =
   (r \<and> filter (exceeds a) b = [], ns @ map fst (filter (exceeds a) b))"
proof (induction b arbitrary: r ns)
  case Nil
  then show ?case by simp
next
  case (Cons kv b)
  obtain k v where kv: "kv = (k, v)" by force
  show ?case
    by (cases "map_of a k") (simp_all add: kv Cons.IH exceeds_iff)
qed

lemma LessThanOrEqual_eq:
  "LessThanOrEqual a b = (filter (exceeds a) b = [], map fst (filter (exceeds a) b))"
  unfolding LessThanOrEqual_def LessThanOrEqual_fold by simp

lemma LessThanOrEqual_allowed:
  assumes "distinct_keys b"
  shows "fst (LessThanOrEqual a b) \<longleftrightarrow>
    (\<forall>k x v. map_of a k = Some x \<longrightarrow> map_of b k = Some v \<longrightarrow> x \<le> v)"
proof -
  have "fst (LessThanOrEqual a b) \<longleftrightarrow> (\<forall>k v. (k, v) \<in> set b \<longrightarrow> \<not> exceeds a (k, v))"
    by (auto simp: LessThanOrEqual_eq filter_empty_conv)
  then show ?thesis
    using assms by (auto simp: exceeds_iff not_less)
qed

lemma LessThanOrEqual_names:
  assumes "distinct_keys b"
  shows "k \<in> set (snd (LessThanOrEqual a b)) \<longleftrightarrow>
    (\<exists>x v. map_of a k = Some x \<and> map_of b k = Some v \<and> x > v)"
proof -
  have "k \<in> set (snd (LessThanOrEqual a b)) \<longleftrightarrow> (\<exists>v. (k, v) \<in> set b \<and> exceeds a (k, v))"
    by (auto simp: LessThanOrEqual_eq image_iff)
  then show ?thesis
    using assms by (auto simp: exceeds_iff)
qed

section \<open>The arithmetic the quota code relies on\<close>

text \<open>The amount of a resource in a list: zero when it is not listed.\<close>

definition qty :: "ResourceList \<Rightarrow> ResourceName \<Rightarrow> Quantity" where
  "qty a k = (case map_of a k of None \<Rightarrow> 0 | Some q \<Rightarrow> q)"

text \<open>
  What \<^verbatim>\<open>internal/forest/namespacehrq.go\<close> needs of a usage arithmetic: exact
  addition and subtraction, and a filter that keeps the amounts of the names it is given.
  The incremental update of a subtree usage is correct for every such arithmetic.
\<close>

locale usage_arith =
  fixes add :: "'r \<Rightarrow> 'r \<Rightarrow> 'r"
    and sub :: "'r \<Rightarrow> 'r \<Rightarrow> 'r"
    and limit :: "'r \<Rightarrow> 'r \<Rightarrow> 'r"
    and amount :: "'r \<Rightarrow> 'k \<Rightarrow> int"
    and listed :: "'r \<Rightarrow> 'k \<Rightarrow> bool"
    and invar :: "'r \<Rightarrow> bool"
  assumes amount_add: "invar a \<Longrightarrow> invar b \<Longrightarrow> amount (add a b) k = amount a k + amount b k"
    and amount_sub: "invar a \<Longrightarrow> invar b \<Longrightarrow> amount (sub a b) k = amount a k - amount b k"
    and amount_limit: "invar a \<Longrightarrow> amount (limit a l) k = (if listed l k then amount a k else 0)"
    and invar_add: "invar (add a b)"
    and invar_sub: "invar (sub a b)"
    and invar_limit: "invar (limit a l)"
begin

lemma amount_update:
  assumes "invar new" "invar old" "invar tot"
  shows "amount (limit (add (sub new old) tot) l) k =
    (if listed l k then amount tot k + (amount new k - amount old k) else 0)"
  using assms by (simp add: amount_limit amount_add amount_sub invar_add invar_sub)

lemma amount_undo:
  assumes "invar a" "invar b"
  shows "amount (add (sub a b) b) k = amount a k"
  using assms by (simp add: amount_add amount_sub invar_sub)

end

interpretation ru: usage_arith Add Subtract FilterUnlimited qty "\<lambda>l k. map_of l k \<noteq> None"
  "\<lambda>a. distinct_keys a"
  by unfold_locales
    (auto simp: qty_def Add_lookup Subtract_lookup FilterUnlimited_lookup gomap_simps
      split: option.splits)

end
