(* ===== verification/Forest.thy ===== *)
theory Forest
  imports Resources
begin

text \<open>
  The in-memory forest: \<^verbatim>\<open>internal/forest/forest.go\<close> and
  \<^verbatim>\<open>internal/forest/namespace.go\<close>.

  Namespaces are heap objects that point to each other, so the model has an explicit heap:
  \<open>f_heap\<close> is the list of all namespace objects ever allocated, a pointer is an index
  into it, and \<^verbatim>\<open>nil\<close> is \<open>None\<close>. The map \<open>f_namespaces\<close> from names to
  pointers is the \<^verbatim>\<open>namespaces\<close> field; an object that \<^verbatim>\<open>clean\<close>
  removes from the map stays in the heap for whoever still points to it. Two pointers are
  equal when they are the same index, as in Go.
\<close>

section \<open>Data\<close>

type_synonym nsptr = nat

record Namespace =
  ns_name :: string
  ns_parent :: "nsptr option"
  ns_children :: "(string, nsptr) gomap"
  ns_exists :: bool
  ns_allowCascadingDeletion :: bool
  ns_labels :: "(string, string) gomap option"
  ns_ManagedLabels :: "(string, string) gomap option"
  ns_ManagedAnnotations :: "(string, string) gomap option"
  ns_sourceObjects :: "(GroupVersionKind, (string, Unstructured) gomap) gomap"
  ns_conditions :: "Condition list"
  ns_IsSub :: bool
  ns_Anchors :: "string list"
  ns_Manager :: string
  ns_limits :: "(string, ResourceList) gomap"
  ns_used_local :: "ResourceList option"
  ns_used_subtree :: ResourceList

text \<open>
  The only implementation of the \<^verbatim>\<open>TypeSyncer\<close> interface is the object
  reconciler; the forest uses its kind, its mode and its count of propagated objects.
\<close>

record TypeSyncer =
  ts_GVK :: GroupVersionKind
  ts_Mode :: SynchronizationMode
  ts_propagatedObjects :: "NamespacedName list"

record Forest =
  f_namespaces :: "(string, nsptr) gomap"
  f_heap :: "Namespace list"
  f_types :: "TypeSyncer list"

definition NewForest :: Forest where
  "NewForest = \<lparr>f_namespaces = [], f_heap = [], f_types = []\<rparr>"

section \<open>The heap\<close>

definition newNamespace :: "string \<Rightarrow> Namespace" where
  "newNamespace nm =
     \<lparr>ns_name = nm, ns_parent = None, ns_children = [], ns_exists = False,
      ns_allowCascadingDeletion = False, ns_labels = None, ns_ManagedLabels = None,
      ns_ManagedAnnotations = None, ns_sourceObjects = [], ns_conditions = [],
      ns_IsSub = False, ns_Anchors = [], ns_Manager = '''',
      ns_limits = [], ns_used_local = None, ns_used_subtree = []\<rparr>"

text \<open>
  Reading and writing through a pointer. Every pointer a Go program holds is valid, so
  what an index past the end reads does not matter; it reads a blank namespace.
\<close>

definition deref :: "Forest \<Rightarrow> nsptr \<Rightarrow> Namespace" where
  "deref f a = (if a < length (f_heap f) then f_heap f ! a else newNamespace '''')"

definition modify :: "nsptr \<Rightarrow> (Namespace \<Rightarrow> Namespace) \<Rightarrow> Forest \<Rightarrow> Forest" where
  "modify a g f = f\<lparr>f_heap := (f_heap f)[a := g (deref f a)]\<rparr>"

definition valid :: "Forest \<Rightarrow> nsptr \<Rightarrow> bool" where
  "valid f a = (a < length (f_heap f))"

section \<open>Forest operations (forest.go)\<close>

text \<open>
  \<^verbatim>\<open>Forest.Get\<close> creates the namespace when it is not there, so it returns the
  forest too.
\<close>

definition Get :: "string \<Rightarrow> Forest \<Rightarrow> nsptr option \<times> Forest" where
  "Get nm f = (if nm = '''' then (None, f)
     else (case map_of (f_namespaces f) nm of
         Some ns \<Rightarrow> (Some ns, f)
       | None \<Rightarrow> (let ns = length (f_heap f) in
           (Some ns, f\<lparr>f_heap := f_heap f @ [newNamespace nm],
                       f_namespaces := AList.update nm ns (f_namespaces f)\<rparr>))))"

definition GetNamespaceNames :: "Forest \<Rightarrow> string list" where
  "GetNamespaceNames f = fold (\<lambda>(nm, ns) names. names @ [nm]) (f_namespaces f) []"

definition GetRoots :: "Forest \<Rightarrow> nsptr list" where
  "GetRoots f = fold (\<lambda>(nm, ns) nses. if ns_parent (deref f ns) = None then nses @ [ns] else nses)
     (f_namespaces f) []"

definition AddTypeSyncer :: "TypeSyncer \<Rightarrow> Forest \<Rightarrow> Forest" where
  "AddTypeSyncer nss f = f\<lparr>f_types := f_types f @ [nss]\<rparr>"

definition GetTypeSyncer :: "Forest \<Rightarrow> GroupVersionKind \<Rightarrow> TypeSyncer option" where
  "GetTypeSyncer f gvk = find (\<lambda>t. ts_GVK t = gvk) (f_types f)"

definition GetTypeSyncerFromGroupKind :: "Forest \<Rightarrow> GroupKind \<Rightarrow> TypeSyncer option" where
  "GetTypeSyncerFromGroupKind f gk = find (\<lambda>t. GroupKind_of (ts_GVK t) = gk) (f_types f)"

definition GetTypeSyncers :: "Forest \<Rightarrow> TypeSyncer list" where
  "GetTypeSyncers f = f_types f"

section \<open>Namespace operations (namespace.go)\<close>

definition Name :: "Forest \<Rightarrow> nsptr option \<Rightarrow> string" where
  "Name f ns = (case ns of None \<Rightarrow> ''<none>'' | Some a \<Rightarrow> ns_name (deref f a))"

definition Parent :: "Forest \<Rightarrow> nsptr option \<Rightarrow> nsptr option" where
  "Parent f ns = (case ns of None \<Rightarrow> None | Some a \<Rightarrow> ns_parent (deref f a))"

definition Exists :: "Forest \<Rightarrow> nsptr \<Rightarrow> bool" where
  "Exists f ns = ns_exists (deref f ns)"

definition SetExists :: "nsptr \<Rightarrow> Forest \<Rightarrow> bool \<times> Forest" where
  "SetExists ns f = (\<not> ns_exists (deref f ns), modify ns (\<lambda>n. n\<lparr>ns_exists := True\<rparr>) f)"

definition GetLabels :: "Forest \<Rightarrow> nsptr \<Rightarrow> (string, string) gomap" where
  "GetLabels f ns = nil_map (ns_labels (deref f ns))"

definition SetLabels :: "nsptr \<Rightarrow> (string, string) gomap option \<Rightarrow> Forest \<Rightarrow> bool \<times> Forest" where
  "SetLabels ns labels f =
     (\<not> DeepEqual_map (ns_labels (deref f ns)) labels,
      modify ns (\<lambda>n. n\<lparr>ns_labels :=
        Some (fold (\<lambda>(key, val) m. AList.update key val m) (nil_map labels) [])\<rparr>) f)"

text \<open>\<^verbatim>\<open>clean\<close> drops a namespace from the map unless it exists or has children.\<close>

definition clean :: "nsptr \<Rightarrow> Forest \<Rightarrow> Forest" where
  "clean ns f = (let n = deref f ns in
     if ns_exists n \<or> length (ns_children n) > 0 then f
     else f\<lparr>f_namespaces := AList.delete (ns_name n) (f_namespaces f)\<rparr>)"

definition UpdateAllowCascadingDeletion :: "nsptr \<Rightarrow> bool \<Rightarrow> Forest \<Rightarrow> bool \<times> Forest" where
  "UpdateAllowCascadingDeletion ns acd f =
     (if ns_allowCascadingDeletion (deref f ns) = acd then (False, f)
      else (True, modify ns (\<lambda>n. n\<lparr>ns_allowCascadingDeletion := acd\<rparr>) f))"

text \<open>
  \<^verbatim>\<open>SetAnchors\<close> returns the symmetric difference of the new and the old list: the
  set \<open>add\<close> starts as the new names; each old name leaves it or joins the difference;
  what is left is new.
\<close>

definition setAnchors_add :: "string list \<Rightarrow> (string, bool) gomap" where
  "setAnchors_add anchors = fold (\<lambda>nm add. AList.update nm True add) anchors []"

definition SetAnchors :: "nsptr \<Rightarrow> string list \<Rightarrow> Forest \<Rightarrow> string list \<times> Forest" where
  "SetAnchors ns anchors f =
     (let (add, diff) = fold (\<lambda>nm (add, diff).
              if map_of add nm = Some True then (AList.delete nm add, diff) else (add, diff @ [nm]))
            (ns_Anchors (deref f ns)) (setAnchors_add anchors, []);
          diff = fold (\<lambda>(nm, b) diff. diff @ [nm]) add diff
      in (diff, modify ns (\<lambda>n. n\<lparr>ns_Anchors := anchors\<rparr>) f))"

definition HasAnchor :: "Forest \<Rightarrow> nsptr \<Rightarrow> string \<Rightarrow> bool" where
  "HasAnchor f ns n = list_ex (\<lambda>a. a = n) (ns_Anchors (deref f ns))"

definition IsExternal :: "Forest \<Rightarrow> nsptr \<Rightarrow> bool" where
  "IsExternal f ns = (ns_Manager (deref f ns) \<noteq> '''' \<and> ns_Manager (deref f ns) \<noteq> MetaGroup)"

section \<open>Reads after writes\<close>

lemma deref_modify [forest_simps]:
  "valid f a \<Longrightarrow> deref (modify a g f) b = (if b = a then g (deref f a) else deref f b)"
  by (auto simp: deref_def modify_def valid_def)

lemma deref_modify_other [forest_simps]: "b \<noteq> a \<Longrightarrow> deref (modify a g f) b = deref f b"
  by (auto simp: deref_def modify_def)

lemma valid_modify [forest_simps]: "valid (modify a g f) b = valid f b"
  by (simp add: valid_def modify_def)

lemma modify_frame [forest_simps]:
  "f_namespaces (modify a g f) = f_namespaces f" "f_types (modify a g f) = f_types f"
  "length (f_heap (modify a g f)) = length (f_heap f)"
  by (simp_all add: modify_def)

lemma deref_set_namespaces [forest_simps]:
  "deref (f\<lparr>f_namespaces := m\<rparr>) = deref f" "valid (f\<lparr>f_namespaces := m\<rparr>) = valid f"
  by (simp_all add: deref_def valid_def fun_eq_iff)

text \<open>A field that a write through a pointer leaves alone reads the same everywhere.\<close>

lemma modify_field:
  "(\<And>n. fld (g n) = fld n) \<Longrightarrow> fld (deref (modify a g f) b) = fld (deref f b)"
  by (cases "valid f a") (auto simp: deref_modify, auto simp: deref_def modify_def valid_def)

section \<open>Well-formed forests\<close>

text \<open>
  A pointer is registered when the map finds it under its own name. In a well-formed forest
  every entry of the map is registered under its key, parents and children of registered
  namespaces are registered, and the child map of a namespace holds exactly the namespaces
  whose parent it is. The predicate is executable, so a concrete forest can be checked.
\<close>

definition registered :: "Forest \<Rightarrow> nsptr \<Rightarrow> bool" where
  "registered f a = (map_of (f_namespaces f) (ns_name (deref f a)) = Some a)"

definition wf_entry :: "Forest \<Rightarrow> string \<times> nsptr \<Rightarrow> bool" where
  "wf_entry f = (\<lambda>(nm, a). nm \<noteq> '''' \<and> valid f a \<and> ns_name (deref f a) = nm \<and>
     distinct_keys (ns_children (deref f a)) \<and>
     (case ns_parent (deref f a) of
        None \<Rightarrow> True
      | Some p \<Rightarrow> registered f p \<and> map_of (ns_children (deref f p)) nm = Some a) \<and>
     list_all (\<lambda>(c, b). registered f b \<and> ns_name (deref f b) = c \<and>
       ns_parent (deref f b) = Some a) (ns_children (deref f a)))"

definition wf_forest :: "Forest \<Rightarrow> bool" where
  "wf_forest f = (distinct_keys (f_namespaces f) \<and> list_all (wf_entry f) (f_namespaces f))"

lemma wf_forestI:
  assumes "distinct_keys (f_namespaces f)"
    and "\<And>nm a. map_of (f_namespaces f) nm = Some a \<Longrightarrow>
          nm \<noteq> '''' \<and> valid f a \<and> ns_name (deref f a) = nm \<and> distinct_keys (ns_children (deref f a))"
    and "\<And>a p. registered f a \<Longrightarrow> ns_parent (deref f a) = Some p \<Longrightarrow>
          registered f p \<and> map_of (ns_children (deref f p)) (ns_name (deref f a)) = Some a"
    and "\<And>a c b. registered f a \<Longrightarrow> map_of (ns_children (deref f a)) c = Some b \<Longrightarrow>
          registered f b \<and> ns_name (deref f b) = c \<and> ns_parent (deref f b) = Some a"
  shows "wf_forest f"
  unfolding wf_forest_def list_all_iff
proof (intro conjI ballI)
  fix e assume "e \<in> set (f_namespaces f)"
  then obtain nm a where e: "e = (nm, a)" and m: "map_of (f_namespaces f) nm = Some a"
    using assms(1) by (metis map_of_eq_Some_iff surj_pair)
  from assms(2) [OF m] have reg: "registered f a" and nm: "ns_name (deref f a) = nm"
    and dist: "distinct_keys (ns_children (deref f a))"
    using m by (auto simp: registered_def)
  have "list_all (\<lambda>(c, b). registered f b \<and> ns_name (deref f b) = c \<and>
      ns_parent (deref f b) = Some a) (ns_children (deref f a))"
    using assms(4) [OF reg] dist by (auto simp: list_all_iff)
  then show "wf_entry f e"
    using assms(2) [OF m] assms(3) [OF reg] nm by (auto simp: wf_entry_def e split: option.splits)
qed (fact assms(1))

lemma wf_distinct: "wf_forest f \<Longrightarrow> distinct_keys (f_namespaces f)"
  by (simp add: wf_forest_def)

lemma wf_lookup:
  "wf_forest f \<Longrightarrow> map_of (f_namespaces f) nm = Some a \<Longrightarrow> wf_entry f (nm, a)"
  by (auto simp: wf_forest_def list_all_iff dest: map_of_SomeD)

lemma wf_lookup_registered:
  "wf_forest f \<Longrightarrow> map_of (f_namespaces f) nm = Some a \<Longrightarrow> registered f a"
  using wf_lookup by (auto simp: wf_entry_def registered_def)

lemma wf_name: "wf_forest f \<Longrightarrow> map_of (f_namespaces f) nm = Some a \<Longrightarrow> ns_name (deref f a) = nm"
  using wf_lookup by (auto simp: wf_entry_def)

lemma registered_entry: "wf_forest f \<Longrightarrow> registered f a \<Longrightarrow> wf_entry f (ns_name (deref f a), a)"
  by (simp add: registered_def wf_lookup)

lemma registered_valid: "wf_forest f \<Longrightarrow> registered f a \<Longrightarrow> valid f a"
  using registered_entry by (auto simp: wf_entry_def)

lemma registered_name: "wf_forest f \<Longrightarrow> registered f a \<Longrightarrow> ns_name (deref f a) \<noteq> ''''"
  using registered_entry by (auto simp: wf_entry_def)

lemma registered_children:
  "wf_forest f \<Longrightarrow> registered f a \<Longrightarrow> distinct_keys (ns_children (deref f a))"
  using registered_entry by (auto simp: wf_entry_def)

lemma registered_parent:
  "wf_forest f \<Longrightarrow> registered f a \<Longrightarrow> ns_parent (deref f a) = Some p \<Longrightarrow>
   registered f p \<and> map_of (ns_children (deref f p)) (ns_name (deref f a)) = Some a"
  by (drule registered_entry) (auto simp: wf_entry_def)


lemma registered_child:
  "wf_forest f \<Longrightarrow> registered f a \<Longrightarrow> map_of (ns_children (deref f a)) c = Some b \<Longrightarrow>
   registered f b \<and> ns_name (deref f b) = c \<and> ns_parent (deref f b) = Some a"
  by (drule registered_entry) (auto simp: wf_entry_def list_all_iff dest: map_of_SomeD)

lemma registered_inj:
  "registered f a \<Longrightarrow> registered f b \<Longrightarrow> ns_name (deref f a) = ns_name (deref f b) \<Longrightarrow> a = b"
  by (simp add: registered_def)

text \<open>\<open>Get\<close> on the name of a registered namespace finds it and changes nothing.\<close>

lemma Get_registered:
  "wf_forest f \<Longrightarrow> registered f a \<Longrightarrow> Get (ns_name (deref f a)) f = (Some a, f)"
  using registered_name by (auto simp: Get_def registered_def)

end
