(* ===== verification/Structure.thy ===== *)
theory Structure
  imports Forest
begin

text \<open>
  The tree structure of the forest, \<^verbatim>\<open>internal/forest/namespacestructure.go\<close>,
  and the recursive \<^verbatim>\<open>AllowsCascadingDeletion\<close> of
  \<^verbatim>\<open>namespace.go\<close>.

  The walks towards the root are loops over parent pointers. \<open>AncestryNames\<close> stops at
  the first name it sees twice, so it is total; \<open>IsAncestor\<close> has no such check, so it
  is a partial function whose \<open>None\<close> is a recursion that never returns.
  \<open>populateDescendants\<close> calls \<open>Get\<close>, which may allocate, and panics on a nil
  pointer, so it returns the forest in an option.
\<close>

section \<open>Termination measures\<close>

definition heap_names :: "Forest \<Rightarrow> string set" where
  "heap_names f = insert '''' (ns_name ` set (f_heap f))"

definition child_keys :: "Forest \<Rightarrow> string set" where
  "child_keys f = (\<Union>n \<in> set (f_heap f). set (keys (ns_children n)))"

lemma finite_heap_names [simp]: "finite (heap_names f)"
  by (simp add: heap_names_def)

lemma finite_child_keys [simp]: "finite (child_keys f)"
  by (simp add: child_keys_def)

lemma name_in_heap_names: "ns_name (deref f a) \<in> heap_names f"
  by (auto simp: deref_def heap_names_def newNamespace_def)

lemma children_in_child_keys: "set (keys (ns_children (deref f a))) \<subseteq> child_keys f"
  by (force simp: deref_def child_keys_def newNamespace_def)

lemma child_keys_Get: "child_keys (snd (Get nm f)) = child_keys f"
  by (auto simp: Get_def child_keys_def newNamespace_def Let_def split: option.splits)

section \<open>Operations\<close>

definition ChildNames :: "Forest \<Rightarrow> nsptr \<Rightarrow> string list" where
  "ChildNames f ns = sort (fold (\<lambda>(k, p) nms. nms @ [k]) (ns_children (deref f ns)) [])"

lemma fold_append_fst: "fold (\<lambda>(k, p) nms. nms @ [k]) m acc = acc @ map fst m"
  by (induction m arbitrary: acc) auto

lemma ChildNames_eq: "ChildNames f ns = sort (keys (ns_children (deref f ns)))"
  by (simp add: ChildNames_def fold_append_fst)

lemma set_ChildNames: "set (ChildNames f ns) = set (keys (ns_children (deref f ns)))"
  by (simp add: ChildNames_eq)

partial_function (option) IsAncestor :: "Forest \<Rightarrow> nsptr \<Rightarrow> nsptr option \<Rightarrow> bool option" where
  "IsAncestor f ns other =
     (if ns_parent (deref f ns) = other then Some True
      else (case ns_parent (deref f ns) of
          None \<Rightarrow> Some False
        | Some p \<Rightarrow> IsAncestor f p other))"

declare IsAncestor.simps [code]

function ancestry_loop :: "Forest \<Rightarrow> nsptr option \<Rightarrow> string set \<Rightarrow> string list \<Rightarrow> string list" where
  "ancestry_loop f anc cycleCheck ancestors = (case anc of
       None \<Rightarrow> ancestors
     | Some a \<Rightarrow> (let nm = ns_name (deref f a); ancestors = nm # ancestors in
         if nm \<in> cycleCheck then ancestors
         else ancestry_loop f (ns_parent (deref f a)) (insert nm cycleCheck) ancestors))"
  by pat_completeness auto
termination
proof (relation "measure (\<lambda>(f, anc, seen, xs). card (heap_names f - seen))", goal_cases)
  case (2 f anc seen xs a nm ys)
  then have "heap_names f - insert nm seen \<subset> heap_names f - seen"
    using name_in_heap_names [of f a] by blast
  then show ?case
    by (simp add: psubset_card_mono)
qed simp

declare ancestry_loop.simps [simp del]

definition AncestryNames :: "Forest \<Rightarrow> nsptr option \<Rightarrow> string list" where
  "AncestryNames f ns = (case ns of
       None \<Rightarrow> []
     | Some a \<Rightarrow> (let nm = ns_name (deref f a) in
         ancestry_loop f (ns_parent (deref f a)) {nm} [nm]))"

definition smallest :: "string list \<Rightarrow> nat \<times> string" where
  "smallest xs = fold (\<lambda>(idx, nm) (sidx, snm). if nm < snm then (idx, nm) else (sidx, snm))
     (enumerate 0 xs) (0, hd xs)"

definition CycleNames :: "Forest \<Rightarrow> nsptr \<Rightarrow> string list" where
  "CycleNames f ns =
     (let ancestors = AncestryNames f (Some ns) in
      if length ancestors = 1 \<or> hd ancestors \<noteq> ns_name (deref f ns) then []
      else (let ancestors = tl ancestors; (sidx, snm) = smallest ancestors;
                ancestors = drop sidx ancestors @ take sidx ancestors
            in ancestors @ [snm]))"

fun cycle_loop :: "string \<Rightarrow> string list \<Rightarrow> string list \<Rightarrow> bool \<times> string list" where
  "cycle_loop nm [] cycle = (False, cycle)"
| "cycle_loop nm (a # ancestors) cycle =
     (let cycle = cycle @ [a] in
      if a = nm then (True, cycle) else cycle_loop nm ancestors cycle)"

definition CanSetParent :: "Forest \<Rightarrow> nsptr \<Rightarrow> nsptr option \<Rightarrow> string" where
  "CanSetParent f ns p = (case p of
       None \<Rightarrow> ''''
     | Some q \<Rightarrow>
         if q = ns then quote (ns_name (deref f q)) @ '' cannot be set as its own parent''
         else (let (found, cycle) = cycle_loop (ns_name (deref f ns)) (rev (AncestryNames f p)) [] in
           if found then ''cycle when making '' @ quote (ns_name (deref f q)) @ '' the parent of '' @
             quote (ns_name (deref f ns)) @ '': current ancestry is '' @ Join cycle '' -> ''
           else ''''))"

definition RelativesNames :: "Forest \<Rightarrow> nsptr \<Rightarrow> string list" where
  "RelativesNames f ns =
     (let a = (case ns_parent (deref f ns) of None \<Rightarrow> [] | Some p \<Rightarrow> [ns_name (deref f p)])
      in fold (\<lambda>(k, p) a. a @ [k]) (ns_children (deref f ns)) a)"

text \<open>
  The recursion of \<^verbatim>\<open>populateDescendants\<close> with its call stack made explicit: the
  list holds the child names still to visit, the innermost loop first.
\<close>

function populateDescendants ::
  "Forest \<Rightarrow> string list \<Rightarrow> (string, bool) gomap \<Rightarrow> ((string, bool) gomap \<times> Forest) option" where
  "populateDescendants f [] d = Some (d, f)"
| "populateDescendants f (c # cs) d =
     (if map_of d c = Some True then populateDescendants f cs d
      else (case Get c f of
          (None, f') \<Rightarrow> None
        | (Some cns, f') \<Rightarrow>
            populateDescendants f' (ChildNames f' cns @ cs) (AList.update c True d)))"
  by pat_completeness auto
termination
proof (relation "measures [\<lambda>(f, cs, d). card ((child_keys f \<union> set cs) - {c. map_of d c = Some True}),
    \<lambda>(f, cs, d). length cs]", goal_cases)
  case (2 f c cs d)
  have "child_keys f \<union> set cs - {c. map_of d c = Some True} \<subseteq>
      child_keys f \<union> set (c # cs) - {c. map_of d c = Some True}"
    by auto
  then have "card (child_keys f \<union> set cs - {c. map_of d c = Some True}) \<le>
      card (child_keys f \<union> set (c # cs) - {c. map_of d c = Some True})"
    by (intro card_mono) auto
  then show ?case by auto
next
  case (3 f c cs d cn f' cns)
  have "child_keys f' = child_keys f"
    using child_keys_Get [of c f] 3 by (metis snd_conv)
  moreover have "set (ChildNames f' cns) \<subseteq> child_keys f'"
    using children_in_child_keys [of f' cns] by (simp add: set_ChildNames)
  ultimately have "child_keys f' \<union> set (ChildNames f' cns @ cs) -
        {x. map_of (AList.update c True d) x = Some True}
      \<subset> child_keys f \<union> set (c # cs) - {x. map_of d x = Some True}"
    using 3 by (auto simp: map_of_update)
  then show ?case
    by (simp add: psubset_card_mono)
qed simp

definition DescendantNames :: "nsptr \<Rightarrow> Forest \<Rightarrow> (string list \<times> Forest) option" where
  "DescendantNames ns f = do {
     (ds, f) \<leftarrow> populateDescendants f (ChildNames f ns) [];
     Some (if length ds = 0 then [] else sort (fold (\<lambda>(k, b) d. d @ [k]) ds []), f) }"

text \<open>A loop that appends the elements of a list that pass a test read from the forest.\<close>

fun filter_subs :: "string list \<Rightarrow> Forest \<Rightarrow> (string list \<times> Forest) option" where
  "filter_subs [] f = Some ([], f)"
| "filter_subs (dnm # dnms) f = (case Get dnm f of
       (None, f) \<Rightarrow> None
     | (Some d, f) \<Rightarrow> do {
         (fd, f') \<leftarrow> filter_subs dnms f;
         Some (if \<not> ns_IsSub (deref f d) then dnm # fd else fd, f') })"

definition FullDescendantNames :: "nsptr \<Rightarrow> Forest \<Rightarrow> (string list \<times> Forest) option" where
  "FullDescendantNames ns f = do {
     (dnms, f) \<leftarrow> DescendantNames ns f;
     (fd, f) \<leftarrow> filter_subs dnms f;
     Some (if length fd = 0 then [] else sort fd, f) }"

section \<open>The pointers behind the names\<close>

text \<open>The objects that \<open>AncestryNames\<close> walks over, from the namespace upwards.\<close>

function ancestry_ptrs :: "Forest \<Rightarrow> nsptr option \<Rightarrow> string set \<Rightarrow> nsptr list" where
  "ancestry_ptrs f anc seen = (case anc of
       None \<Rightarrow> []
     | Some a \<Rightarrow> (if ns_name (deref f a) \<in> seen then [a]
         else a # ancestry_ptrs f (ns_parent (deref f a)) (insert (ns_name (deref f a)) seen)))"
  by pat_completeness auto
termination
proof (relation "measure (\<lambda>(f, anc, seen). card (heap_names f - seen))", goal_cases)
  case (2 f anc seen a)
  then have "heap_names f - insert (ns_name (deref f a)) seen \<subset> heap_names f - seen"
    using name_in_heap_names [of f a] by blast
  then show ?case
    by (simp add: psubset_card_mono)
qed simp

declare ancestry_ptrs.simps [simp del]

lemma ancestry_ptrs_None [simp]: "ancestry_ptrs f None seen = []"
  by (simp add: ancestry_ptrs.simps)

lemma ancestry_ptrs_Some:
  "ancestry_ptrs f (Some a) seen = (if ns_name (deref f a) \<in> seen then [a]
     else a # ancestry_ptrs f (ns_parent (deref f a)) (insert (ns_name (deref f a)) seen))"
  by (simp add: ancestry_ptrs.simps)

lemma ancestry_ptrs_not_Nil [simp]: "ancestry_ptrs f (Some a) seen \<noteq> []"
  by (simp add: ancestry_ptrs_Some)

lemma ancestry_loop_ptrs:
  "ancestry_loop f anc seen xs = rev (map (\<lambda>a. ns_name (deref f a)) (ancestry_ptrs f anc seen)) @ xs"
proof (induction f anc seen xs rule: ancestry_loop.induct)
  case (1 f anc seen xs)
  show ?case
  proof (cases anc)
    case None
    then show ?thesis by (simp add: ancestry_loop.simps)
  next
    case (Some a)
    show ?thesis
    proof (cases "ns_name (deref f a) \<in> seen")
      case True
      then show ?thesis using Some by (simp add: ancestry_loop.simps ancestry_ptrs_Some)
    next
      case False
      then show ?thesis
        using 1 [OF Some refl refl False] Some
        by (simp add: ancestry_loop.simps [of f "Some a" seen xs] ancestry_ptrs_Some Let_def)
    qed
  qed
qed

lemma AncestryNames_ptrs:
  "AncestryNames f (Some a) = rev (map (\<lambda>a. ns_name (deref f a)) (ancestry_ptrs f (Some a) {}))"
  by (simp add: AncestryNames_def ancestry_loop_ptrs ancestry_ptrs_Some Let_def)

lemma AncestryNames_None [simp]: "AncestryNames f None = []"
  by (simp add: AncestryNames_def)

lemma AncestryNames_not_Nil [simp]: "AncestryNames f (Some a) \<noteq> []"
  by (simp add: AncestryNames_ptrs ancestry_ptrs_Some)

lemma last_AncestryNames: "last (AncestryNames f (Some a)) = ns_name (deref f a)"
  by (simp add: AncestryNames_ptrs ancestry_ptrs_Some)

text \<open>
  The walk from the parent, with one name more already seen: when the walk does not end at
  that name, it takes the same steps. This is why one step up shortens the ancestry of a
  namespace that is not in a cycle.
\<close>

lemma ancestry_ptrs_insert:
  assumes "nm \<notin> seen" and "anc \<noteq> None"
    and "ns_name (deref f (last (ancestry_ptrs f anc (insert nm seen)))) \<noteq> nm"
  shows "ancestry_ptrs f anc seen = ancestry_ptrs f anc (insert nm seen)"
  using assms
proof (induction f anc seen rule: ancestry_ptrs.induct)
  case (1 f anc seen)
  from 1 obtain a where anc: "anc = Some a" by auto
  let ?n = "ns_name (deref f a)"
  show ?case
  proof (cases "?n \<in> insert nm seen")
    case True
    then show ?thesis using 1 anc by (auto simp: ancestry_ptrs_Some)
  next
    case False
    have step: "ancestry_ptrs f anc (insert nm seen) =
        a # ancestry_ptrs f (ns_parent (deref f a)) (insert nm (insert ?n seen))"
      "ancestry_ptrs f anc seen = a # ancestry_ptrs f (ns_parent (deref f a)) (insert ?n seen)"
      using False anc by (simp_all add: ancestry_ptrs_Some insert_commute)
    show ?thesis
    proof (cases "ns_parent (deref f a)")
      case None
      then show ?thesis using step by simp
    next
      case (Some p)
      then have "ns_name (deref f (last (ancestry_ptrs f (ns_parent (deref f a))
          (insert nm (insert ?n seen))))) \<noteq> nm"
        using "1.prems"(3) step(1) by simp
      then have "ancestry_ptrs f (ns_parent (deref f a)) (insert ?n seen) =
          ancestry_ptrs f (ns_parent (deref f a)) (insert nm (insert ?n seen))"
        using "1.IH" [OF anc] "1.prems"(1) False Some by auto
      then show ?thesis
        using step by simp
    qed
  qed
qed

lemma hd_AncestryNames:
  "hd (AncestryNames f (Some a)) = ns_name (deref f (last (ancestry_ptrs f (Some a) {})))"
  by (simp add: AncestryNames_ptrs hd_rev last_map)

lemma CycleNames_Nil_iff:
  "CycleNames f a = [] \<longleftrightarrow>
   length (AncestryNames f (Some a)) = 1 \<or> hd (AncestryNames f (Some a)) \<noteq> ns_name (deref f a)"
  by (auto simp: CycleNames_def Let_def split: prod.splits)

lemma length_AncestryNames_parent:
  assumes "ns_parent (deref f a) = Some p" and "CycleNames f a = []"
  shows "length (AncestryNames f (Some p)) < length (AncestryNames f (Some a))"
proof -
  let ?n = "ns_name (deref f a)"
  let ?up = "ancestry_ptrs f (Some p) (insert ?n {})"
  have ne: "?up \<noteq> []" by (simp add: ancestry_ptrs_Some)
  have a: "ancestry_ptrs f (Some a) {} = a # ?up"
    using assms(1) by (simp add: ancestry_ptrs_Some)
  then have len: "length (AncestryNames f (Some a)) \<noteq> 1"
    using ne by (simp add: AncestryNames_ptrs)
  have "ns_name (deref f (last ?up)) \<noteq> ?n"
    using assms(2) len a ne unfolding CycleNames_Nil_iff hd_AncestryNames by simp
  then have "ancestry_ptrs f (Some p) {} = ?up"
    by (intro ancestry_ptrs_insert) auto
  then show ?thesis
    using a by (simp add: AncestryNames_ptrs)
qed

text \<open>
  \<^verbatim>\<open>AllowsCascadingDeletion\<close> stops at a root and at a member of a cycle; by the
  lemma above the ancestry gets shorter at every other step.
\<close>

function AllowsCascadingDeletion :: "Forest \<Rightarrow> nsptr \<Rightarrow> bool" where
  "AllowsCascadingDeletion f ns =
     (if ns_allowCascadingDeletion (deref f ns) then True
      else (case ns_parent (deref f ns) of
          None \<Rightarrow> False
        | Some p \<Rightarrow> if CycleNames f ns \<noteq> [] then False else AllowsCascadingDeletion f p))"
  by pat_completeness auto
termination
  by (relation "measure (\<lambda>(f, ns). length (AncestryNames f (Some ns)))")
    (auto intro: length_AncestryNames_parent)

declare AllowsCascadingDeletion.simps [simp del]

end
