(* ===== verification/Ancestry.thy ===== *)
theory Ancestry
  imports Structure
begin

text \<open>
  What the walks of \<^verbatim>\<open>namespacestructure.go\<close> compute. The specification side is
  the relation \<open>parent_rel\<close> between a namespace and its parent; ancestors are its
  reflexive-transitive closure, and a namespace is in a cycle when it is its own proper
  ancestor. \<open>AncestryNames\<close> is shown to list the one walk along that relation that stops
  at a root or at the first repeated name, and everything else is derived from that.
\<close>

section \<open>The parent relation and its walks\<close>

definition parent_rel :: "Forest \<Rightarrow> (nsptr \<times> nsptr) set" where
  "parent_rel f = {(a, p). ns_parent (deref f a) = Some p}"

abbreviation nm_of :: "Forest \<Rightarrow> nsptr \<Rightarrow> string" where
  "nm_of f a \<equiv> ns_name (deref f a)"

definition in_cycle :: "Forest \<Rightarrow> nsptr \<Rightarrow> bool" where
  "in_cycle f a = ((a, a) \<in> (parent_rel f)\<^sup>+)"

lemma parent_rel_iff [simp]: "(a, p) \<in> parent_rel f \<longleftrightarrow> ns_parent (deref f a) = Some p"
  by (simp add: parent_rel_def)

lemma single_valued_parent: "single_valued (parent_rel f)"
  by (simp add: single_valued_def)

fun chain :: "Forest \<Rightarrow> nsptr list \<Rightarrow> bool" where
  "chain f [] = True"
| "chain f [a] = True"
| "chain f (a # b # xs) = (ns_parent (deref f a) = Some b \<and> chain f (b # xs))"

lemma chain_Cons: "chain f (a # xs) \<longleftrightarrow> (xs = [] \<or> ns_parent (deref f a) = Some (hd xs) \<and> chain f xs)"
  by (cases xs) auto

lemma chain_append:
  "chain f (xs @ ys) \<longleftrightarrow> chain f xs \<and> chain f ys \<and>
     (xs \<noteq> [] \<longrightarrow> ys \<noteq> [] \<longrightarrow> ns_parent (deref f (last xs)) = Some (hd ys))"
proof (induction xs)
  case (Cons a xs)
  then show ?case by (cases xs) (auto simp: chain_Cons)
qed simp

lemma chain_rtrancl: "chain f (a # xs) \<Longrightarrow> b \<in> set (a # xs) \<Longrightarrow> (a, b) \<in> (parent_rel f)\<^sup>*"
proof (induction xs arbitrary: a)
  case (Cons x xs)
  then have step: "(a, x) \<in> parent_rel f" and ch: "chain f (x # xs)" by auto
  show ?case
    using Cons.prems(2) Cons.IH [OF ch] step by (auto intro: converse_rtrancl_into_rtrancl)
qed auto

lemma chain_trancl: "chain f (a # xs) \<Longrightarrow> xs \<noteq> [] \<Longrightarrow> b \<in> set xs \<Longrightarrow> (a, b) \<in> (parent_rel f)\<^sup>+"
proof -
  assume ch: "chain f (a # xs)" and ne: "xs \<noteq> []" and b: "b \<in> set xs"
  then obtain x ys where xs: "xs = x # ys" by (cases xs) auto
  then have "(a, x) \<in> parent_rel f" and "(x, b) \<in> (parent_rel f)\<^sup>*"
    using ch b chain_rtrancl [of f x ys b] by auto
  then show ?thesis by (rule rtrancl_into_trancl2)
qed

text \<open>The walk that the loop makes, with the names already seen as a parameter.\<close>

definition walk :: "Forest \<Rightarrow> nsptr \<Rightarrow> string set \<Rightarrow> nsptr list \<Rightarrow> bool" where
  "walk f a seen xs \<longleftrightarrow> xs \<noteq> [] \<and> hd xs = a \<and> chain f xs \<and>
     distinct (map (nm_of f) (butlast xs)) \<and> nm_of f ` set (butlast xs) \<inter> seen = {} \<and>
     (nm_of f (last xs) \<in> seen \<union> nm_of f ` set (butlast xs) \<or> ns_parent (deref f (last xs)) = None)"

lemma walk_Cons:
  "walk f a seen (a' # xs) \<longleftrightarrow> a' = a \<and>
     (if xs = [] then nm_of f a \<in> seen \<or> ns_parent (deref f a) = None
      else nm_of f a \<notin> seen \<and> ns_parent (deref f a) = Some (hd xs) \<and>
        walk f (hd xs) (insert (nm_of f a) seen) xs)"
  by (auto simp: walk_def chain_Cons)

lemma walk_ancestry_ptrs: "walk f a seen (ancestry_ptrs f (Some a) seen)"
proof (induction "f" "Some a" seen arbitrary: a rule: ancestry_ptrs.induct)
  case (1 f seen a)
  show ?case
  proof (cases "nm_of f a \<in> seen \<or> ns_parent (deref f a) = None")
    case True
    then show ?thesis by (auto simp: ancestry_ptrs_Some [of f a] walk_Cons)
  next
    case False
    then obtain p where p: "ns_parent (deref f a) = Some p" by auto
    let ?seen = "insert (nm_of f a) seen"
    have "walk f p ?seen (ancestry_ptrs f (Some p) ?seen)"
      using 1 False p by auto
    moreover from this have "hd (ancestry_ptrs f (Some p) ?seen) = p"
      by (simp add: walk_def)
    ultimately show ?thesis
      using False p by (simp add: ancestry_ptrs_Some [of f a] walk_Cons)
  qed
qed

lemma walk_unique:
  "walk f a seen xs \<Longrightarrow> ancestry_ptrs f (Some a) seen = xs"
proof (induction xs arbitrary: a seen)
  case (Cons b xs)
  show ?case
  proof (cases "xs = []")
    case True
    then show ?thesis using Cons.prems by (auto simp: walk_Cons ancestry_ptrs_Some)
  next
    case False
    then have w: "walk f (hd xs) (insert (nm_of f a) seen) xs" and ab: "b = a"
      and n: "nm_of f a \<notin> seen" and p: "ns_parent (deref f a) = Some (hd xs)"
      using Cons.prems by (auto simp: walk_Cons)
    show ?thesis
      using Cons.IH [OF w] n p ab by (auto simp: ancestry_ptrs_Some [of f a])
  qed
qed (simp add: walk_def)

lemma registered_rtrancl:
  "(a, b) \<in> (parent_rel f)\<^sup>* \<Longrightarrow> wf_forest f \<Longrightarrow> registered f a \<Longrightarrow> registered f b"
  by (induction rule: rtrancl_induct) (auto dest: registered_parent)

section \<open>Cycles\<close>

lemma trancl_chain: "(a, b) \<in> (parent_rel f)\<^sup>+ \<Longrightarrow> \<exists>xs. chain f (a # xs @ [b])"
proof (induction rule: trancl_induct)
  case (base b)
  then have "chain f (a # [] @ [b])" by simp
  then show ?case by blast
next
  case (step b c)
  then obtain xs where "chain f (a # xs @ [b])" by blast
  then have "chain f (a # (xs @ [b]) @ [c])"
    using step chain_append [of f "a # xs @ [b]" "[c]"] by simp
  then show ?case by blast
qed

lemma chain_shortcut: "chain f (p @ [y] @ q @ [y] @ r) \<Longrightarrow> chain f (p @ [y] @ r)"
  by (auto simp: chain_append chain_Cons)

lemma simple_cycle:
  "chain f (a # xs @ [a]) \<Longrightarrow> \<exists>ys. chain f (a # ys @ [a]) \<and> distinct (a # ys)"
proof (induction xs rule: length_induct)
  case (1 xs)
  show ?case
  proof (cases "distinct (a # xs)")
    case True
    then show ?thesis using 1 by blast
  next
    case False
    then obtain p y q r where eq: "a # xs = p @ [y] @ q @ [y] @ r"
      using not_distinct_decomp by blast
    then have "chain f (p @ [y] @ q @ [y] @ r @ [a])"
      using "1.prems" by (metis append_Cons append_assoc)
    then have ch: "chain f (p @ [y] @ r @ [a])"
      using chain_shortcut [of f p y q "r @ [a]"] by simp
    obtain zs where zs: "p @ [y] @ r = a # zs"
      using eq by (cases p) auto
    have "length zs < length xs"
      using arg_cong [OF eq, of length] arg_cong [OF zs, of length] by simp
    moreover have "chain f (a # zs @ [a])"
      using ch zs by (metis append_Cons append_assoc)
    ultimately show ?thesis using "1.IH" by blast
  qed
qed

lemma registered_distinct_names:
  assumes "distinct xs" and "\<And>x. x \<in> set xs \<Longrightarrow> registered f x"
  shows "distinct (map (nm_of f) xs)"
  using assms by (auto simp: distinct_map inj_on_def intro: registered_inj)

text \<open>A member of a cycle comes back to itself, and the walk lists the cycle once.\<close>

lemma cycle_walk:
  assumes "wf_forest f" "registered f a" "in_cycle f a"
  obtains ys where "ancestry_ptrs f (Some a) {} = a # ys @ [a]" "distinct (map (nm_of f) (a # ys))"
    "chain f (a # ys @ [a])" "\<And>x. x \<in> set ys \<Longrightarrow> registered f x"
proof -
  obtain ys where ch: "chain f (a # ys @ [a])" and dist: "distinct (a # ys)"
    using assms(3) trancl_chain simple_cycle unfolding in_cycle_def by blast
  have reg: "registered f x" if "x \<in> set (a # ys)" for x
    using chain_rtrancl [OF ch, of x] that registered_rtrancl assms by auto
  have names: "distinct (map (nm_of f) (a # ys))"
    using registered_distinct_names [OF dist reg] .
  have "walk f a {} (a # ys @ [a])"
    using ch names by (auto simp: walk_def butlast_append)
  then have "ancestry_ptrs f (Some a) {} = a # ys @ [a]"
    by (rule walk_unique)
  then show ?thesis using that names ch reg by simp
qed

lemma ancestry_ptrs_chain: "chain f (ancestry_ptrs f (Some a) seen)"
  using walk_ancestry_ptrs by (simp add: walk_def)

lemma ancestry_ptrs_hd: "ancestry_ptrs f (Some a) seen = a # tl (ancestry_ptrs f (Some a) seen)"
  using walk_ancestry_ptrs [of f a seen] by (cases "ancestry_ptrs f (Some a) seen") (auto simp: walk_def)

lemma ancestry_ptrs_rtrancl:
  "b \<in> set (ancestry_ptrs f (Some a) seen) \<Longrightarrow> (a, b) \<in> (parent_rel f)\<^sup>*"
  using chain_rtrancl [of f a "tl (ancestry_ptrs f (Some a) seen)" b]
    ancestry_ptrs_chain [of f a seen] ancestry_ptrs_hd [of f a seen] by simp

lemma CycleNames_in_cycle:
  assumes "wf_forest f" "registered f a"
  shows "CycleNames f a \<noteq> [] \<longleftrightarrow> in_cycle f a"
proof
  let ?w = "ancestry_ptrs f (Some a) {}"
  assume "CycleNames f a \<noteq> []"
  then have len: "length ?w \<noteq> 1" and nm: "nm_of f (last ?w) = nm_of f a"
    by (auto simp: CycleNames_Nil_iff AncestryNames_ptrs hd_rev last_map)
  have "registered f (last ?w)"
    using ancestry_ptrs_rtrancl [of "last ?w" f a "{}"] registered_rtrancl assms by auto
  then have last: "last ?w = a"
    using registered_inj nm assms by blast
  have "tl ?w \<noteq> []" using len ancestry_ptrs_hd [of f a "{}"] by (metis One_nat_def length_Cons list.size(3))
  moreover from this have "a \<in> set (tl ?w)"
    using last ancestry_ptrs_hd [of f a "{}"] by (metis last_ConsR last_in_set)
  ultimately show "in_cycle f a"
    unfolding in_cycle_def
    using chain_trancl [of f a "tl ?w" a] ancestry_ptrs_chain [of f a "{}"] ancestry_ptrs_hd [of f a "{}"]
    by simp
next
  assume "in_cycle f a"
  then obtain ys where "ancestry_ptrs f (Some a) {} = a # ys @ [a]"
    using cycle_walk assms by blast
  then show "CycleNames f a \<noteq> []"
    by (simp add: CycleNames_Nil_iff AncestryNames_ptrs)
qed

text \<open>From any ancestor of a member of a cycle the walk comes back to the member.\<close>

lemma cycle_back:
  assumes "in_cycle f a" "(a, b) \<in> (parent_rel f)\<^sup>*"
  shows "(b, a) \<in> (parent_rel f)\<^sup>*"
  using assms(2)
proof (induction rule: rtrancl_induct)
  case (step b c)
  show ?case
  proof (cases "b = a")
    case True
    obtain p where "(a, p) \<in> parent_rel f" "(p, a) \<in> (parent_rel f)\<^sup>*"
      using tranclD assms(1) unfolding in_cycle_def by meson
    then show ?thesis using step True by auto
  next
    case False
    then obtain p where "(b, p) \<in> parent_rel f" "(p, a) \<in> (parent_rel f)\<^sup>*"
      using step.IH by (meson converse_rtranclE)
    then show ?thesis using step by auto
  qed
qed simp

section \<open>All members of a cycle report the same list\<close>

lemma enumerate_snoc: "enumerate n (xs @ [x]) = enumerate n xs @ [(n + length xs, x)]"
  by (induction xs arbitrary: n) auto

lemma smallest_snoc:
  "xs \<noteq> [] \<Longrightarrow> smallest (xs @ [x]) = (if x < snd (smallest xs) then (length xs, x) else smallest xs)"
  by (simp add: smallest_def enumerate_snoc split: prod.splits)

lemma smallest_spec:
  "xs \<noteq> [] \<Longrightarrow> fst (smallest xs) < length xs \<and> xs ! fst (smallest xs) = snd (smallest xs) \<and>
     (\<forall>x \<in> set xs. snd (smallest xs) \<le> x)"
proof (induction xs rule: rev_induct)
  case (snoc x xs)
  show ?case
  proof (cases "xs = []")
    case True
    then show ?thesis by (simp add: smallest_def)
  next
    case False
    then show ?thesis
      using snoc.IH by (auto simp: smallest_snoc nth_append)
  qed
qed simp

definition canon :: "string list \<Rightarrow> string list" where
  "canon xs = rotate (fst (smallest xs)) xs"

lemma hd_rotate: "xs \<noteq> [] \<Longrightarrow> hd (rotate n xs) = xs ! (n mod length xs)"
  by (simp add: hd_rotate_conv_nth)

lemma rotate_eq_hd:
  assumes "distinct xs" "xs \<noteq> []" "hd (rotate m xs) = hd (rotate n xs)"
  shows "rotate m xs = rotate n xs"
proof -
  have "m mod length xs = n mod length xs"
    using assms by (simp add: hd_rotate nth_eq_iff_index_eq)
  then show ?thesis by (metis rotate_conv_mod)
qed

lemma hd_canon: "xs \<noteq> [] \<Longrightarrow> hd (canon xs) = snd (smallest xs)"
  using smallest_spec [of xs] by (simp add: canon_def hd_rotate)

lemma snd_smallest_rotate: "xs \<noteq> [] \<Longrightarrow> snd (smallest (rotate k xs)) = snd (smallest xs)"
proof -
  assume "xs \<noteq> []"
  moreover from this have "snd (smallest xs) \<in> set xs" "snd (smallest (rotate k xs)) \<in> set xs"
    using smallest_spec [of xs] smallest_spec [of "rotate k xs"]
    by (metis nth_mem, metis nth_mem rotate_is_Nil_conv set_rotate)
  ultimately show ?thesis
    using smallest_spec [of xs] smallest_spec [of "rotate k xs"] by (auto intro: antisym)
qed

lemma canon_rotate:
  assumes "distinct xs"
  shows "canon (rotate k xs) = canon xs"
proof (cases "xs = []")
  case False
  have "hd (rotate (fst (smallest (rotate k xs)) + k) xs) = hd (rotate (fst (smallest xs)) xs)"
    using hd_canon [of "rotate k xs"] hd_canon [of xs] snd_smallest_rotate [OF False, of k] False
    by (simp add: canon_def rotate_rotate)
  then show ?thesis
    using rotate_eq_hd [OF assms False] by (simp add: canon_def rotate_rotate)
qed simp

lemma CycleNames_canon:
  assumes "ancestry_ptrs f (Some a) {} = a # ys @ [a]"
  shows "CycleNames f a = (let c = canon (rev (map (nm_of f) (a # ys))) in c @ [hd c])"
proof -
  let ?xs = "rev (map (nm_of f) (a # ys))"
  have ne: "?xs \<noteq> []" by simp
  have "AncestryNames f (Some a) = nm_of f a # ?xs"
    using assms by (simp add: AncestryNames_ptrs)
  then have "CycleNames f a = drop (fst (smallest ?xs)) ?xs @ take (fst (smallest ?xs)) ?xs @ [snd (smallest ?xs)]"
    by (simp add: CycleNames_def split: prod.splits)
  moreover have "canon ?xs = drop (fst (smallest ?xs)) ?xs @ take (fst (smallest ?xs)) ?xs"
    using smallest_spec [OF ne] by (simp add: canon_def rotate_drop_take)
  moreover have "hd (canon ?xs) = snd (smallest ?xs)"
    using hd_canon [OF ne] .
  ultimately show ?thesis by (simp add: Let_def)
qed

lemma cycle_rotate:
  assumes "wf_forest f" "registered f a" "in_cycle f a" "ancestry_ptrs f (Some a) {} = a # ys @ [a]"
    and "b \<in> set (a # ys)"
  obtains k where "ancestry_ptrs f (Some b) {} = rotate k (a # ys) @ [b]"
    "rotate k (a # ys) = b # tl (rotate k (a # ys))"
proof -
  have ch: "chain f (a # ys @ [a])" and dist: "distinct (map (nm_of f) (a # ys))"
    using cycle_walk [OF assms(1-3)] assms(4) by (metis append_same_eq list.inject)+
  obtain p q where pq: "a # ys = p @ b # q"
    using split_list [OF assms(5)] by blast
  have rot: "rotate (length p) (a # ys) = b # q @ p"
    unfolding pq using rotate_append [of p "b # q"] by simp
  have cpq: "chain f (p @ [b] @ q @ [a])"
    using ch pq by (metis append_Cons append_Nil append_assoc)
  have "chain f (b # q @ p @ [b])"
  proof (cases p)
    case Nil
    then show ?thesis using cpq pq by simp
  next
    case (Cons a' p')
    then have "a' = a" using pq by simp
    then show ?thesis
      using cpq Cons chain_append [of f "b # q" "a # p' @ [b]"] chain_append [of f "a # p'" "b # q @ [a]"]
        chain_append [of f "b # q" "[a]"] chain_append [of f "a # p'" "[b]"]
      by simp
  qed
  moreover have "distinct (map (nm_of f) (b # q @ p))"
    using dist by (simp flip: rot rotate_map)
  ultimately have "walk f b {} (b # q @ p @ [b])"
    by (auto simp: walk_def butlast_append)
  then show ?thesis
    using that [of "length p"] walk_unique rot by simp
qed

lemma chain_nth: "chain f xs \<Longrightarrow> Suc i < length xs \<Longrightarrow> ns_parent (deref f (xs ! i)) = Some (xs ! Suc i)"
proof (induction xs arbitrary: i)
  case (Cons a xs)
  then show ?case by (cases i; cases xs) auto
qed simp

lemma cycle_closed:
  assumes "chain f (a # ys @ [a])" "(a, b) \<in> (parent_rel f)\<^sup>*"
  shows "b \<in> set (a # ys)"
  using assms(2)
proof (induction rule: rtrancl_induct)
  case (step b c)
  then obtain i where i: "i < length (a # ys)" "(a # ys) ! i = b"
    by (metis in_set_conv_nth)
  then have "(a # ys @ [a]) ! i = b"
    by (metis append_Cons nth_append)
  then have "c = (a # ys @ [a]) ! Suc i"
    using chain_nth [OF assms(1), of i] i step by auto
  then show ?case
    using i by (auto simp: nth_append split: if_splits)
qed simp

lemma rev_rotate: "\<exists>j. rev (rotate k xs) = rotate j (rev xs)"
proof -
  let ?m = "k mod length xs"
  have "rev xs = rev (drop ?m xs) @ rev (take ?m xs)"
    by (metis append_take_drop_id rev_append)
  then have "rotate (length (rev (drop ?m xs))) (rev xs) = rev (take ?m xs) @ rev (drop ?m xs)"
    by (metis rotate_append)
  then have "rev (rotate k xs) = rotate (length (rev (drop ?m xs))) (rev xs)"
    by (simp add: rotate_drop_take)
  then show ?thesis by blast
qed

lemma CycleNames_member:
  assumes "wf_forest f" "registered f a" "(a, b) \<in> (parent_rel f)\<^sup>*" "(b, a) \<in> (parent_rel f)\<^sup>*"
  shows "CycleNames f a = CycleNames f b"
proof (cases "a = b")
  case False
  then have ab: "(a, b) \<in> (parent_rel f)\<^sup>+" and ba: "(b, a) \<in> (parent_rel f)\<^sup>+"
    using assms by (auto dest: rtranclD)
  then have cyc: "in_cycle f a" by (auto simp: in_cycle_def)
  then obtain ys where w: "ancestry_ptrs f (Some a) {} = a # ys @ [a]"
    and dist: "distinct (map (nm_of f) (a # ys))" and ch: "chain f (a # ys @ [a])"
    using cycle_walk assms by metis
  have "b \<in> set (a # ys)"
    using cycle_closed [OF ch assms(3)] .
  then obtain k where k: "ancestry_ptrs f (Some b) {} = rotate k (a # ys) @ [b]"
    "rotate k (a # ys) = b # tl (rotate k (a # ys))"
    using cycle_rotate [OF assms(1,2) cyc w] by metis
  then have "CycleNames f b = (let c = canon (rev (map (nm_of f) (rotate k (a # ys)))) in c @ [hd c])"
    using CycleNames_canon [of f b "tl (rotate k (a # ys))"] by simp
  moreover have "canon (rev (map (nm_of f) (rotate k (a # ys)))) = canon (rev (map (nm_of f) (a # ys)))"
    using rev_rotate [of k "map (nm_of f) (a # ys)"] dist
    by (metis canon_rotate distinct_rev rotate_map)
  ultimately show ?thesis
    using CycleNames_canon [OF w] by simp
qed simp

lemma CycleNames_smallest:
  assumes "wf_forest f" "registered f a" "in_cycle f a"
    and "\<And>b. (a, b) \<in> (parent_rel f)\<^sup>* \<Longrightarrow> nm_of f a \<le> nm_of f b"
  shows "CycleNames f a = AncestryNames f (Some a)"
proof -
  obtain ys where w: "ancestry_ptrs f (Some a) {} = a # ys @ [a]"
    and dist: "distinct (map (nm_of f) (a # ys))" and ch: "chain f (a # ys @ [a])"
    using cycle_walk assms by metis
  let ?xs = "rev (map (nm_of f) (a # ys))"
  have le: "nm_of f a \<le> x" if "x \<in> set ?xs" for x
    using that assms(4) chain_rtrancl [OF ch] by auto
  have "?xs \<noteq> []" and d: "distinct ?xs" using dist by auto
  note sp = smallest_spec [OF this(1)]
  have "snd (smallest ?xs) \<in> set ?xs"
    using sp by (metis nth_mem)
  then have "?xs ! fst (smallest ?xs) = nm_of f a"
    using sp le by (auto intro: antisym)
  moreover have "?xs ! length ys = nm_of f a"
    by (simp add: nth_append)
  ultimately have idx: "fst (smallest ?xs) = length ys"
    using d sp nth_eq_iff_index_eq [OF d, of "fst (smallest ?xs)" "length ys"] by simp
  have "canon ?xs = nm_of f a # rev (map (nm_of f) ys)"
    unfolding canon_def idx using rotate_append [of "rev (map (nm_of f) ys)" "[nm_of f a]"] by simp
  then show ?thesis
    using CycleNames_canon [OF w] w by (simp add: AncestryNames_ptrs)
qed

section \<open>Ancestors\<close>

lemma split_last: "x \<in> set (ys @ [y]) \<Longrightarrow> x \<in> set ys \<or> x = y"
  by auto

lemma ancestry_closed:
  assumes "wf_forest f" "registered f a" "x \<in> set (ancestry_ptrs f (Some a) {})"
    and "ns_parent (deref f x) = Some p"
  shows "p \<in> set (ancestry_ptrs f (Some a) {})"
proof -
  let ?w = "ancestry_ptrs f (Some a) {}"
  have w: "walk f a {} ?w" by (rule walk_ancestry_ptrs)
  have reg: "registered f y" if "y \<in> set ?w" for y
    using ancestry_ptrs_rtrancl [OF that] registered_rtrancl assms by blast
  have "x \<in> set (butlast ?w)"
  proof (cases "x \<in> set (butlast ?w)")
    case False
    then have last: "x = last ?w"
      using assms(3) split_last [of x "butlast ?w" "last ?w"] by simp
    then obtain y where "y \<in> set (butlast ?w)" "nm_of f y = nm_of f x"
      using w assms(4) by (auto simp: walk_def)
    then show ?thesis
      using registered_inj reg assms(3) by (metis in_set_butlastD)
  qed
  then obtain i where "i < length ?w - 1" "?w ! i = x"
    by (metis in_set_conv_nth length_butlast nth_butlast)
  then have "?w ! Suc i = p" "Suc i < length ?w"
    using chain_nth [of f ?w i] w assms(4) by (auto simp: walk_def)
  then show ?thesis by (metis nth_mem)
qed

lemma set_ancestry_ptrs:
  assumes "wf_forest f" "registered f a"
  shows "set (ancestry_ptrs f (Some a) {}) = {b. (a, b) \<in> (parent_rel f)\<^sup>*}"
proof (intro equalityI subsetI)
  fix b assume "b \<in> {b. (a, b) \<in> (parent_rel f)\<^sup>*}"
  then have "(a, b) \<in> (parent_rel f)\<^sup>*" by simp
  then show "b \<in> set (ancestry_ptrs f (Some a) {})"
  proof (induction rule: rtrancl_induct)
    case base
    then show ?case using ancestry_ptrs_hd [of f a "{}"] by (metis list.set_intros(1))
  next
    case (step b c)
    then show ?case using ancestry_closed [OF assms] by simp
  qed
qed (auto dest: ancestry_ptrs_rtrancl)

lemma set_AncestryNames:
  assumes "wf_forest f" "registered f a"
  shows "set (AncestryNames f (Some a)) = nm_of f ` {b. (a, b) \<in> (parent_rel f)\<^sup>*}"
  using set_ancestry_ptrs [OF assms] by (simp add: AncestryNames_ptrs)

lemma name_in_AncestryNames:
  assumes "wf_forest f" "registered f a" "registered f b"
  shows "nm_of f b \<in> set (AncestryNames f (Some a)) \<longleftrightarrow> (a, b) \<in> (parent_rel f)\<^sup>*"
proof
  assume "nm_of f b \<in> set (AncestryNames f (Some a))"
  then obtain c where c: "(a, c) \<in> (parent_rel f)\<^sup>*" "nm_of f b = nm_of f c"
    using assms by (auto simp: set_AncestryNames)
  have "registered f c"
    using c registered_rtrancl assms by blast
  then have "b = c" using c assms registered_inj by blast
  then show "(a, b) \<in> (parent_rel f)\<^sup>*" using c by simp
qed (use assms in \<open>auto simp: set_AncestryNames\<close>)

text \<open>Outside cycles the walk ends at a root and lists each ancestor once.\<close>

lemma acyclic_ancestry:
  assumes "wf_forest f" "registered f a" "\<And>b. (a, b) \<in> (parent_rel f)\<^sup>* \<Longrightarrow> \<not> in_cycle f b"
  shows "distinct (AncestryNames f (Some a))"
    "ns_parent (deref f (last (ancestry_ptrs f (Some a) {}))) = None"
proof -
  let ?w = "ancestry_ptrs f (Some a) {}"
  have w: "walk f a {} ?w" by (rule walk_ancestry_ptrs)
  have reg: "registered f y" if "y \<in> set ?w" for y
    using ancestry_ptrs_rtrancl [OF that] registered_rtrancl assms by blast
  have no: "nm_of f (last ?w) \<notin> nm_of f ` set (butlast ?w)"
  proof
    assume "nm_of f (last ?w) \<in> nm_of f ` set (butlast ?w)"
    then obtain y where y: "y \<in> set (butlast ?w)" "nm_of f (last ?w) = nm_of f y" by blast
    have "last ?w = y"
      using y by (intro registered_inj [OF reg reg]) (auto dest: in_set_butlastD)
    then have l: "last ?w \<in> set (butlast ?w)" using y by simp
    then obtain us vs where uv: "butlast ?w = us @ last ?w # vs" by (meson split_list)
    then have eq: "us @ (last ?w # vs @ [last ?w]) = ?w"
      using append_butlast_last_id [of ?w] by simp
    have "chain f (us @ (last ?w # vs @ [last ?w]))"
      unfolding eq by (rule ancestry_ptrs_chain)
    then have "chain f (last ?w # vs @ [last ?w])"
      by (simp only: chain_append)
    then have "in_cycle f (last ?w)"
      unfolding in_cycle_def by (rule chain_trancl) auto
    then show False
      using assms(3) ancestry_ptrs_rtrancl [of "last ?w" f a "{}"] by auto
  qed
  then show "ns_parent (deref f (last ?w)) = None"
    using w by (auto simp: walk_def)
  have "distinct (map (nm_of f) (butlast ?w))" using w by (simp add: walk_def)
  then have "distinct (map (nm_of f) (butlast ?w @ [last ?w]))"
    using no by (simp del: append_butlast_last_id)
  then show "distinct (AncestryNames f (Some a))"
    by (simp add: AncestryNames_ptrs)
qed

section \<open>CanSetParent\<close>

lemma cycle_loop_found: "fst (cycle_loop nm xs c) \<longleftrightarrow> nm \<in> set xs"
  by (induction xs arbitrary: c) (auto simp: Let_def)

lemma CanSetParent_iff:
  assumes "wf_forest f" "registered f a" "registered f p"
  shows "CanSetParent f a (Some p) = '''' \<longleftrightarrow> (p, a) \<notin> (parent_rel f)\<^sup>*"
proof -
  have "CanSetParent f a (Some p) = '''' \<longleftrightarrow> p \<noteq> a \<and> nm_of f a \<notin> set (AncestryNames f (Some p))"
    using cycle_loop_found [of "nm_of f a" "rev (AncestryNames f (Some p))" "[]"]
    by (auto simp: CanSetParent_def split: prod.splits if_splits)
  then show ?thesis
    using assms name_in_AncestryNames by auto
qed

end
