(* ===== verification/Descendants.thy ===== *)
theory Descendants
  imports Ancestry
begin

text \<open>
  \<open>DescendantNames\<close>, \<open>FullDescendantNames\<close> and \<open>AllowsCascadingDeletion\<close>
  against the parent relation. The work list of \<open>populateDescendants\<close> is a closure
  computation: what it has visited is closed under children except for what the list still holds.
\<close>

section \<open>The closure computed by populateDescendants\<close>

text \<open>Reading a registered child by name in a well-formed forest allocates nothing.\<close>

lemma Get_lookup:
  "wf_forest f \<Longrightarrow> map_of (f_namespaces f) nm = Some a \<Longrightarrow> Get nm f = (Some a, f)"
  using wf_name Get_registered wf_lookup_registered by blast

definition known :: "Forest \<Rightarrow> string \<Rightarrow> bool" where
  "known f nm = (\<exists>a. map_of (f_namespaces f) nm = Some a)"

lemma ChildNames_mem:
  assumes "wf_forest f" "registered f a"
  shows "c \<in> set (ChildNames f a) \<longleftrightarrow>
    (\<exists>b. registered f b \<and> nm_of f b = c \<and> ns_parent (deref f b) = Some a)"
proof
  assume "c \<in> set (ChildNames f a)"
  then obtain b where "map_of (ns_children (deref f a)) c = Some b"
    using map_of_eq_None_iff [of "ns_children (deref f a)" c] by (auto simp: set_ChildNames)
  then show "\<exists>b. registered f b \<and> nm_of f b = c \<and> ns_parent (deref f b) = Some a"
    using registered_child [OF assms] by blast
next
  assume "\<exists>b. registered f b \<and> nm_of f b = c \<and> ns_parent (deref f b) = Some a"
  then obtain b where "map_of (ns_children (deref f a)) c = Some b"
    using registered_parent [OF assms(1)] by blast
  then have "c \<in> set (keys (ns_children (deref f a)))"
    using map_of_eq_None_iff [of "ns_children (deref f a)" c] by auto
  then show "c \<in> set (ChildNames f a)"
    by (simp add: set_ChildNames)
qed

text \<open>
  The names of the proper descendants of a namespace and of the namespaces under a set of
  names, as the specification has them.
\<close>

definition desc_names :: "Forest \<Rightarrow> nsptr \<Rightarrow> string set" where
  "desc_names f a = {nm_of f b | b. registered f b \<and> (b, a) \<in> (parent_rel f)\<^sup>+}"

definition under :: "Forest \<Rightarrow> string set \<Rightarrow> string set" where
  "under f cs = {nm_of f b | b c. registered f b \<and> registered f c \<and> nm_of f c \<in> cs \<and>
     (b, c) \<in> (parent_rel f)\<^sup>*}"

lemma under_child:
  assumes "wf_forest f" "registered f a"
  shows "under f (set (ChildNames f a)) = desc_names f a"
proof (intro equalityI subsetI)
  fix x assume "x \<in> under f (set (ChildNames f a))"
  then obtain b c where b: "registered f b" "x = nm_of f b" "(b, c) \<in> (parent_rel f)\<^sup>*" "registered f c"
    and "nm_of f c \<in> set (ChildNames f a)"
    by (auto simp: under_def)
  then have "(c, a) \<in> parent_rel f"
    using ChildNames_mem [OF assms] registered_inj by fastforce
  then have "(b, a) \<in> (parent_rel f)\<^sup>+"
    by (rule rtrancl_into_trancl1 [OF b(3)])
  then show "x \<in> desc_names f a"
    using b by (auto simp: desc_names_def)
next
  fix x assume "x \<in> desc_names f a"
  then obtain b where b: "registered f b" "x = nm_of f b" "(b, a) \<in> (parent_rel f)\<^sup>+"
    by (auto simp: desc_names_def)
  then obtain c where c: "(b, c) \<in> (parent_rel f)\<^sup>*" "(c, a) \<in> parent_rel f"
    by (meson tranclD2)
  then have "registered f c"
    using registered_rtrancl assms b by blast
  then show "x \<in> under f (set (ChildNames f a))"
    using b c ChildNames_mem [OF assms] by (auto simp: under_def)
qed

lemma under_mono: "xs \<subseteq> ys \<Longrightarrow> under f xs \<subseteq> under f ys"
  by (auto simp: under_def)

lemma under_un: "under f (xs \<union> ys) = under f xs \<union> under f ys"
  by (auto simp: under_def)

lemma under_self: "wf_forest f \<Longrightarrow> known f c \<Longrightarrow> c \<in> under f {c}"
  by (auto simp: under_def known_def dest: wf_lookup_registered wf_name)

lemma desc_under: "registered f a \<Longrightarrow> desc_names f a \<subseteq> under f {nm_of f a}"
  by (auto simp: desc_names_def under_def intro: trancl_into_rtrancl)

lemma known_child:
  "wf_forest f \<Longrightarrow> registered f a \<Longrightarrow> c \<in> set (ChildNames f a) \<Longrightarrow> known f c"
  by (auto simp: ChildNames_mem known_def registered_def)

text \<open>What a run of the work list visits: it starts with the names \<open>K\<close> and ends with \<open>K'\<close>.\<close>

definition visited :: "Forest \<Rightarrow> string set \<Rightarrow> string set \<Rightarrow> string set \<Rightarrow> bool" where
  "visited f cs K K' \<longleftrightarrow> K \<union> cs \<subseteq> K' \<and> K' \<subseteq> K \<union> under f cs \<and>
     (\<forall>a. registered f a \<longrightarrow> nm_of f a \<in> K' - K \<longrightarrow> set (ChildNames f a) \<subseteq> K')"

lemma visited_skip: "visited f cs K K' \<Longrightarrow> c \<in> K \<Longrightarrow> visited f (insert c cs) K K'"
  using under_mono [of cs "insert c cs" f] unfolding visited_def by blast

lemma visited_step:
  assumes "wf_forest f" "registered f a" "nm_of f a = c"
    and v: "visited f (set (ChildNames f a) \<union> cs) (insert c K) K'"
  shows "visited f (insert c cs) K K'"
proof -
  have kn: "known f c" using assms(2,3) by (auto simp: known_def registered_def)
  have "under f (set (ChildNames f a) \<union> cs) \<subseteq> under f (insert c cs)"
    using desc_under [OF assms(2)] under_child [OF assms(1,2)] assms(3) under_mono [of "{c}" "insert c cs" f]
      under_mono [of "cs" "insert c cs" f]
    by (auto simp: under_un)
  moreover have "c \<in> under f (insert c cs)"
    using under_self [OF assms(1) kn] under_mono [of "{c}" "insert c cs" f] by auto
  ultimately have "K' \<subseteq> K \<union> under f (insert c cs)"
    using v unfolding visited_def by blast
  moreover have "set (ChildNames f b) \<subseteq> K'" if "registered f b" "nm_of f b \<in> K' - K" for b
  proof (cases "nm_of f b = c")
    case True
    then have "b = a" using assms(2,3) that registered_inj by metis
    then show ?thesis using v by (auto simp: visited_def)
  next
    case False
    then show ?thesis using v that by (auto simp: visited_def)
  qed
  ultimately show ?thesis
    using v unfolding visited_def by blast
qed

lemma populateDescendants_visited:
  assumes "wf_forest f" "\<And>c. c \<in> set cs \<Longrightarrow> known f c" "distinct_keys d" "\<forall>v \<in> snd ` set d. v"
  shows "\<exists>d'. populateDescendants f cs d = Some (d', f) \<and> distinct_keys d' \<and>
     visited f (set cs) (set (keys d)) (set (keys d'))"
  using assms
proof (induction f cs d rule: populateDescendants.induct)
  case (1 f d)
  then show ?case by (auto simp: visited_def)
next
  case (2 f c cs d)
  obtain a where a: "map_of (f_namespaces f) c = Some a"
    using "2.prems"(2) by (auto simp: known_def)
  then have get: "Get c f = (Some a, f)" and reg: "registered f a" and nm: "nm_of f a = c"
    using Get_lookup wf_lookup_registered wf_name "2.prems"(1) by blast+
  show ?case
  proof (cases "map_of d c = Some True")
    case True
    then obtain d' where "populateDescendants f cs d = Some (d', f)" "distinct_keys d'"
      "visited f (set cs) (set (keys d)) (set (keys d'))"
      using "2.IH"(1) "2.prems" by auto
    moreover have "c \<in> set (keys d)"
      using True by (metis map_of_eq_None_iff option.distinct(1) set_map)
    ultimately show ?thesis
      using True visited_skip by simp
  next
    case False
    have vals: "\<forall>v \<in> snd ` set (AList.update c True d). v"
      using "2.prems"(3,4) by (auto simp: set_update_mem split: if_splits)
    have "known f x" if "x \<in> set (ChildNames f a @ cs)" for x
      using that "2.prems"(1,2) known_child [OF _ reg] by auto
    then obtain d' where d': "populateDescendants f (ChildNames f a @ cs) (AList.update c True d) = Some (d', f)"
      "distinct_keys d'"
      "visited f (set (ChildNames f a @ cs)) (set (keys (AList.update c True d))) (set (keys d'))"
      using "2.IH"(2) [OF False get [symmetric] refl "2.prems"(1) _ distinct_keys_update [OF "2.prems"(3)] vals]
      by blast
    then have "visited f (set (c # cs)) (set (keys d)) (set (keys d'))"
      using visited_step [OF "2.prems"(1) reg nm] by (simp only: keys_update set_append list.set)
    then show ?thesis
      using False get d' by simp
  qed
qed

lemma visited_complete:
  assumes "wf_forest f" "visited f cs {} K"
  shows "K = under f cs"
proof (rule equalityI)
  show "under f cs \<subseteq> K"
  proof
    fix x assume "x \<in> under f cs"
    then obtain b c where b: "x = nm_of f b" "registered f b" and c: "registered f c" "nm_of f c \<in> cs"
      and path: "(b, c) \<in> (parent_rel f)\<^sup>*"
      by (auto simp: under_def)
    from path b c have "nm_of f b \<in> K"
    proof (induction arbitrary: x rule: converse_rtrancl_induct)
      case base
      then show ?case using assms(2) by (auto simp: visited_def)
    next
      case (step b p)
      then have par: "ns_parent (deref f b) = Some p" and rp: "registered f p"
        using registered_parent [OF assms(1)] by auto
      then have "nm_of f b \<in> set (ChildNames f p)"
        using ChildNames_mem [OF assms(1) rp] step.prems by auto
      then show ?case
        using assms(2) step rp by (auto simp: visited_def)
    qed
    then show "x \<in> K" using b by simp
  qed
qed (use assms in \<open>auto simp: visited_def\<close>)

lemma DescendantNames_eq:
  assumes "wf_forest f" "registered f a"
  shows "\<exists>ds. DescendantNames a f = Some (ds, f) \<and> distinct ds \<and> sorted ds \<and> set ds = desc_names f a"
proof -
  obtain d where d: "populateDescendants f (ChildNames f a) [] = Some (d, f)" "distinct_keys d"
    "visited f (set (ChildNames f a)) {} (set (keys d))"
    using populateDescendants_visited [of f "ChildNames f a" "[]"] known_child assms by auto
  then have "set (keys d) = desc_names f a"
    using visited_complete under_child assms by blast
  moreover have "DescendantNames a f = Some (sort (keys d), f)"
    using d(1) fold_append_fst [of d "[]"]
    by (simp add: DescendantNames_def)
  ultimately show ?thesis
    using d(2) by simp
qed

lemma filter_subs_eq:
  assumes "wf_forest f" "\<And>x. x \<in> set xs \<Longrightarrow> known f x"
  shows "filter_subs xs f =
    Some (filter (\<lambda>x. \<not> ns_IsSub (deref f (the (map_of (f_namespaces f) x)))) xs, f)"
  using assms(2)
proof (induction xs)
  case (Cons x xs)
  then obtain a where a: "map_of (f_namespaces f) x = Some a"
    by (auto simp: known_def)
  then have "Get x f = (Some a, f)"
    using Get_lookup assms(1) by blast
  then show ?case using Cons a by simp
qed simp

lemma known_desc: "x \<in> desc_names f a \<Longrightarrow> known f x"
  by (auto simp: desc_names_def known_def registered_def)

lemma FullDescendantNames_eq:
  assumes "wf_forest f" "registered f a"
  shows "\<exists>ds. FullDescendantNames a f = Some (ds, f) \<and> distinct ds \<and> sorted ds \<and>
    set ds = {nm_of f b | b. registered f b \<and> (b, a) \<in> (parent_rel f)\<^sup>+ \<and> \<not> ns_IsSub (deref f b)}"
proof -
  obtain ds where ds: "DescendantNames a f = Some (ds, f)" "distinct ds" "sorted ds" "set ds = desc_names f a"
    using DescendantNames_eq [OF assms] by blast
  let ?P = "\<lambda>x. \<not> ns_IsSub (deref f (the (map_of (f_namespaces f) x)))"
  have "filter_subs ds f = Some (filter ?P ds, f)"
    using filter_subs_eq [OF assms(1)] known_desc ds(4) by blast
  then have "FullDescendantNames a f = Some (sort (filter ?P ds), f)"
    using ds(1) by (simp add: FullDescendantNames_def)
  moreover have "set (filter ?P ds) =
      {nm_of f b | b. registered f b \<and> (b, a) \<in> (parent_rel f)\<^sup>+ \<and> \<not> ns_IsSub (deref f b)}"
    using ds(4) by (auto simp: desc_names_def registered_def)
  ultimately show ?thesis using ds by simp
qed

section \<open>Walks that do not look for cycles\<close>

text \<open>
  A namespace is acyclic when no ancestor of it (itself included) is in a cycle. Then every
  step towards the root shortens the ancestry.
\<close>

definition acyclic_ns :: "Forest \<Rightarrow> nsptr \<Rightarrow> bool" where
  "acyclic_ns f a = (\<forall>b. (a, b) \<in> (parent_rel f)\<^sup>* \<longrightarrow> \<not> in_cycle f b)"

lemma acyclic_ns_parent: "acyclic_ns f a \<Longrightarrow> ns_parent (deref f a) = Some p \<Longrightarrow> acyclic_ns f p"
  using converse_rtrancl_into_rtrancl [of a p "parent_rel f"] by (auto simp: acyclic_ns_def)

lemma acyclic_ns_self: "acyclic_ns f a \<Longrightarrow> \<not> in_cycle f a"
  by (auto simp: acyclic_ns_def)

lemma acyclic_ns_induct [consumes 3, case_names step]:
  assumes "wf_forest f" "registered f a" "acyclic_ns f a"
    and step: "\<And>a. registered f a \<Longrightarrow> acyclic_ns f a \<Longrightarrow>
      (\<And>p. ns_parent (deref f a) = Some p \<Longrightarrow> registered f p \<Longrightarrow> acyclic_ns f p \<Longrightarrow> P p) \<Longrightarrow> P a"
  shows "P a"
  using assms(2,3)
proof (induction "length (AncestryNames f (Some a))" arbitrary: a rule: less_induct)
  case less
  show ?case
  proof (rule step [OF less.prems])
    fix p assume p: "ns_parent (deref f a) = Some p" "registered f p" "acyclic_ns f p"
    have "CycleNames f a = []"
      using CycleNames_in_cycle [OF assms(1) less.prems(1)] acyclic_ns_self [OF less.prems(2)] by blast
    then show "P p"
      using less.hyps length_AncestryNames_parent p by blast
  qed
qed

lemma trancl_parent:
  "(a, b) \<in> (parent_rel f)\<^sup>+ \<longleftrightarrow> (\<exists>p. ns_parent (deref f a) = Some p \<and> (p, b) \<in> (parent_rel f)\<^sup>*)"
  by (auto dest: tranclD intro: rtrancl_into_trancl2)

lemma rtrancl_parent:
  "(a, b) \<in> (parent_rel f)\<^sup>* \<longleftrightarrow>
   b = a \<or> (\<exists>p. ns_parent (deref f a) = Some p \<and> (p, b) \<in> (parent_rel f)\<^sup>*)"
  by (auto elim: converse_rtranclE intro: converse_rtrancl_into_rtrancl)

lemma IsAncestor_acyclic:
  assumes "wf_forest f" "registered f a" "acyclic_ns f a"
  shows "IsAncestor f a (Some b) = Some ((a, b) \<in> (parent_rel f)\<^sup>+)"
  using assms
proof (induction rule: acyclic_ns_induct)
  case (step a)
  show ?case
  proof (cases "ns_parent (deref f a)")
    case None
    then show ?thesis by (simp add: IsAncestor.simps [of f a] trancl_parent)
  next
    case (Some p)
    then have "IsAncestor f p (Some b) = Some ((p, b) \<in> (parent_rel f)\<^sup>+)"
      using step acyclic_ns_parent registered_parent [OF assms(1)] by blast
    then show ?thesis
      using Some by (auto simp: IsAncestor.simps [of f a] trancl_parent [of a]
          rtrancl_eq_or_trancl)
  qed
qed

lemma AllowsCascadingDeletion_sound:
  "AllowsCascadingDeletion f a \<Longrightarrow>
   \<exists>b. (a, b) \<in> (parent_rel f)\<^sup>* \<and> ns_allowCascadingDeletion (deref f b)"
proof (induction f a rule: AllowsCascadingDeletion.induct)
  case (1 f a)
  show ?case
  proof (cases "ns_allowCascadingDeletion (deref f a)")
    case False
    then obtain p where "ns_parent (deref f a) = Some p" "CycleNames f a = []" "AllowsCascadingDeletion f p"
      using "1.prems" by (auto simp: AllowsCascadingDeletion.simps [of f a] split: option.splits if_splits)
    then show ?thesis
      using "1.IH" False rtrancl_parent [of a] by blast
  qed blast
qed

lemma AllowsCascadingDeletion_complete:
  assumes "wf_forest f" "registered f a" "acyclic_ns f a"
    and "(a, b) \<in> (parent_rel f)\<^sup>*" "ns_allowCascadingDeletion (deref f b)"
  shows "AllowsCascadingDeletion f a"
  using assms(1-4)
proof (induction rule: acyclic_ns_induct)
  case (step a)
  have c: "CycleNames f a = []"
    using CycleNames_in_cycle [OF assms(1) step(1)] acyclic_ns_self [OF step(2)] by blast
  show ?case
  proof (cases "ns_allowCascadingDeletion (deref f a)")
    case False
    then obtain p where "ns_parent (deref f a) = Some p" "(p, b) \<in> (parent_rel f)\<^sup>*"
      using step.prems assms(5) unfolding rtrancl_parent [of a b f] by auto
    then show ?thesis
      using step acyclic_ns_parent registered_parent [OF assms(1)] c
      by (simp add: AllowsCascadingDeletion.simps [of f a])
  qed (simp add: AllowsCascadingDeletion.simps [of f a])
qed

end
