(* ===== verification/Shape.thy ===== *)
theory Shape
  imports Descendants
begin

text \<open>
  Which writes keep a forest well formed. Most operations write fields other than the name,
  the parent and the children of a namespace; such a forest has the same shape, and every walk
  gives the same result on it. The structural writes, which allocate a namespace or change
  the links, are treated one by one.
\<close>

section \<open>Writes that keep the shape\<close>

definition same_shape :: "Forest \<Rightarrow> Forest \<Rightarrow> bool" where
  "same_shape f g \<longleftrightarrow> f_namespaces g = f_namespaces f \<and> length (f_heap g) = length (f_heap f) \<and>
     (\<forall>a. ns_name (deref g a) = ns_name (deref f a) \<and> ns_parent (deref g a) = ns_parent (deref f a) \<and>
          ns_children (deref g a) = ns_children (deref f a))"

named_theorems shape_simps \<open>what two forests of the same shape agree on\<close>

lemma same_shape_refl [simp]: "same_shape f f"
  by (simp add: same_shape_def)

lemma same_shape_trans: "same_shape f g \<Longrightarrow> same_shape g h \<Longrightarrow> same_shape f h"
  by (simp add: same_shape_def)

lemma same_shape_sym: "same_shape f g \<Longrightarrow> same_shape g f"
  by (simp add: same_shape_def)

lemma same_shape_namespaces [shape_simps]: "same_shape f g \<Longrightarrow> f_namespaces g = f_namespaces f"
  and same_shape_name [shape_simps]: "same_shape f g \<Longrightarrow> ns_name (deref g a) = ns_name (deref f a)"
  and same_shape_parent [shape_simps]: "same_shape f g \<Longrightarrow> ns_parent (deref g a) = ns_parent (deref f a)"
  and same_shape_children [shape_simps]: "same_shape f g \<Longrightarrow> ns_children (deref g a) = ns_children (deref f a)"

  and same_shape_valid [shape_simps]: "same_shape f g \<Longrightarrow> valid g a = valid f a"
  by (simp_all add: same_shape_def valid_def)

lemma same_shape_modify:
  assumes "\<And>n. ns_name (u n) = ns_name n" "\<And>n. ns_parent (u n) = ns_parent n"
    "\<And>n. ns_children (u n) = ns_children n"
  shows "same_shape f (modify a u f)"
  using assms by (auto simp: same_shape_def deref_def modify_def nth_list_update)

lemma same_shape_registered [shape_simps]: "same_shape f g \<Longrightarrow> registered g a = registered f a"
  by (simp add: registered_def shape_simps)

lemma same_shape_wf [shape_simps]: "same_shape f g \<Longrightarrow> wf_forest g = wf_forest f"
  by (simp add: wf_forest_def wf_entry_def shape_simps cong: option.case_cong)

lemma same_shape_parent_rel [shape_simps]: "same_shape f g \<Longrightarrow> parent_rel g = parent_rel f"
  by (simp add: parent_rel_def shape_simps)

lemma same_shape_ptrs [shape_simps]:
  "same_shape f g \<Longrightarrow> ancestry_ptrs g anc seen = ancestry_ptrs f anc seen"
proof (induction f anc seen rule: ancestry_ptrs.induct)
  case (1 f anc seen)
  show ?case
  proof (cases anc)
    case (Some a)
    then show ?thesis
      using 1 by (auto simp: ancestry_ptrs_Some shape_simps)
  qed simp
qed

lemma same_shape_AncestryNames [shape_simps]:
  "same_shape f g \<Longrightarrow> AncestryNames g anc = AncestryNames f anc"
  by (cases anc) (simp_all add: AncestryNames_ptrs shape_simps)

lemma same_shape_CycleNames [shape_simps]: "same_shape f g \<Longrightarrow> CycleNames g a = CycleNames f a"
  by (simp add: CycleNames_def shape_simps)

lemma same_shape_CanSetParent [shape_simps]: "same_shape f g \<Longrightarrow> CanSetParent g a p = CanSetParent f a p"
  by (cases p) (simp_all add: CanSetParent_def shape_simps split: prod.splits)

lemma same_shape_in_cycle [shape_simps]: "same_shape f g \<Longrightarrow> in_cycle g a = in_cycle f a"
  by (simp add: in_cycle_def shape_simps)

lemma same_shape_acyclic [shape_simps]: "same_shape f g \<Longrightarrow> acyclic_ns g a = acyclic_ns f a"
  by (simp add: acyclic_ns_def shape_simps)

lemma same_shape_ChildNames [shape_simps]: "same_shape f g \<Longrightarrow> ChildNames g a = ChildNames f a"
  by (simp add: ChildNames_eq shape_simps)

section \<open>Allocation\<close>

lemma Get_cases:
  obtains "nm = ''''" "Get nm f = (None, f)"
  | a where "nm \<noteq> ''''" "map_of (f_namespaces f) nm = Some a" "Get nm f = (Some a, f)"
  | "nm \<noteq> ''''" "map_of (f_namespaces f) nm = None"
    "Get nm f = (Some (length (f_heap f)), f\<lparr>f_heap := f_heap f @ [newNamespace nm],
        f_namespaces := AList.update nm (length (f_heap f)) (f_namespaces f)\<rparr>)"
  by (cases "nm = ''''"; cases "map_of (f_namespaces f) nm") (auto simp: Get_def Let_def)

definition alloc :: "string \<Rightarrow> Forest \<Rightarrow> Forest" where
  "alloc nm f = f\<lparr>f_heap := f_heap f @ [newNamespace nm],
     f_namespaces := AList.update nm (length (f_heap f)) (f_namespaces f)\<rparr>"

lemma alloc_frame [simp]:
  "f_namespaces (alloc nm f) = AList.update nm (length (f_heap f)) (f_namespaces f)"
  "length (f_heap (alloc nm f)) = Suc (length (f_heap f))"
  by (auto simp: alloc_def)

lemma deref_alloc: "deref (alloc nm f) a = (if a = length (f_heap f) then newNamespace nm else deref f a)"
  by (simp add: deref_def alloc_def nth_append)

lemma newNamespace_shape [simp]:
  "ns_name (newNamespace nm) = nm" "ns_parent (newNamespace nm) = None" "ns_children (newNamespace nm) = []"
  "ns_exists (newNamespace nm) = False" "ns_conditions (newNamespace nm) = []"
  "ns_limits (newNamespace nm) = []" "ns_used_local (newNamespace nm) = None"
  "ns_used_subtree (newNamespace nm) = []" "ns_sourceObjects (newNamespace nm) = []"
  "ns_allowCascadingDeletion (newNamespace nm) = False" "ns_IsSub (newNamespace nm) = False"
  "ns_Anchors (newNamespace nm) = []" "ns_Manager (newNamespace nm) = ''''"
  by (simp_all add: newNamespace_def)

lemma registered_alloc:
  assumes "wf_forest f" "map_of (f_namespaces f) nm = None"
  shows "registered (alloc nm f) a \<longleftrightarrow> a = length (f_heap f) \<or> registered f a"
proof (cases "a = length (f_heap f)")
  case False
  have "ns_name (deref f a) \<noteq> nm" if "registered f a"
    using that assms(2) by (auto simp: registered_def)
  then show ?thesis
    using False by (auto simp: registered_def deref_alloc map_of_update)
qed (simp add: registered_def deref_alloc map_of_update)

lemma wf_alloc:
  assumes "wf_forest f" "map_of (f_namespaces f) nm = None" "nm \<noteq> ''''"
  shows "wf_forest (alloc nm f)"
proof (rule wf_forestI)
  let ?l = "length (f_heap f)"
  have not_old: "a \<noteq> ?l" if "registered f a" for a
    using registered_valid [OF assms(1) that] by (simp add: valid_def)
  show "distinct_keys (f_namespaces (alloc nm f))"
    using wf_distinct [OF assms(1)] by (simp add: distinct_keys_update)
  show "n \<noteq> '''' \<and> valid (alloc nm f) a \<and> ns_name (deref (alloc nm f) a) = n \<and>
      distinct_keys (ns_children (deref (alloc nm f) a))"
    if "map_of (f_namespaces (alloc nm f)) n = Some a" for n a
  proof (cases "n = nm")
    case True
    then show ?thesis using that assms(3) by (simp add: map_of_update deref_alloc valid_def)
  next
    case False
    then have m: "map_of (f_namespaces f) n = Some a" using that by (simp add: map_of_update)
    then show ?thesis
      using wf_lookup [OF assms(1) m] not_old [OF wf_lookup_registered [OF assms(1) m]]
      by (auto simp: wf_entry_def deref_alloc valid_def)
  qed
  show "registered (alloc nm f) p \<and>
      map_of (ns_children (deref (alloc nm f) p)) (nm_of (alloc nm f) a) = Some a"
    if "registered (alloc nm f) a" "ns_parent (deref (alloc nm f) a) = Some p" for a p
    using that registered_parent [OF assms(1)] not_old
    by (auto simp: registered_alloc [OF assms(1,2)] deref_alloc split: if_splits)
  show "registered (alloc nm f) b \<and> nm_of (alloc nm f) b = c \<and> ns_parent (deref (alloc nm f) b) = Some a"
    if "registered (alloc nm f) a" "map_of (ns_children (deref (alloc nm f) a)) c = Some b" for a c b
    using that registered_child [OF assms(1)] not_old
    by (auto simp: registered_alloc [OF assms(1,2)] deref_alloc split: if_splits)
qed

lemma wf_Get [wf_intros]: "wf_forest f \<Longrightarrow> wf_forest (snd (Get nm f))"
  using wf_alloc [of f nm] by (cases nm f rule: Get_cases) (auto simp: alloc_def)

lemma Get_result:
  assumes "wf_forest f" "nm \<noteq> ''''"
  obtains a where "fst (Get nm f) = Some a" "registered (snd (Get nm f)) a" "nm_of (snd (Get nm f)) a = nm"
proof (cases nm f rule: Get_cases)
  case (2 a)
  then show ?thesis
    using that [of a] wf_lookup_registered [OF assms(1)] wf_name [OF assms(1)] by simp
next
  case 3
  then show ?thesis
    using that [of "length (f_heap f)"] registered_alloc [OF assms(1)] deref_alloc [of nm f]
    by (simp add: alloc_def [symmetric])
qed (use assms in simp)

text \<open>Old pointers read as before after an allocation, and stay registered.\<close>

lemma deref_Get: "valid f a \<Longrightarrow> deref (snd (Get nm f)) a = deref f a"
  by (cases nm f rule: Get_cases) (auto simp: deref_def valid_def nth_append)

lemma registered_Get: "wf_forest f \<Longrightarrow> registered f a \<Longrightarrow> registered (snd (Get nm f)) a"
  by (cases nm f rule: Get_cases) (use registered_alloc in \<open>auto simp: alloc_def\<close>)

end
