(* ===== verification/Quotas.thy ===== *)
theory Quotas
  imports Shape
begin

text \<open>
  Hierarchical quotas in the forest, \<^verbatim>\<open>internal/forest/namespacehrq.go\<close>, and
  the two operations of \<^verbatim>\<open>namespacestructure.go\<close> and \<^verbatim>\<open>namespace.go\<close>
  that move usages when they change the tree, \<open>SetParent\<close> and \<open>UnsetExists\<close>.

  The loops over \<^verbatim>\<open>AncestryNames()\<close> look each name up again with
  \<^verbatim>\<open>forest.Get\<close>, which may allocate and gives nil for the empty name, so they
  thread the forest and return \<open>None\<close> for the nil dereference. Errors are values: the
  message of a failed check is \<open>Some\<close> text. How a quantity is printed is code of the
  Kubernetes API machinery, so it is the argument \<open>qstr\<close>.
\<close>

section \<open>Operations\<close>

text \<open>\<^verbatim>\<open>forest.Get(nm)\<close> where the result is dereferenced.\<close>

definition GetP :: "string \<Rightarrow> Forest \<Rightarrow> (nsptr \<times> Forest) option" where
  "GetP nm f = (case Get nm f of (None, f') \<Rightarrow> None | (Some a, f') \<Rightarrow> Some (a, f'))"

definition checkLimits :: "(string, ResourceList) gomap \<Rightarrow> ResourceList \<Rightarrow> bool \<times> string \<times> ResourceName list" where
  "checkLimits l u =
     (case find (\<lambda>(nm, rl). \<not> fst (LessThanOrEqual u rl)) l of
        Some (nm, rl) \<Rightarrow> (False, nm, snd (LessThanOrEqual u rl))
      | None \<Rightarrow> (True, '''', []))"

definition HRQNames :: "Forest \<Rightarrow> nsptr \<Rightarrow> string list" where
  "HRQNames f n = fold (\<lambda>(nm, l) names. names @ [nm]) (ns_limits (deref f n)) []"

fun limits_loop :: "string list \<Rightarrow> ResourceList \<Rightarrow> Forest \<Rightarrow> (ResourceList \<times> Forest) option" where
  "limits_loop [] rs f = Some (rs, f)"
| "limits_loop (nsnm # nms) rs f = do {
     (ns, f) \<leftarrow> GetP nsnm f;
     limits_loop nms (fold (\<lambda>(nm, l) rs. Min rs l) (ns_limits (deref f ns)) rs) f }"

definition Limits :: "nsptr \<Rightarrow> Forest \<Rightarrow> (ResourceList \<times> Forest) option" where
  "Limits n f = limits_loop (AncestryNames f (Some n)) [] f"

definition exceeded_msg ::
  "(Quantity \<Rightarrow> string) \<Rightarrow> ResourceList \<Rightarrow> ResourceList \<Rightarrow> ResourceList \<Rightarrow> ResourceName list \<Rightarrow> string \<Rightarrow> string" where
  "exceeded_msg qstr increases subtree lim exceeded msg = fold (\<lambda>er msg.
     msg @ '', requested: '' @ er @ ''='' @ qstr (qty increases er) @
           '', used: '' @ er @ ''='' @ qstr (qty subtree er) @
           '', limited: '' @ er @ ''='' @ qstr (qty lim er)) exceeded msg"

fun can_use_loop ::
  "(Quantity \<Rightarrow> string) \<Rightarrow> ResourceList \<Rightarrow> string list \<Rightarrow> Forest \<Rightarrow> (string option \<times> Forest) option" where
  "can_use_loop qstr increases [] f = Some (None, f)"
| "can_use_loop qstr increases (nsnm # nms) f = do {
     (ns, f) \<leftarrow> GetP nsnm f;
     let n = deref f ns;
     let proposed = AddIfExists increases (ns_used_subtree n);
     (case checkLimits (ns_limits n) proposed of
        (True, nm, exceeded) \<Rightarrow> can_use_loop qstr increases nms f
      | (False, nm, exceeded) \<Rightarrow>
          Some (Some (exceeded_msg qstr increases (ns_used_subtree n)
              (case map_of (ns_limits n) nm of None \<Rightarrow> [] | Some l \<Rightarrow> l) exceeded
              (''exceeded hierarchical quota in namespace '' @ quote (ns_name n) @ '': '' @ quote nm)), f)) }"

definition canUseResources ::
  "(Quantity \<Rightarrow> string) \<Rightarrow> nsptr \<Rightarrow> ResourceList \<Rightarrow> Forest \<Rightarrow> (string option \<times> Forest) option" where
  "canUseResources qstr n u f =
     (let delta = Subtract u (nil_map (ns_used_local (deref f n)));
          increases = OmitLTEZero delta
      in can_use_loop qstr increases (AncestryNames f (Some n)) f)"

fun use_loop :: "ResourceList \<Rightarrow> string list \<Rightarrow> Forest \<Rightarrow> Forest option" where
  "use_loop delta [] f = Some f"
| "use_loop delta (nsnm # nms) f = do {
     (ns, f) \<leftarrow> GetP nsnm f;
     let newSubUsg = Add delta (ns_used_subtree (deref f ns));
     (lim, f) \<leftarrow> Limits ns f;
     use_loop delta nms (modify ns (\<lambda>n. n\<lparr>ns_used_subtree := FilterUnlimited newSubUsg lim\<rparr>) f) }"

definition UseResources :: "nsptr \<Rightarrow> ResourceList \<Rightarrow> Forest \<Rightarrow> Forest option" where
  "UseResources n newUsage f = do {
     let oldUsage = nil_map (ns_used_local (deref f n));
     (lim, f) \<leftarrow> Limits n f;
     let newUsage = FilterUnlimited newUsage lim;
     if Equals oldUsage newUsage then Some f
     else do {
       let f = modify n (\<lambda>n. n\<lparr>ns_used_local := Some newUsage\<rparr>) f;
       let delta = Subtract newUsage oldUsage;
       use_loop delta (AncestryNames f (Some n)) f } }"

definition TryUseResources ::
  "(Quantity \<Rightarrow> string) \<Rightarrow> nsptr \<Rightarrow> ResourceList \<Rightarrow> Forest \<Rightarrow> (string option \<times> Forest) option" where
  "TryUseResources qstr n rl f = do {
     (err, f) \<leftarrow> canUseResources qstr n rl f;
     (case err of
        Some e \<Rightarrow> Some (Some e, f)
      | None \<Rightarrow> do { f \<leftarrow> UseResources n rl f; Some (None, f) }) }"

definition GetLocalUsages :: "Forest \<Rightarrow> nsptr \<Rightarrow> ResourceList option" where
  "GetLocalUsages f n = ns_used_local (deref f n)"

definition GetSubtreeUsages :: "Forest \<Rightarrow> nsptr \<Rightarrow> ResourceList" where
  "GetSubtreeUsages f n = ns_used_subtree (deref f n)"

definition TestOnlySetSubtreeUsage :: "nsptr \<Rightarrow> ResourceList \<Rightarrow> Forest \<Rightarrow> Forest" where
  "TestOnlySetSubtreeUsage n rl f = modify n (\<lambda>n. n\<lparr>ns_used_subtree := rl\<rparr>) f"

definition RemoveLimits :: "nsptr \<Rightarrow> string \<Rightarrow> Forest \<Rightarrow> Forest" where
  "RemoveLimits n nm f = modify n (\<lambda>n. n\<lparr>ns_limits := AList.delete nm (ns_limits n)\<rparr>) f"

definition UpdateLimits :: "nsptr \<Rightarrow> string \<Rightarrow> ResourceList \<Rightarrow> Forest \<Rightarrow> bool \<times> Forest" where
  "UpdateLimits n nm l f =
     (if Equals (case map_of (ns_limits (deref f n)) nm of None \<Rightarrow> [] | Some rl \<Rightarrow> rl) l then (False, f)
      else (True, modify n (\<lambda>n. n\<lparr>ns_limits := AList.update nm l (ns_limits n)\<rparr>) f))"

definition rectify_usages :: "Forest \<Rightarrow> (string, ResourceList) gomap" where
  "rectify_usages f = fold (\<lambda>(nm, ns) usages.
     let local = nil_map (ns_used_local (deref f ns))
     in fold (\<lambda>anc usages. AList.update anc
           (case map_of usages anc of Some existing \<Rightarrow> Add existing local | None \<Rightarrow> local) usages)
         (AncestryNames f (Some ns)) usages)
     (f_namespaces f) []"

fun rectify_loop ::
  "(string, ResourceList) gomap \<Rightarrow> (string, nsptr) gomap \<Rightarrow> NamespacedName list \<Rightarrow> Forest \<Rightarrow>
   (NamespacedName list \<times> Forest) option" where
  "rectify_loop usages [] updated f = Some (updated, f)"
| "rectify_loop usages ((nm, ns) # nses) updated f = do {
     let have_usg = ns_used_subtree (deref f ns);
     (lim, f) \<leftarrow> Limits ns f;
     let actual = FilterUnlimited (case map_of usages nm of None \<Rightarrow> [] | Some u \<Rightarrow> u) lim;
     if Equals have_usg actual then rectify_loop usages nses updated f
     else rectify_loop usages nses
       (fold (\<lambda>(hrq, l) updated. updated @ [\<lparr>nnm_namespace = nm, nnm_name = hrq\<rparr>])
          (ns_limits (deref f ns)) updated)
       (modify ns (\<lambda>n. n\<lparr>ns_used_subtree := actual\<rparr>) f) }"

definition RectifySubtreeUsages :: "Forest \<Rightarrow> (NamespacedName list \<times> Forest) option" where
  "RectifySubtreeUsages f = rectify_loop (rectify_usages f) (f_namespaces f) [] f"

text \<open>\<open>SetParent\<close>: the usage leaves the old subtree before the links change and joins the new one after.\<close>

definition unlink_parent :: "nsptr \<Rightarrow> Forest \<Rightarrow> Forest" where
  "unlink_parent ns f = (case ns_parent (deref f ns) of
       None \<Rightarrow> f
     | Some q \<Rightarrow>
         (let f = modify q (\<lambda>n. n\<lparr>ns_children := AList.delete (ns_name (deref f ns)) (ns_children n)\<rparr>) f in
          if length (ns_children (deref f q)) = 0 then clean q f else f))"

definition link_parent :: "nsptr \<Rightarrow> nsptr option \<Rightarrow> Forest \<Rightarrow> Forest" where
  "link_parent ns p f =
     (let f = modify ns (\<lambda>n. n\<lparr>ns_parent := p\<rparr>) f in
      case p of
        None \<Rightarrow> f
      | Some q \<Rightarrow> modify q (\<lambda>n. n\<lparr>ns_children := AList.update (ns_name (deref f ns)) ns (ns_children n)\<rparr>) f)"

definition SetParent :: "nsptr \<Rightarrow> nsptr option \<Rightarrow> Forest \<Rightarrow> Forest option" where
  "SetParent ns p f = do {
     let nsUsage = ns_used_local (deref f ns);
     f \<leftarrow> (if nsUsage \<noteq> None then UseResources ns [] f else Some f);
     let f = unlink_parent ns f;
     let f = link_parent ns p f;
     (case nsUsage of None \<Rightarrow> Some f | Some u \<Rightarrow> UseResources ns u f) }"

definition UnsetExists :: "nsptr \<Rightarrow> Forest \<Rightarrow> (bool \<times> Forest) option" where
  "UnsetExists ns f = do {
     let changed = ns_exists (deref f ns);
     f \<leftarrow> SetParent ns None f;
     let f = modify ns (\<lambda>n. n\<lparr>ns_exists := False\<rparr>) f;
     Some (changed, clean ns f) }"

end
