(* ===== verification/Quota_Lemmas.thy ===== *)
theory Quota_Lemmas
  imports Quotas
begin

text \<open>
  What the quota operations compute on a well-formed forest. The loops over
  \<^verbatim>\<open>AncestryNames()\<close> become folds over the pointers of the ancestry, because
  looking up the name of a registered namespace finds it and allocates nothing.
\<close>

declare map_of_eq_Some_iff [simp del]

section \<open>Go maps in the quota fields\<close>

definition go_quotas :: "Forest \<Rightarrow> bool" where
  "go_quotas f = list_all (\<lambda>n. distinct_keys (ns_limits n) \<and>
     list_all (\<lambda>(nm, l). distinct_keys l) (ns_limits n) \<and>
     distinct_keys (nil_map (ns_used_local n)) \<and> distinct_keys (ns_used_subtree n)) (f_heap f)"

lemma go_quotas_deref:
  assumes "go_quotas f"
  shows "distinct_keys (ns_limits (deref f a))" "(nm, l) \<in> set (ns_limits (deref f a)) \<Longrightarrow> distinct_keys l"
    "distinct_keys (nil_map (ns_used_local (deref f a)))" "distinct_keys (ns_used_subtree (deref f a))"
  using assms by (auto simp: go_quotas_def deref_def list_all_iff split: if_splits)

lemma go_quotasI:
  assumes "\<And>a. valid f a \<Longrightarrow> distinct_keys (ns_limits (deref f a)) \<and>
     (\<forall>(nm, l) \<in> set (ns_limits (deref f a)). distinct_keys l) \<and>
     distinct_keys (nil_map (ns_used_local (deref f a))) \<and> distinct_keys (ns_used_subtree (deref f a))"
  shows "go_quotas f"
  unfolding go_quotas_def list_all_length [of _ "f_heap f"]
  using assms by (auto simp: list_all_iff valid_def deref_def)

section \<open>Writes of usages only\<close>

definition usage_only :: "Forest \<Rightarrow> Forest \<Rightarrow> bool" where
  "usage_only f g \<longleftrightarrow> f_namespaces g = f_namespaces f \<and> f_types g = f_types f \<and>
     length (f_heap g) = length (f_heap f) \<and>
     (\<forall>a. deref g a = (deref f a)\<lparr>ns_used_local := ns_used_local (deref g a),
                                  ns_used_subtree := ns_used_subtree (deref g a)\<rparr>)"

lemma usage_only_refl [simp]: "usage_only f f"
  by (simp add: usage_only_def)

lemma usage_only_trans: "usage_only f g \<Longrightarrow> usage_only g h \<Longrightarrow> usage_only f h"
proof -
  assume "usage_only f g" "usage_only g h"
  moreover from this have "deref h a = (deref f a)\<lparr>ns_used_local := ns_used_local (deref h a),
      ns_used_subtree := ns_used_subtree (deref h a)\<rparr>" for a
  proof -
    from \<open>usage_only f g\<close> obtain u s where g: "deref g a = (deref f a)\<lparr>ns_used_local := u, ns_used_subtree := s\<rparr>"
      unfolding usage_only_def by metis
    from \<open>usage_only g h\<close> obtain u' s' where "deref h a = (deref g a)\<lparr>ns_used_local := u', ns_used_subtree := s'\<rparr>"
      unfolding usage_only_def by metis
    then show ?thesis by (simp add: g)
  qed
  ultimately show ?thesis by (simp add: usage_only_def)
qed

lemma usage_only_field:
  assumes "usage_only f g" "\<And>n u s. fld (n\<lparr>ns_used_local := u, ns_used_subtree := s\<rparr>) = fld n"
  shows "fld (deref g a) = fld (deref f a)"
  using assms unfolding usage_only_def by metis

lemma usage_only_shape: "usage_only f g \<Longrightarrow> same_shape f g"
  using usage_only_field [of f g ns_name] usage_only_field [of f g ns_parent]
    usage_only_field [of f g ns_children]
  by (simp add: same_shape_def usage_only_def)

lemma usage_only_limits: "usage_only f g \<Longrightarrow> ns_limits (deref g a) = ns_limits (deref f a)"
  by (rule usage_only_field) auto

lemma usage_only_exists: "usage_only f g \<Longrightarrow> ns_exists (deref g a) = ns_exists (deref f a)"
  by (rule usage_only_field) auto

lemma usage_only_modify:
  assumes "\<And>n. \<exists>u s. g n = n\<lparr>ns_used_local := u, ns_used_subtree := s\<rparr>"
  shows "usage_only f (modify a g f)"
proof -
  have "g n = n\<lparr>ns_used_local := ns_used_local (g n), ns_used_subtree := ns_used_subtree (g n)\<rparr>" for n
  proof -
    from assms obtain u s where "g n = n\<lparr>ns_used_local := u, ns_used_subtree := s\<rparr>" by blast
    then show ?thesis by simp
  qed
  then show ?thesis
    by (auto simp: usage_only_def deref_def modify_def nth_list_update)
qed

section \<open>Limits\<close>

definition limits_of :: "Forest \<Rightarrow> nsptr \<Rightarrow> ResourceList" where
  "limits_of f n = fold (\<lambda>p rs. fold (\<lambda>(nm, l) rs. Min rs l) (ns_limits (deref f p)) rs)
     (rev (ancestry_ptrs f (Some n) {})) []"

lemma GetP_registered: "wf_forest f \<Longrightarrow> registered f a \<Longrightarrow> GetP (nm_of f a) f = Some (a, f)"
  by (simp add: GetP_def Get_registered)

lemma limits_loop_eq:
  "wf_forest f \<Longrightarrow> (\<And>p. p \<in> set ps \<Longrightarrow> registered f p) \<Longrightarrow>
   limits_loop (map (nm_of f) ps) rs f =
     Some (fold (\<lambda>p rs. fold (\<lambda>(nm, l) rs. Min rs l) (ns_limits (deref f p)) rs) ps rs, f)"
  by (induction ps arbitrary: rs) (simp_all add: GetP_registered)

lemma registered_ancestry:
  "wf_forest f \<Longrightarrow> registered f a \<Longrightarrow> p \<in> set (ancestry_ptrs f (Some a) {}) \<Longrightarrow> registered f p"
  using ancestry_ptrs_rtrancl registered_rtrancl by blast

lemma Limits_eq: "wf_forest f \<Longrightarrow> registered f n \<Longrightarrow> Limits n f = Some (limits_of f n, f)"
  unfolding Limits_def limits_of_def AncestryNames_ptrs rev_map
  by (rule limits_loop_eq) (auto dest: registered_ancestry)

lemma usage_only_limits_of: "usage_only f g \<Longrightarrow> limits_of g n = limits_of f n"
  by (simp add: limits_of_def usage_only_limits same_shape_ptrs [OF usage_only_shape])

text \<open>The values that limit a resource in a list of limit lists, and the least of them.\<close>

lemma fold_Min_distinct:
  "distinct_keys rs \<Longrightarrow> distinct_keys (fold (\<lambda>l rs. Min rs l) ls rs)"
  by (induction ls arbitrary: rs) (auto simp: distinct_Min)

lemma fold_Min_lookup:
  assumes "distinct_keys rs" "\<And>l. l \<in> set ls \<Longrightarrow> distinct_keys l"
  shows "map_of (fold (\<lambda>l rs. Min rs l) ls rs) k = Some v \<longleftrightarrow>
    (v \<in> {v. \<exists>l \<in> set (rs # ls). map_of l k = Some v} \<and>
     (\<forall>l \<in> set (rs # ls). \<forall>w. map_of l k = Some w \<longrightarrow> v \<le> w))"
  using assms
proof (induction ls arbitrary: rs)
  case Nil
  then show ?case by auto
next
  case (Cons l ls)
  have min: "map_of (Min rs l) k = (case map_of rs k of None \<Rightarrow> map_of l k
     | Some x \<Rightarrow> Some (case map_of l k of None \<Rightarrow> x | Some y \<Rightarrow> min x y))"
    using Cons.prems by (simp add: Min_lookup)
  have "map_of (fold (\<lambda>l rs. Min rs l) (l # ls) rs) k = Some v \<longleftrightarrow>
    (\<exists>l' \<in> set (Min rs l # ls). map_of l' k = Some v) \<and>
     (\<forall>l' \<in> set (Min rs l # ls). \<forall>w. map_of l' k = Some w \<longrightarrow> v \<le> w)"
    using Cons.IH [OF distinct_Min] Cons.prems(2) by simp
  also have "\<dots> \<longleftrightarrow> (\<exists>l' \<in> set (rs # l # ls). map_of l' k = Some v) \<and>
     (\<forall>l' \<in> set (rs # l # ls). \<forall>w. map_of l' k = Some w \<longrightarrow> v \<le> w)"
    unfolding list.set ball_simps bex_simps min
    by (cases "map_of rs k"; cases "map_of l k") (auto simp: min_def)
  finally show ?case by simp
qed

lemma fold_Min_None:
  assumes "distinct_keys rs" "\<And>l. l \<in> set ls \<Longrightarrow> distinct_keys l"
  shows "map_of (fold (\<lambda>l rs. Min rs l) ls rs) k = None \<longleftrightarrow> (\<forall>l \<in> set (rs # ls). map_of l k = None)"
  using assms
  by (induction ls arbitrary: rs) (auto simp: distinct_Min Min_lookup split: option.splits)

definition limit_lists :: "Forest \<Rightarrow> nsptr \<Rightarrow> ResourceList list" where
  "limit_lists f n = concat (map (\<lambda>p. map snd (ns_limits (deref f p))) (rev (ancestry_ptrs f (Some n) {})))"

lemma fold_snd: "fold (\<lambda>(nm, l) rs. Min rs l) xs rs = fold (\<lambda>l rs. Min rs l) (map snd xs) rs"
  by (induction xs arbitrary: rs) auto

lemma limits_of_fold: "limits_of f n = fold (\<lambda>l rs. Min rs l) (limit_lists f n) []"
proof -
  have "fold (\<lambda>p rs. fold (\<lambda>(nm, l) rs. Min rs l) (ns_limits (deref f p)) rs) ps rs =
      fold (\<lambda>l rs. Min rs l) (concat (map (\<lambda>p. map snd (ns_limits (deref f p))) ps)) rs" for ps rs
    by (induction ps arbitrary: rs) (auto simp: fold_snd)
  then show ?thesis by (simp add: limits_of_def limit_lists_def)
qed

lemma limit_lists_distinct: "go_quotas f \<Longrightarrow> l \<in> set (limit_lists f n) \<Longrightarrow> distinct_keys l"
  by (auto simp: limit_lists_def dest: go_quotas_deref(2))

lemma distinct_limits_of: "distinct_keys (limits_of f n)"
  unfolding limits_of_fold by (rule fold_Min_distinct) simp

text \<open>The limits on a resource that the HRQs of one namespace set.\<close>

definition limit_at :: "Forest \<Rightarrow> nsptr \<Rightarrow> ResourceName \<Rightarrow> Quantity \<Rightarrow> bool" where
  "limit_at f p k v \<longleftrightarrow> (\<exists>nm l. (nm, l) \<in> set (ns_limits (deref f p)) \<and> map_of l k = Some v)"

lemma limit_lists_mem:
  assumes "wf_forest f" "registered f n"
  shows "(\<exists>l \<in> set (limit_lists f n). map_of l k = Some v) \<longleftrightarrow>
    (\<exists>p. (n, p) \<in> (parent_rel f)\<^sup>* \<and> limit_at f p k v)"
proof -
  have "(\<exists>l \<in> set (limit_lists f n). map_of l k = Some v) \<longleftrightarrow>
      (\<exists>p \<in> set (ancestry_ptrs f (Some n) {}). limit_at f p k v)"
    by (force simp: limit_lists_def limit_at_def)
  then show ?thesis
    using set_ancestry_ptrs [OF assms] by auto
qed

lemma limits_of_Some:
  assumes "wf_forest f" "go_quotas f" "registered f n"
  shows "map_of (limits_of f n) k = Some v \<longleftrightarrow>
    (\<exists>p. (n, p) \<in> (parent_rel f)\<^sup>* \<and> limit_at f p k v) \<and>
    (\<forall>p w. (n, p) \<in> (parent_rel f)\<^sup>* \<longrightarrow> limit_at f p k w \<longrightarrow> v \<le> w)"
proof -
  have "map_of (limits_of f n) k = Some v \<longleftrightarrow>
      (\<exists>l \<in> set (limit_lists f n). map_of l k = Some v) \<and>
      (\<forall>w. (\<exists>l \<in> set (limit_lists f n). map_of l k = Some w) \<longrightarrow> v \<le> w)"
    using fold_Min_lookup [of "[]" "limit_lists f n" k v] limit_lists_distinct [OF assms(2)]
    by (auto simp: limits_of_fold)
  then show ?thesis
    unfolding limit_lists_mem [OF assms(1,3)] by blast
qed

lemma limits_of_None:
  assumes "wf_forest f" "go_quotas f" "registered f n"
  shows "map_of (limits_of f n) k = None \<longleftrightarrow>
    (\<forall>p v. (n, p) \<in> (parent_rel f)\<^sup>* \<longrightarrow> \<not> limit_at f p k v)"
proof -
  have "map_of (limits_of f n) k = None \<longleftrightarrow> (\<forall>v. \<not> (\<exists>l \<in> set (limit_lists f n). map_of l k = Some v))"
    using fold_Min_None [of "[]" "limit_lists f n" k] limit_lists_distinct [OF assms(2)]
    by (auto simp: limits_of_fold)
  then show ?thesis
    unfolding limit_lists_mem [OF assms(1,3)] by blast
qed

lemma limits_of_down:
  assumes "wf_forest f" "go_quotas f" "registered f n" "(n, a) \<in> (parent_rel f)\<^sup>*"
    and "map_of (limits_of f a) k \<noteq> None"
  shows "map_of (limits_of f n) k \<noteq> None"
  using assms registered_rtrancl [OF assms(4,1,3)]
  by (auto simp: limits_of_None dest: rtrancl_trans)

section \<open>UseResources\<close>

lemma use_loop_eq:
  assumes "wf_forest f" "\<And>p. p \<in> set ps \<Longrightarrow> registered f p" "distinct ps"
  shows "\<exists>g. use_loop delta (map (nm_of f) ps) f = Some g \<and> usage_only f g \<and>
    (\<forall>a. ns_used_local (deref g a) = ns_used_local (deref f a)) \<and>
    (\<forall>a. ns_used_subtree (deref g a) =
       (if a \<in> set ps then FilterUnlimited (Add delta (ns_used_subtree (deref f a))) (limits_of f a)
        else ns_used_subtree (deref f a)))"
  using assms
proof (induction ps arbitrary: f)
  case Nil
  then show ?case by simp
next
  case (Cons p ps)
  let ?sub = "FilterUnlimited (Add delta (ns_used_subtree (deref f p))) (limits_of f p)"
  let ?f = "modify p (\<lambda>n. n\<lparr>ns_used_subtree := ?sub\<rparr>) f"
  have reg: "registered f p" using Cons.prems by simp
  have uo: "usage_only f ?f"
    by (rule usage_only_modify) (metis Namespace.surjective Namespace.update_convs(15,16))
  note sh = usage_only_shape [OF uo]
  have names: "map (nm_of ?f) ps = map (nm_of f) ps"
    using sh by (simp add: shape_simps)
  have step: "use_loop delta (map (nm_of f) (p # ps)) f = use_loop delta (map (nm_of ?f) ps) ?f"
    unfolding names using Cons.prems(1) reg by (simp add: GetP_registered Limits_eq)
  have "wf_forest ?f" "\<And>q. q \<in> set ps \<Longrightarrow> registered ?f q"
    using Cons.prems sh by (auto simp: shape_simps)
  from Cons.IH [OF this] Cons.prems(3)
  obtain g where g: "use_loop delta (map (nm_of ?f) ps) ?f = Some g" "usage_only ?f g"
    "\<And>a. ns_used_local (deref g a) = ns_used_local (deref ?f a)"
    "\<And>a. ns_used_subtree (deref g a) =
       (if a \<in> set ps then FilterUnlimited (Add delta (ns_used_subtree (deref ?f a))) (limits_of ?f a)
        else ns_used_subtree (deref ?f a))"
    by auto
  have loc: "ns_used_local (deref ?f a) = ns_used_local (deref f a)" for a
    by (rule modify_field) simp
  have "ns_used_subtree (deref ?f a) = (if a = p then ?sub else ns_used_subtree (deref f a))" for a
    using registered_valid [OF Cons.prems(1) reg] by (simp add: deref_modify)
  then show ?case
    using g step usage_only_trans [OF uo g(2)] loc usage_only_limits_of [OF uo] Cons.prems(3)
    by auto
qed

lemma acyclic_distinct_ptrs:
  assumes "wf_forest f" "registered f a" "acyclic_ns f a"
  shows "distinct (ancestry_ptrs f (Some a) {})"
  using acyclic_ancestry(1) [OF assms(1,2)] assms(3)
  by (auto simp: acyclic_ns_def AncestryNames_ptrs distinct_map)

text \<open>
  The whole effect of \<open>UseResources\<close>: the local usage is the listed part of the new one, and the
  change is added to the subtree usage of every ancestor.
\<close>

definition used_delta :: "Forest \<Rightarrow> nsptr \<Rightarrow> ResourceList \<Rightarrow> Forest \<Rightarrow> bool" where
  "used_delta f n u g \<longleftrightarrow>
     (let new = FilterUnlimited u (limits_of f n); old = nil_map (ns_used_local (deref f n)) in
      if Equals old new then g = f
      else (\<forall>a. ns_used_local (deref g a) = (if a = n then Some new else ns_used_local (deref f a))) \<and>
           (\<forall>a. ns_used_subtree (deref g a) =
              (if (n, a) \<in> (parent_rel f)\<^sup>*
               then FilterUnlimited (Add (Subtract new old) (ns_used_subtree (deref f a))) (limits_of f a)
               else ns_used_subtree (deref f a))))"

lemma UseResources_effect:
  assumes "wf_forest f" "registered f n" "acyclic_ns f n"
  shows "\<exists>g. UseResources n u f = Some g \<and> usage_only f g \<and> used_delta f n u g"
proof (cases "Equals (nil_map (ns_used_local (deref f n))) (FilterUnlimited u (limits_of f n))")
  case True
  then show ?thesis
    using assms by (auto simp: UseResources_def Limits_eq used_delta_def)
next
  case False
  let ?new = "FilterUnlimited u (limits_of f n)"
  let ?old = "nil_map (ns_used_local (deref f n))"
  let ?f = "modify n (\<lambda>n. n\<lparr>ns_used_local := Some ?new\<rparr>) f"
  have uo: "usage_only f ?f"
    by (rule usage_only_modify) (metis Namespace.surjective Namespace.update_convs(15,16))
  note sh = usage_only_shape [OF uo]
  let ?ps = "rev (ancestry_ptrs f (Some n) {})"
  have names: "AncestryNames ?f (Some n) = map (nm_of ?f) ?ps"
    using sh by (simp add: shape_simps AncestryNames_ptrs rev_map)
  have "UseResources n u f = use_loop (Subtract ?new ?old) (map (nm_of ?f) ?ps) ?f"
    unfolding names [symmetric] using False assms by (simp add: UseResources_def Limits_eq Let_def)
  moreover have "wf_forest ?f" "\<And>q. q \<in> set ?ps \<Longrightarrow> registered ?f q" "distinct ?ps"
    using assms sh registered_ancestry [OF assms(1,2)] acyclic_distinct_ptrs [OF assms]
    by (auto simp: shape_simps)
  note use_loop_eq [OF this, of "Subtract ?new ?old"]
  moreover have "ns_used_subtree (deref ?f a) = ns_used_subtree (deref f a)" for a
    by (rule modify_field) simp
  moreover have "ns_used_local (deref ?f a) = (if a = n then Some ?new else ns_used_local (deref f a))" for a
    using registered_valid [OF assms(1,2)] by (simp add: deref_modify)
  ultimately show ?thesis
    using usage_only_trans [OF uo] usage_only_limits_of [OF uo] False set_ancestry_ptrs [OF assms(1,2)]
    by (auto simp: used_delta_def Let_def)
qed

end
