(* ===== verification/Quota_Usage.thy ===== *)
theory Quota_Usage
  imports Quota_Lemmas
begin

text \<open>
  The contract of the usages in the forest: the subtree usage of a namespace is the sum of the
  local usages below it, for every resource that is limited there, and holds nothing else. \<open>UseResources\<close> keeps it
  incrementally; \<open>RectifySubtreeUsages\<close> establishes it from any state.
\<close>

section \<open>The contract\<close>

definition local_qty :: "Forest \<Rightarrow> ResourceName \<Rightarrow> nsptr \<Rightarrow> int" where
  "local_qty f k b = qty (nil_map (ns_used_local (deref f b))) k"

definition members :: "Forest \<Rightarrow> nsptr \<Rightarrow> nsptr set" where
  "members f a = {b. registered f b \<and> (b, a) \<in> (parent_rel f)\<^sup>*}"

definition usage_consistent :: "Forest \<Rightarrow> bool" where
  "usage_consistent f \<longleftrightarrow> (\<forall>a k. registered f a \<longrightarrow>
     qty (ns_used_subtree (deref f a)) k =
       (if map_of (limits_of f a) k = None then 0 else \<Sum>b \<in> members f a. local_qty f k b))"

definition acyclic_forest :: "Forest \<Rightarrow> bool" where
  "acyclic_forest f \<longleftrightarrow> (\<forall>a. registered f a \<longrightarrow> \<not> in_cycle f a)"

lemma acyclic_forest_ns: "wf_forest f \<Longrightarrow> acyclic_forest f \<Longrightarrow> registered f a \<Longrightarrow> acyclic_ns f a"
  using registered_rtrancl by (auto simp: acyclic_forest_def acyclic_ns_def)

lemma registered_set:
  assumes "wf_forest f"
  shows "{b. registered f b} = snd ` set (f_namespaces f)"
proof (intro equalityI subsetI)
  fix b assume "b \<in> snd ` set (f_namespaces f)"
  then obtain nm where "(nm, b) \<in> set (f_namespaces f)" by force
  then have "map_of (f_namespaces f) nm = Some b"
    using wf_distinct [OF assms] by (simp add: map_of_eq_Some_iff)
  then show "b \<in> {b. registered f b}"
    using wf_lookup_registered assms by blast
qed (force simp: registered_def dest: map_of_SomeD)

lemma finite_members: "wf_forest f \<Longrightarrow> finite (members f a)"
  using registered_set [of f] by (auto simp: members_def)

lemma local_qty_same: "ns_used_local (deref g b) = ns_used_local (deref f b) \<Longrightarrow> local_qty g k b = local_qty f k b"
  by (simp add: local_qty_def)

lemma usage_only_members: "usage_only f g \<Longrightarrow> members g a = members f a"
  by (simp add: members_def shape_simps [OF usage_only_shape])

section \<open>UseResources keeps the contract\<close>

lemma used_delta_consistent:
  assumes "wf_forest f" "go_quotas f" "registered f n" "distinct_keys u"
    and "usage_consistent f" "usage_only f g" "used_delta f n u g"
  shows "usage_consistent g"
proof -
  let ?new = "FilterUnlimited u (limits_of f n)" and ?old = "nil_map (ns_used_local (deref f n))"
  show ?thesis
  proof (cases "Equals ?old ?new")
    case True
    then show ?thesis using assms by (simp add: used_delta_def)
  next
    case False
    then have loc: "\<And>a. ns_used_local (deref g a) = (if a = n then Some ?new else ns_used_local (deref f a))"
      and sub: "\<And>a. ns_used_subtree (deref g a) =
        (if (n, a) \<in> (parent_rel f)\<^sup>*
         then FilterUnlimited (Add (Subtract ?new ?old) (ns_used_subtree (deref f a))) (limits_of f a)
         else ns_used_subtree (deref f a))"
      using assms(7) by (simp_all add: used_delta_def Let_def)
    have unl: "qty (ns_used_subtree (deref g a)) k = 0"
      if "registered f a" "map_of (limits_of f a) k = None" for a k
      using that assms(5) ru.amount_limit [OF distinct_Add]
      by (auto simp: sub usage_consistent_def)
    have "qty (ns_used_subtree (deref g a)) k = (\<Sum>b \<in> members f a. local_qty g k b)"
      if a: "registered f a" and k: "map_of (limits_of f a) k \<noteq> None" for a k
    proof (cases "(n, a) \<in> (parent_rel f)\<^sup>*")
      case True
      then have n: "n \<in> members f a" using assms(3) by (simp add: members_def)
      have "qty (ns_used_subtree (deref g a)) k =
          qty (ns_used_subtree (deref f a)) k + (qty ?new k - qty ?old k)"
        using True k go_quotas_deref [OF assms(2)]
        by (simp add: sub ru.amount_update distinct_FilterUnlimited)
      also have "\<dots> = (\<Sum>b \<in> members f a. local_qty f k b) + (qty ?new k - qty ?old k)"
        using assms(5) a k unfolding usage_consistent_def by auto
      also have "\<dots> = (\<Sum>b \<in> members f a. local_qty g k b)"
        using sum.remove [OF finite_members [OF assms(1)] n, of "local_qty f k"]
          sum.remove [OF finite_members [OF assms(1)] n, of "local_qty g k"]
        by (simp add: local_qty_def loc)
      finally show ?thesis .
    next
      case False
      then have "n \<notin> members f a" by (simp add: members_def)
      then have "(\<Sum>b \<in> members f a. local_qty g k b) = (\<Sum>b \<in> members f a. local_qty f k b)"
        by (intro sum.cong) (auto simp: local_qty_def loc)
      then show ?thesis
        using False assms(5) a k unfolding sub usage_consistent_def by auto
    qed
    then show ?thesis
      using assms(6) unl by (simp add: usage_consistent_def shape_simps [OF usage_only_shape]
          usage_only_limits_of usage_only_members)
  qed
qed

lemma go_quotas_usage_only:
  assumes "go_quotas f" "usage_only f g"
    and "\<And>a. distinct_keys (nil_map (ns_used_local (deref g a)))" "\<And>a. distinct_keys (ns_used_subtree (deref g a))"
  shows "go_quotas g"
  using assms(3,4) go_quotas_deref(1,2) [OF assms(1)]
  by (intro go_quotasI) (auto simp: usage_only_limits [OF assms(2)])

lemma used_delta_go_quotas:
  assumes "go_quotas f" "usage_only f g" "used_delta f n u g"
  shows "go_quotas g"
proof (rule go_quotas_usage_only [OF assms(1,2)])
  note d = go_quotas_deref(3,4) [OF assms(1)]
  show "distinct_keys (nil_map (ns_used_local (deref g a)))" for a
    using assms(3) d by (auto simp: used_delta_def Let_def distinct_FilterUnlimited split: if_splits)
  show "distinct_keys (ns_used_subtree (deref g a))" for a
    using assms(3) d by (auto simp: used_delta_def Let_def distinct_FilterUnlimited split: if_splits)
qed

section \<open>RectifySubtreeUsages establishes the contract\<close>

definition usage_at :: "(string, ResourceList) gomap \<Rightarrow> string \<Rightarrow> ResourceList" where
  "usage_at usages nm = (case map_of usages nm of None \<Rightarrow> [] | Some u \<Rightarrow> u)"

definition add_usage :: "ResourceList \<Rightarrow> string \<Rightarrow> (string, ResourceList) gomap \<Rightarrow> (string, ResourceList) gomap" where
  "add_usage local anc usages = AList.update anc
     (case map_of usages anc of Some existing \<Rightarrow> Add existing local | None \<Rightarrow> local) usages"

lemma rectify_usages_fold:
  "rectify_usages f = fold (\<lambda>(nm, ns). fold (add_usage (nil_map (ns_used_local (deref f ns))))
     (AncestryNames f (Some ns))) (f_namespaces f) []"
  by (simp add: rectify_usages_def add_usage_def [abs_def] Let_def)

definition go_usages :: "(string, ResourceList) gomap \<Rightarrow> bool" where
  "go_usages usages \<longleftrightarrow> (\<forall>nm u. map_of usages nm = Some u \<longrightarrow> distinct_keys u)"

lemma distinct_usage_at: "go_usages usages \<Longrightarrow> distinct_keys (usage_at usages nm)"
  by (auto simp: go_usages_def usage_at_def split: option.splits)

lemma go_add_usage: "go_usages usages \<Longrightarrow> distinct_keys local \<Longrightarrow> go_usages (add_usage local anc usages)"
  by (auto simp: go_usages_def add_usage_def map_of_update distinct_Add split: if_splits option.splits)

lemma usage_at_add:
  assumes "go_usages usages" "distinct_keys local"
  shows "qty (usage_at (add_usage local anc usages) nm) k =
    qty (usage_at usages nm) k + (if nm = anc then qty local k else 0)"
  using assms by (auto simp: usage_at_def add_usage_def map_of_update go_usages_def ru.amount_add
      qty_def [of "[]"] split: option.splits)

lemma usage_at_adds:
  assumes "go_usages usages" "distinct_keys local" "distinct ancs"
  shows "go_usages (fold (add_usage local) ancs usages) \<and>
    qty (usage_at (fold (add_usage local) ancs usages) nm) k =
    qty (usage_at usages nm) k + (if nm \<in> set ancs then qty local k else 0)"
  using assms
proof (induction ancs arbitrary: usages)
  case (Cons anc ancs)
  then show ?case
    using go_add_usage [OF Cons.prems(1,2), of anc] usage_at_add [OF Cons.prems(1,2), of anc nm k] by auto
qed simp

lemma usage_at_all:
  assumes "wf_forest f" "go_quotas f" "acyclic_forest f" "registered f a"
    and "go_usages usages" "\<And>e. e \<in> set nses \<Longrightarrow> registered f (snd e)"
  shows "go_usages (fold (\<lambda>(nm, ns). fold (add_usage (nil_map (ns_used_local (deref f ns))))
        (AncestryNames f (Some ns))) nses usages) \<and>
    qty (usage_at (fold (\<lambda>(nm, ns). fold (add_usage (nil_map (ns_used_local (deref f ns))))
        (AncestryNames f (Some ns))) nses usages) (nm_of f a)) k =
    qty (usage_at usages (nm_of f a)) k +
      sum_list (map (\<lambda>b. if (b, a) \<in> (parent_rel f)\<^sup>* then local_qty f k b else 0) (map snd nses))"
  using assms(5,6)
proof (induction nses arbitrary: usages)
  case (Cons e nses)
  obtain nm b where e: "e = (nm, b)" by force
  then have reg: "registered f b" using Cons.prems(2) by fastforce
  have d: "distinct (AncestryNames f (Some b))"
    using acyclic_ancestry(1) [OF assms(1) reg] acyclic_forest_ns [OF assms(1,3) reg]
    by (simp add: acyclic_ns_def)
  note step = usage_at_adds [OF Cons.prems(1) go_quotas_deref(3) [OF assms(2)] d, of b "nm_of f a" k]
  note anc = name_in_AncestryNames [OF assms(1) reg assms(4)]
  show ?case
    using Cons.IH [OF conjunct1 [OF step]] Cons.prems(2) conjunct2 [OF step] anc
    by (simp add: e local_qty_def)
qed simp

lemma distinct_ptrs:
  assumes "wf_forest f"
  shows "distinct (map snd (f_namespaces f))"
proof -
  have "inj_on snd (set (f_namespaces f))"
  proof (rule inj_onI)
    fix x y assume xy: "x \<in> set (f_namespaces f)" "y \<in> set (f_namespaces f)" "snd x = snd y"
    have "map_of (f_namespaces f) (fst x) = Some (snd x)" "map_of (f_namespaces f) (fst y) = Some (snd y)"
      using wf_distinct [OF assms] xy(1,2) by (simp_all add: map_of_eq_Some_iff)
    then show "x = y"
      using wf_name [OF assms] xy(3) by (metis prod.collapse)
  qed
  then show ?thesis
    using wf_distinct [OF assms] by (simp add: distinct_map)
qed

lemma rectify_usages_sum:
  assumes "wf_forest f" "go_quotas f" "acyclic_forest f" "registered f a"
  shows "distinct_keys (usage_at (rectify_usages f) (nm_of f a))"
    "qty (usage_at (rectify_usages f) (nm_of f a)) k = (\<Sum>b \<in> members f a. local_qty f k b)"
proof -
  have reg: "registered f (snd e)" if "e \<in> set (f_namespaces f)" for e
    using registered_set [OF assms(1)] that by blast
  note all = usage_at_all [OF assms, of "[]" "f_namespaces f" k, folded rectify_usages_fold]
  have empty: "go_usages []" "qty (usage_at [] (nm_of f a)) k = 0"
    by (simp_all add: go_usages_def usage_at_def qty_def)
  show "distinct_keys (usage_at (rectify_usages f) (nm_of f a))"
    using all [OF empty(1) reg] distinct_usage_at by blast
  note dist = distinct_ptrs [OF assms(1)]
  have "sum_list (map (\<lambda>b. if (b, a) \<in> (parent_rel f)\<^sup>* then local_qty f k b else 0) (map snd (f_namespaces f))) =
      (\<Sum>b \<in> {b. registered f b}. if (b, a) \<in> (parent_rel f)\<^sup>* then local_qty f k b else 0)"
    using sum_list_distinct_conv_sum_set [OF dist] registered_set [OF assms(1)] by simp
  also have "\<dots> = (\<Sum>b \<in> members f a. local_qty f k b)"
    using registered_set [OF assms(1)] by (intro sum.mono_neutral_cong_right) (auto simp: members_def)
  finally show "qty (usage_at (rectify_usages f) (nm_of f a)) k = (\<Sum>b \<in> members f a. local_qty f k b)"
    using all [OF empty(1) reg] empty(2) by simp
qed

text \<open>The loop that compares and repairs.\<close>

abbreviation actual_usage :: "(string, ResourceList) gomap \<Rightarrow> Forest \<Rightarrow> string \<Rightarrow> nsptr \<Rightarrow> ResourceList" where
  "actual_usage usages f nm ns \<equiv> FilterUnlimited (usage_at usages nm) (limits_of f ns)"

definition wrong :: "(string, ResourceList) gomap \<Rightarrow> Forest \<Rightarrow> string \<times> nsptr \<Rightarrow> bool" where
  "wrong usages f = (\<lambda>(nm, ns). \<not> Equals (ns_used_subtree (deref f ns)) (actual_usage usages f nm ns))"

lemma rectify_loop_eq:
  assumes "wf_forest f" "\<And>e. e \<in> set nses \<Longrightarrow> registered f (snd e)" "distinct (map snd nses)"
  shows "\<exists>g. rectify_loop usages nses updated f = Some (updated @
      concat (map (\<lambda>(nm, ns). map (\<lambda>(hrq, l). \<lparr>nnm_namespace = nm, nnm_name = hrq\<rparr>) (ns_limits (deref f ns)))
        (filter (wrong usages f) nses)), g) \<and> usage_only f g \<and>
    (\<forall>a. ns_used_local (deref g a) = ns_used_local (deref f a)) \<and>
    (\<forall>a. a \<notin> snd ` set (filter (wrong usages f) nses) \<longrightarrow> ns_used_subtree (deref g a) = ns_used_subtree (deref f a)) \<and>
    (\<forall>nm a. (nm, a) \<in> set (filter (wrong usages f) nses) \<longrightarrow>
       ns_used_subtree (deref g a) = actual_usage usages f nm a)"
  using assms
proof (induction nses arbitrary: f updated)
  case Nil
  then show ?case by simp
next
  case (Cons e nses)
  obtain nm ns where e: "e = (nm, ns)" by force
  have reg: "registered f ns" using Cons.prems(2) e by fastforce
  have ns: "ns \<notin> snd ` set nses" using Cons.prems(3) e by simp
  have lim: "Limits ns f = Some (limits_of f ns, f)" using Limits_eq Cons.prems(1) reg by blast
  show ?case
  proof (cases "wrong usages f e")
    case False
    then show ?thesis
      using Cons.IH [OF Cons.prems(1), of updated] Cons.prems(2,3) lim
      by (simp add: e wrong_def usage_at_def [symmetric])
  next
    case True
    let ?f = "modify ns (\<lambda>n. n\<lparr>ns_used_subtree := actual_usage usages f nm ns\<rparr>) f"
    let ?u = "updated @ map (\<lambda>(hrq, l). \<lparr>nnm_namespace = nm, nnm_name = hrq\<rparr>) (ns_limits (deref f ns))"
    have uo: "usage_only f ?f"
      by (rule usage_only_modify) (metis Namespace.surjective Namespace.update_convs(15,16))
    note sh = usage_only_shape [OF uo]
    have f_pair: "fold (\<lambda>(hrq, l) upd. upd @ [\<lparr>nnm_namespace = nm, nnm_name = hrq\<rparr>]) xs upd =
        upd @ map (\<lambda>(hrq, l). \<lparr>nnm_namespace = nm, nnm_name = hrq\<rparr>) xs"
      for xs :: "(string \<times> ResourceList) list" and upd
      by (induction xs arbitrary: upd) auto
    have step: "rectify_loop usages (e # nses) updated f = rectify_loop usages nses ?u ?f"
      using True lim by (simp add: e wrong_def usage_at_def [symmetric] f_pair)
    have others: "deref ?f a = deref f a" if "a \<noteq> ns" for a
      using that by (simp add: deref_modify_other)
    have filt: "filter (wrong usages ?f) nses = filter (wrong usages f) nses"
      using ns others by (intro filter_cong) (force simp: wrong_def usage_only_limits_of [OF uo])+
    have lims: "ns_limits (deref ?f a) = ns_limits (deref f a)" for a
      by (rule usage_only_limits [OF uo])
    have loc: "ns_used_local (deref ?f a) = ns_used_local (deref f a)" for a
      by (rule modify_field) simp
    have sub: "ns_used_subtree (deref ?f ns) = actual_usage usages f nm ns"
      using registered_valid [OF Cons.prems(1) reg] by (simp add: deref_modify)
    have "wf_forest ?f" "\<And>e. e \<in> set nses \<Longrightarrow> registered ?f (snd e)" "distinct (map snd nses)"
      using Cons.prems sh by (auto simp: shape_simps)
    from Cons.IH [OF this, of ?u, unfolded filt lims usage_only_limits_of [OF uo] loc]
    obtain g where g: "rectify_loop usages nses ?u ?f = Some (?u @
        concat (map (\<lambda>(nm, ns). map (\<lambda>(hrq, l). \<lparr>nnm_namespace = nm, nnm_name = hrq\<rparr>) (ns_limits (deref f ns)))
        (filter (wrong usages f) nses)), g)" "usage_only ?f g"
      "\<And>a. ns_used_local (deref g a) = ns_used_local (deref f a)"
      "\<And>a. a \<notin> snd ` set (filter (wrong usages f) nses) \<Longrightarrow> ns_used_subtree (deref g a) = ns_used_subtree (deref ?f a)"
      "\<And>nm a. (nm, a) \<in> set (filter (wrong usages f) nses) \<Longrightarrow>
         ns_used_subtree (deref g a) = actual_usage usages f nm a"
      by blast
    have "ns_used_subtree (deref g ns) = actual_usage usages f nm ns"
      using g(4) [of ns] ns sub by force
    then show ?thesis
      using g step True usage_only_trans [OF uo g(2)] others
      by (intro exI [of _ g]) (auto simp: e)
  qed
qed

text \<open>A namespace whose subtree usage is exactly the limited part of the sum below it.\<close>

definition exact_subtree :: "Forest \<Rightarrow> nsptr \<Rightarrow> bool" where
  "exact_subtree f a \<longleftrightarrow>
     map_of (ns_used_subtree (deref f a)) = map_of (actual_usage (rectify_usages f) f (nm_of f a) a)"

lemma exact_consistent:
  assumes "wf_forest f" "go_quotas f" "acyclic_forest f" "\<And>a. registered f a \<Longrightarrow> exact_subtree f a"
  shows "usage_consistent f"
proof -
  have "qty (ns_used_subtree (deref f a)) k =
      (if map_of (limits_of f a) k = None then 0 else \<Sum>b \<in> members f a. local_qty f k b)"
    if a: "registered f a" for a k
  proof -
    note sum = rectify_usages_sum [OF assms(1-3) a]
    have "qty (ns_used_subtree (deref f a)) k = qty (actual_usage (rectify_usages f) f (nm_of f a) a) k"
      using assms(4) [OF a] by (simp add: exact_subtree_def qty_def)
    also have "\<dots> = (if map_of (limits_of f a) k = None then 0 else qty (usage_at (rectify_usages f) (nm_of f a)) k)"
      using ru.amount_limit [OF sum(1)] by simp
    finally show ?thesis using sum(2) by simp
  qed
  then show ?thesis by (simp add: usage_consistent_def)
qed

lemma rectify_usages_same:
  "usage_only f g \<Longrightarrow> (\<And>a. ns_used_local (deref g a) = ns_used_local (deref f a)) \<Longrightarrow>
   rectify_usages g = rectify_usages f"
  by (simp add: rectify_usages_fold shape_simps [OF usage_only_shape])

lemma Rectify_effect:
  assumes "wf_forest f" "go_quotas f" "acyclic_forest f"
  shows "\<exists>g. RectifySubtreeUsages f = Some
      (concat (map (\<lambda>(nm, ns). map (\<lambda>(hrq, l). \<lparr>nnm_namespace = nm, nnm_name = hrq\<rparr>) (ns_limits (deref f ns)))
         (filter (\<lambda>(nm, ns). \<not> exact_subtree f ns) (f_namespaces f))), g) \<and>
    usage_only f g \<and> go_quotas g \<and>
    (\<forall>a. ns_used_local (deref g a) = ns_used_local (deref f a)) \<and>
    (\<forall>a. registered f a \<longrightarrow> exact_subtree g a) \<and>
    (\<forall>a. \<not> registered f a \<or> exact_subtree f a \<longrightarrow> ns_used_subtree (deref g a) = ns_used_subtree (deref f a))"
proof -
  let ?us = "rectify_usages f"
  have reg: "registered f (snd e)" if "e \<in> set (f_namespaces f)" for e
    using registered_set [OF assms(1)] that by blast
  have nm: "(nm, a) \<in> set (f_namespaces f) \<longleftrightarrow> registered f a \<and> nm = nm_of f a" for nm a
    using wf_name [OF assms(1)] wf_distinct [OF assms(1)] reg [of "(nm, a)"]
    by (auto simp: registered_def map_of_eq_Some_iff)
  have dist: "distinct_keys (actual_usage ?us f n a)" for n a
    by (rule distinct_FilterUnlimited)
  have wr: "wrong ?us f (n, a) \<longleftrightarrow> \<not> exact_subtree f a" if "(n, a) \<in> set (f_namespaces f)" for n a
    using that nm Equals_iff [OF go_quotas_deref(4) [OF assms(2)] dist]
    by (auto simp: wrong_def exact_subtree_def)
  have filt: "filter (wrong ?us f) (f_namespaces f) = filter (\<lambda>(nm, ns). \<not> exact_subtree f ns) (f_namespaces f)"
    using wr by (intro filter_cong) auto
  obtain g where g: "RectifySubtreeUsages f = Some
      (concat (map (\<lambda>(nm, ns). map (\<lambda>(hrq, l). \<lparr>nnm_namespace = nm, nnm_name = hrq\<rparr>) (ns_limits (deref f ns)))
         (filter (\<lambda>(nm, ns). \<not> exact_subtree f ns) (f_namespaces f))), g)" "usage_only f g"
    "\<And>a. ns_used_local (deref g a) = ns_used_local (deref f a)"
    and same: "\<And>a. a \<notin> snd ` set (filter (wrong ?us f) (f_namespaces f)) \<Longrightarrow>
       ns_used_subtree (deref g a) = ns_used_subtree (deref f a)"
    and fixed: "\<And>nm a. (nm, a) \<in> set (filter (wrong ?us f) (f_namespaces f)) \<Longrightarrow>
       ns_used_subtree (deref g a) = actual_usage ?us f nm a"
    using rectify_loop_eq [OF assms(1) reg distinct_ptrs [OF assms(1)], of ?us "[]"]
    unfolding RectifySubtreeUsages_def filt by auto
  have upd: "ns_used_subtree (deref g a) = (if registered f a \<and> \<not> exact_subtree f a
      then actual_usage ?us f (nm_of f a) a else ns_used_subtree (deref f a))" for a
    using same [of a] fixed [of "nm_of f a" a] wr nm by (auto simp: image_iff)
  have "go_quotas g"
    using go_quotas_deref(3,4) [OF assms(2)] dist
    by (intro go_quotas_usage_only [OF assms(2) g(2)]) (auto simp: g(3) upd)
  moreover have "exact_subtree g a" if "registered f a" for a
    using that upd [of a]
    by (auto simp: exact_subtree_def rectify_usages_same [OF g(2,3)] usage_only_limits_of [OF g(2)]
        shape_simps [OF usage_only_shape [OF g(2)]] split: if_splits)
  ultimately show ?thesis
    using g upd by auto
qed

end
