(* ===== verification/Relink.thy ===== *)
theory Relink
  imports Quota_Usage
begin

text \<open>
  \<open>SetParent\<close> and \<open>UnsetExists\<close>: the change of the links in two halves, detaching a
  namespace from its old parent and attaching it to the new one. Each half keeps the forest well
  formed, and together with \<open>UseResources\<close> they give the effect of the whole operation.
\<close>

section \<open>The two halves of a change of parent\<close>

definition detach :: "nsptr \<Rightarrow> Forest \<Rightarrow> Forest" where
  "detach ns f = modify ns (\<lambda>n. n\<lparr>ns_parent := None\<rparr>) (unlink_parent ns f)"

lemma modify_modify: "modify a g (modify a h f) = modify a (\<lambda>n. g (h n)) f"
  by (cases "valid f a") (auto simp: modify_def deref_def valid_def list_update_beyond)

lemma link_detach: "link_parent ns p (detach ns f) = link_parent ns p (unlink_parent ns f)"
  by (simp add: link_parent_def detach_def modify_modify)

lemma clean_deref [simp]: "deref (clean a f) b = deref f b" "valid (clean a f) b = valid f b"
  by (simp_all add: clean_def Let_def deref_set_namespaces)

lemma unlink_deref:
  assumes "wf_forest f" "registered f ns"
  shows "deref (unlink_parent ns f) a =
    (if ns_parent (deref f ns) = Some a
     then (deref f a)\<lparr>ns_children := AList.delete (nm_of f ns) (ns_children (deref f a))\<rparr>
     else deref f a)"
proof (cases "ns_parent (deref f ns)")
  case (Some q)
  then have "valid f q" using registered_parent [OF assms] registered_valid [OF assms(1)] by blast
  then show ?thesis using Some by (auto simp: unlink_parent_def Let_def deref_modify)
qed (simp add: unlink_parent_def)

text \<open>The old parent leaves the map when it does not exist and this was its last child.\<close>

definition dropped :: "Forest \<Rightarrow> nsptr \<Rightarrow> nsptr \<Rightarrow> bool" where
  "dropped f ns q \<longleftrightarrow> ns_parent (deref f ns) = Some q \<and> \<not> ns_exists (deref f q) \<and>
     set (keys (ns_children (deref f q))) \<subseteq> {nm_of f ns}"

lemma unlink_namespaces:
  assumes "wf_forest f" "registered f ns"
  shows "f_namespaces (unlink_parent ns f) =
    (case ns_parent (deref f ns) of
       Some q \<Rightarrow> if dropped f ns q then AList.delete (nm_of f q) (f_namespaces f) else f_namespaces f
     | None \<Rightarrow> f_namespaces f)"
proof (cases "ns_parent (deref f ns)")
  case (Some q)
  then have "valid f q" using registered_parent [OF assms] registered_valid [OF assms(1)] by blast
  then show ?thesis using Some
    by (simp add: unlink_parent_def Let_def deref_modify clean_def modify_frame dropped_def delete_eq_Nil_iff)
qed (simp add: unlink_parent_def)

lemma detach_deref:
  assumes "wf_forest f" "registered f ns"
  shows "deref (detach ns f) a =
    (let n = (if ns_parent (deref f ns) = Some a
       then (deref f a)\<lparr>ns_children := AList.delete (nm_of f ns) (ns_children (deref f a))\<rparr>
       else deref f a) in if a = ns then n\<lparr>ns_parent := None\<rparr> else n)"
proof -
  have "valid (unlink_parent ns f) ns"
    using registered_valid [OF assms]
    by (auto simp: unlink_parent_def Let_def valid_modify split: option.splits)
  then show ?thesis
    by (simp add: detach_def deref_modify unlink_deref [OF assms] Let_def)
qed

lemma detach_fields:
  assumes "wf_forest f" "registered f ns"
  shows "nm_of (detach ns f) a = nm_of f a" "ns_exists (deref (detach ns f) a) = ns_exists (deref f a)"
    "ns_parent (deref (detach ns f) a) = (if a = ns then None else ns_parent (deref f a))"
    "map_of (ns_children (deref (detach ns f) a)) c =
       (if ns_parent (deref f ns) = Some a \<and> c = nm_of f ns then None else map_of (ns_children (deref f a)) c)"
    "distinct_keys (ns_children (deref f a)) \<Longrightarrow> distinct_keys (ns_children (deref (detach ns f) a))"
    "valid (detach ns f) a = valid f a"
  by (simp_all add: detach_deref [OF assms] Let_def map_of_delete' distinct_keys_delete)
    (auto simp: detach_def unlink_parent_def Let_def valid_modify split: option.splits)

lemma detach_namespaces:
  assumes "wf_forest f" "registered f ns"
  shows "map_of (f_namespaces (detach ns f)) nm =
    (if \<exists>q. dropped f ns q \<and> nm = nm_of f q then None else map_of (f_namespaces f) nm)"
proof (cases "ns_parent (deref f ns)")
  case None
  then show ?thesis
    by (simp add: detach_def modify_frame unlink_namespaces [OF assms] dropped_def)
next
  case (Some q)
  then have "(\<exists>q'. dropped f ns q' \<and> nm = nm_of f q') \<longleftrightarrow> dropped f ns q \<and> nm = nm_of f q"
    by (auto simp: dropped_def)
  then show ?thesis
    using Some by (simp add: detach_def modify_frame unlink_namespaces [OF assms] map_of_delete')
qed

text \<open>A parent that is dropped must not have a parent of its own.\<close>

definition safe_drop :: "Forest \<Rightarrow> nsptr \<Rightarrow> bool" where
  "safe_drop f ns = (case ns_parent (deref f ns) of
       None \<Rightarrow> True
     | Some q \<Rightarrow> dropped f ns q \<longrightarrow> ns_parent (deref f q) = None)"

lemma safe_dropD: "safe_drop f ns \<Longrightarrow> dropped f ns q \<Longrightarrow> ns_parent (deref f q) = None"
  by (auto simp: safe_drop_def dropped_def)

lemma registered_detach:
  assumes "wf_forest f" "registered f ns"
  shows "registered (detach ns f) a \<longleftrightarrow> registered f a \<and> \<not> dropped f ns a"
proof -
  have "dropped f ns q \<Longrightarrow> registered f q" for q
    using registered_parent [OF assms] by (auto simp: dropped_def)
  then have "(\<exists>q. dropped f ns q \<and> nm_of f a = nm_of f q) \<longleftrightarrow> dropped f ns a" if "registered f a"
    using registered_inj [OF that] by blast
  then show ?thesis
    unfolding registered_def detach_namespaces [OF assms] detach_fields(1) [OF assms] by auto
qed

text \<open>
  The state between two reconciliations also has every namespace with a parent exist on the cluster,
  and then no parent that is dropped has a parent. While a namespace is reconciled for the first time
  its parent is set before it is marked as existing.
\<close>

definition parents_exist :: "Forest \<Rightarrow> bool" where
  "parents_exist f =
     list_all (\<lambda>(nm, a). ns_exists (deref f a) \<or> ns_parent (deref f a) = None) (f_namespaces f)"

lemma parents_exist_iff:
  assumes "wf_forest f"
  shows "parents_exist f \<longleftrightarrow> (\<forall>a. registered f a \<longrightarrow> ns_exists (deref f a) \<or> ns_parent (deref f a) = None)"
proof -
  have "parents_exist f \<longleftrightarrow> (\<forall>a \<in> snd ` set (f_namespaces f). ns_exists (deref f a) \<or> ns_parent (deref f a) = None)"
    by (auto simp: parents_exist_def list_all_iff)
  then show ?thesis unfolding registered_set [OF assms, symmetric] by simp
qed

lemma parents_exist_safe:
  assumes "wf_forest f" "parents_exist f" "registered f ns"
  shows "safe_drop f ns"
  using assms registered_parent [OF assms(1,3)]
  by (auto simp: safe_drop_def dropped_def parents_exist_iff split: option.splits)

lemma wf_detach:
  assumes "wf_forest f" "registered f ns" and safe: "safe_drop f ns"
  shows "wf_forest (detach ns f)"
proof (rule wf_forestI)
  let ?g = "detach ns f"
  note fs = detach_fields [OF assms(1,2)] and reg = registered_detach [OF assms(1,2)]
  show "distinct_keys (f_namespaces ?g)"
    using wf_distinct [OF assms(1)]
    by (simp add: detach_def modify_frame unlink_namespaces [OF assms(1,2)] distinct_keys_delete split: option.splits)
  show "nm \<noteq> '''' \<and> valid ?g a \<and> nm_of ?g a = nm \<and> distinct_keys (ns_children (deref ?g a))"
    if "map_of (f_namespaces ?g) nm = Some a" for nm a
  proof -
    have "map_of (f_namespaces f) nm = Some a"
      using that by (simp add: detach_namespaces [OF assms(1,2)] split: if_splits)
    then show ?thesis
      using wf_lookup [OF assms(1)] by (auto simp: wf_entry_def fs)
  qed
  show "registered ?g p \<and> map_of (ns_children (deref ?g p)) (nm_of ?g a) = Some a"
    if a: "registered ?g a" "ns_parent (deref ?g a) = Some p" for a p
  proof -
    have a': "registered f a" "a \<noteq> ns" "ns_parent (deref f a) = Some p"
      using a by (auto simp: fs reg split: if_splits)
    then have p: "registered f p" "map_of (ns_children (deref f p)) (nm_of f a) = Some a"
      using registered_parent [OF assms(1)] by blast+
    have ne: "nm_of f a \<noteq> nm_of f ns" using a' registered_inj assms(2) by blast
    have "nm_of f a \<in> set (keys (ns_children (deref f p)))"
      using p(2) by (metis map_of_eq_None_iff option.distinct(1) set_map)
    then have "\<not> dropped f ns p"
      using ne by (auto simp: dropped_def)
    then show ?thesis using p ne by (simp add: fs reg)
  qed
  show "registered ?g b \<and> nm_of ?g b = c \<and> ns_parent (deref ?g b) = Some a"
    if b: "registered ?g a" "map_of (ns_children (deref ?g a)) c = Some b" for a c b
  proof -
    have b': "registered f a" "map_of (ns_children (deref f a)) c = Some b"
      "\<not> (ns_parent (deref f ns) = Some a \<and> c = nm_of f ns)"
      using b by (auto simp: fs reg split: if_splits)
    then have p: "registered f b" "nm_of f b = c" "ns_parent (deref f b) = Some a"
      using registered_child [OF assms(1)] by blast+
    then have "b \<noteq> ns" "\<not> dropped f ns b"
      using b' safe_dropD [OF safe, of b] by auto
    then show ?thesis using p by (simp add: fs reg)
  qed
qed

lemma attach_deref:
  assumes "wf_forest f" "registered f ns" "registered f q"
  shows "deref (link_parent ns (Some q) f) a =
    (let n = (if a = ns then (deref f a)\<lparr>ns_parent := Some q\<rparr> else deref f a) in
     if a = q then n\<lparr>ns_children := AList.update (nm_of f ns) ns (ns_children n)\<rparr> else n)"
  using registered_valid [OF assms(1,2)] registered_valid [OF assms(1,3)]
  by (auto simp: link_parent_def Let_def deref_modify valid_modify)

lemma attach_frame:
  "f_namespaces (link_parent ns p f) = f_namespaces f" "f_types (link_parent ns p f) = f_types f"
  "valid (link_parent ns p f) a = valid f a"
  by (simp_all add: link_parent_def Let_def modify_frame valid_modify split: option.splits)

lemma attach_fields:
  assumes "wf_forest f" "registered f ns" "registered f q"
  shows "nm_of (link_parent ns (Some q) f) a = nm_of f a"
    "ns_exists (deref (link_parent ns (Some q) f) a) = ns_exists (deref f a)"
    "ns_parent (deref (link_parent ns (Some q) f) a) = (if a = ns then Some q else ns_parent (deref f a))"
    "map_of (ns_children (deref (link_parent ns (Some q) f) a)) c =
       (if a = q \<and> c = nm_of f ns then Some ns else map_of (ns_children (deref f a)) c)"
    "distinct_keys (ns_children (deref f a)) \<Longrightarrow> distinct_keys (ns_children (deref (link_parent ns (Some q) f) a))"
  by (auto simp: attach_deref [OF assms] Let_def map_of_update distinct_keys_update)

lemma wf_attach:
  assumes "wf_forest f" "registered f ns" "ns_parent (deref f ns) = None" "registered f q"
  shows "wf_forest (link_parent ns (Some q) f)"
proof (rule wf_forestI)
  let ?g = "link_parent ns (Some q) f"
  note fs = attach_fields [OF assms(1,2,4)] attach_frame
  have reg: "registered ?g a = registered f a" for a
    by (simp add: registered_def fs)
  show "distinct_keys (f_namespaces ?g)"
    using wf_distinct [OF assms(1)] by (simp add: fs)
  show "nm \<noteq> '''' \<and> valid ?g a \<and> nm_of ?g a = nm \<and> distinct_keys (ns_children (deref ?g a))"
    if "map_of (f_namespaces ?g) nm = Some a" for nm a
    using wf_lookup [OF assms(1), of nm a] that by (auto simp: wf_entry_def fs)
  show "registered ?g p \<and> map_of (ns_children (deref ?g p)) (nm_of ?g a) = Some a"
    if a: "registered ?g a" "ns_parent (deref ?g a) = Some p" for a p
  proof (cases "a = ns")
    case True
    then have "p = q" using a by (simp add: fs)
    then show ?thesis using True assms(4) by (simp only: fs reg) simp
  next
    case False
    then have "nm_of f a \<noteq> nm_of f ns" using a registered_inj assms(2) by (auto simp: reg)
    then show ?thesis
      using a False registered_parent [OF assms(1)] by (simp add: fs reg)
  qed
  show "registered ?g b \<and> nm_of ?g b = c \<and> ns_parent (deref ?g b) = Some a"
    if b: "registered ?g a" "map_of (ns_children (deref ?g a)) c = Some b" for a c b
  proof (cases "a = q \<and> c = nm_of f ns")
    case True
    then have "b = ns" using b by (simp add: fs)
    then show ?thesis using True assms(2) by (simp only: fs reg) simp
  next
    case False
    then have "registered f b" "nm_of f b = c" "ns_parent (deref f b) = Some a"
      using b registered_child [OF assms(1)] by (auto simp: fs reg)
    then show ?thesis
      using assms(3) by (auto simp: fs reg)
  qed
qed

lemma attach_None:
  assumes "wf_forest f" "registered f ns" "ns_parent (deref f ns) = None"
  shows "link_parent ns None f = f"
proof -
  have "f_heap f ! ns = (f_heap f ! ns)\<lparr>ns_parent := None\<rparr>"
    using assms(3) registered_valid [OF assms(1,2)] by (simp add: deref_def valid_def)
  then show ?thesis
    using registered_valid [OF assms(1,2)]
    by (simp add: link_parent_def modify_def deref_def valid_def)
qed

section \<open>SetParent\<close>

text \<open>\<open>UseResources\<close> returns on every well-formed forest, cycles included.\<close>

lemma use_loop_total:
  assumes "wf_forest f" "\<And>p. p \<in> set ps \<Longrightarrow> registered f p"
  shows "\<exists>g. use_loop delta (map (nm_of f) ps) f = Some g \<and> usage_only f g"
  using assms
proof (induction ps arbitrary: f)
  case Nil
  then show ?case by simp
next
  case (Cons p ps)
  let ?sub = "FilterUnlimited (Add delta (ns_used_subtree (deref f p))) (limits_of f p)"
  let ?f = "modify p (\<lambda>n. n\<lparr>ns_used_subtree := ?sub\<rparr>) f"
  have uo: "usage_only f ?f"
    by (rule usage_only_modify) (metis Namespace.surjective Namespace.update_convs(15,16))
  note sh = usage_only_shape [OF uo]
  have names: "map (nm_of ?f) ps = map (nm_of f) ps"
    using sh by (simp add: shape_simps)
  have step: "use_loop delta (map (nm_of f) (p # ps)) f = use_loop delta (map (nm_of ?f) ps) ?f"
    unfolding names using Cons.prems by (simp add: GetP_registered Limits_eq)
  have "wf_forest ?f" "\<And>q. q \<in> set ps \<Longrightarrow> registered ?f q"
    using Cons.prems sh by (auto simp: shape_simps)
  from Cons.IH [OF this] show ?case
    unfolding step using usage_only_trans [OF uo] by blast
qed

lemma UseResources_total:
  assumes "wf_forest f" "registered f n"
  shows "\<exists>g. UseResources n u f = Some g \<and> usage_only f g"
proof (cases "Equals (nil_map (ns_used_local (deref f n))) (FilterUnlimited u (limits_of f n))")
  case True
  then show ?thesis using assms by (auto simp: UseResources_def Limits_eq)
next
  case False
  let ?new = "FilterUnlimited u (limits_of f n)"
  let ?f = "modify n (\<lambda>n. n\<lparr>ns_used_local := Some ?new\<rparr>) f"
  let ?ps = "rev (ancestry_ptrs f (Some n) {})"
  have uo: "usage_only f ?f"
    by (rule usage_only_modify) (metis Namespace.surjective Namespace.update_convs(15,16))
  note sh = usage_only_shape [OF uo]
  have names: "AncestryNames ?f (Some n) = map (nm_of ?f) ?ps"
    using sh by (simp add: shape_simps AncestryNames_ptrs rev_map)
  let ?delta = "Subtract ?new (nil_map (ns_used_local (deref f n)))"
  have wf: "wf_forest ?f" and reg: "\<And>q. q \<in> set ?ps \<Longrightarrow> registered ?f q"
    using assms sh registered_ancestry [OF assms] by (auto simp: shape_simps)
  obtain g where "use_loop ?delta (map (nm_of ?f) ?ps) ?f = Some g" "usage_only ?f g"
    using use_loop_total [OF wf reg] by blast
  then show ?thesis
    unfolding UseResources_def using False assms usage_only_trans [OF uo]
    by (simp add: Limits_eq Let_def names)
qed

text \<open>The links change in the same way whatever the usages are.\<close>

lemma usage_only_update:
  assumes "usage_only f g"
  obtains u s where "deref g a = (deref f a)\<lparr>ns_used_local := u, ns_used_subtree := s\<rparr>"
  using assms unfolding usage_only_def by metis

lemma usage_onlyI:
  assumes "f_namespaces g = f_namespaces f" "f_types g = f_types f" "length (f_heap g) = length (f_heap f)"
    and "\<And>a. \<exists>u s. deref g a = (deref f a)\<lparr>ns_used_local := u, ns_used_subtree := s\<rparr>"
  shows "usage_only f g"
proof -
  have "deref g a = (deref f a)\<lparr>ns_used_local := ns_used_local (deref g a),
      ns_used_subtree := ns_used_subtree (deref g a)\<rparr>" for a
  proof -
    obtain u s where "deref g a = (deref f a)\<lparr>ns_used_local := u, ns_used_subtree := s\<rparr>"
      using assms(4) by blast
    then show ?thesis by simp
  qed
  then show ?thesis using assms by (simp add: usage_only_def)
qed

lemma usage_only_modify2:
  assumes "usage_only f g"
    and "\<And>n u s. h (n\<lparr>ns_used_local := u, ns_used_subtree := s\<rparr>) = (h n)\<lparr>ns_used_local := u, ns_used_subtree := s\<rparr>"
  shows "usage_only (modify a h f) (modify a h g)"
proof (rule usage_onlyI)
  fix b
  obtain u s where us: "deref g b = (deref f b)\<lparr>ns_used_local := u, ns_used_subtree := s\<rparr>"
    using usage_only_update [OF assms(1)] by blast
  have "valid g a = valid f a" using same_shape_valid [OF usage_only_shape [OF assms(1)]] .
  show "\<exists>u s. deref (modify a h g) b = (deref (modify a h f) b)\<lparr>ns_used_local := u, ns_used_subtree := s\<rparr>"
  proof (cases "b = a \<and> valid f a")
    case True
    then show ?thesis
      using \<open>valid g a = valid f a\<close> us assms(2) by (auto simp: deref_modify)
  next
    case False
    then have "deref (modify a h g) b = deref g b" "deref (modify a h f) b = deref f b"
      using \<open>valid g a = valid f a\<close> by (auto simp: deref_def modify_def valid_def)
    then show ?thesis using us by auto
  qed
qed (use assms(1) in \<open>simp_all add: usage_only_def modify_frame\<close>)

lemma usage_only_clean: "usage_only f g \<Longrightarrow> usage_only (clean a f) (clean a g)"
proof -
  assume uo: "usage_only f g"
  then have "ns_exists (deref g a) = ns_exists (deref f a)" "ns_children (deref g a) = ns_children (deref f a)"
    "nm_of g a = nm_of f a" "f_namespaces g = f_namespaces f"
    using usage_only_shape [OF uo] usage_only_exists [OF uo] by (simp_all add: shape_simps)
  then show ?thesis
    using uo by (auto simp: clean_def usage_only_def deref_set_namespaces)
qed

lemma usage_only_unlink:
  assumes "usage_only f g"
  shows "usage_only (unlink_parent ns f) (unlink_parent ns g)"
proof -
  have sh: "ns_parent (deref g ns) = ns_parent (deref f ns)" "nm_of g ns = nm_of f ns"
    using usage_only_shape [OF assms] by (simp_all add: shape_simps)
  show ?thesis
  proof (cases "ns_parent (deref f ns)")
    case None
    then show ?thesis using assms sh by (simp add: unlink_parent_def)
  next
    case (Some q)
    let ?h = "\<lambda>n. n\<lparr>ns_children := AList.delete (nm_of f ns) (ns_children n)\<rparr>"
    have "usage_only (modify q ?h f) (modify q ?h g)"
      using assms by (rule usage_only_modify2) simp
    then show ?thesis
      using Some sh usage_only_clean [of "modify q ?h f" "modify q ?h g" q]
        same_shape_children [OF usage_only_shape, of "modify q ?h f" "modify q ?h g" q]
      by (simp add: unlink_parent_def Let_def)
  qed
qed

lemma usage_only_link:
  assumes "usage_only f g"
  shows "usage_only (link_parent ns p f) (link_parent ns p g)"
proof -
  let ?h = "\<lambda>n. n\<lparr>ns_parent := p\<rparr>"
  have uo: "usage_only (modify ns ?h f) (modify ns ?h g)"
    using assms by (rule usage_only_modify2) simp
  show ?thesis
  proof (cases p)
    case None
    then show ?thesis using uo by (simp add: link_parent_def)
  next
    case (Some q)
    have "nm_of (modify ns ?h g) ns = nm_of (modify ns ?h f) ns"
      using usage_only_shape [OF uo] by (simp add: shape_simps)
    then show ?thesis
      using Some usage_only_modify2 [OF uo, of "\<lambda>n. n\<lparr>ns_children := AList.update (nm_of (modify ns ?h f) ns) ns (ns_children n)\<rparr>" q]
      by (simp add: link_parent_def Let_def)
  qed
qed

text \<open>
  The condition under which a change of parent is harmless: an old parent that is dropped has no
  parent, and the new parent is registered and is not the one that is dropped.
\<close>

definition can_relink :: "Forest \<Rightarrow> nsptr \<Rightarrow> nsptr option \<Rightarrow> bool" where
  "can_relink f ns p = (safe_drop f ns \<and> (case p of
       None \<Rightarrow> True
     | Some q \<Rightarrow> registered f q \<and> \<not> dropped f ns q))"

lemma can_relink_safe: "can_relink f ns p \<Longrightarrow> safe_drop f ns"
  by (simp add: can_relink_def)

definition relinked :: "Forest \<Rightarrow> nsptr \<Rightarrow> nsptr option \<Rightarrow> Forest" where
  "relinked f ns p = link_parent ns p (unlink_parent ns f)"

lemma not_self_dropped: "safe_drop f ns \<Longrightarrow> \<not> dropped f ns ns"
  using safe_dropD [of f ns ns] by (auto simp: dropped_def)

lemma relinked_facts:
  assumes "wf_forest f" "registered f ns" "can_relink f ns p"
  shows "wf_forest (relinked f ns p)"
    "\<And>a. registered (relinked f ns p) a \<longleftrightarrow> registered f a \<and> \<not> dropped f ns a"
    "\<And>a. ns_parent (deref (relinked f ns p) a) = (if a = ns then p else ns_parent (deref f a))"
    "\<And>a. nm_of (relinked f ns p) a = nm_of f a"
proof -
  have rel: "relinked f ns p = link_parent ns p (detach ns f)"
    by (simp add: relinked_def link_detach)
  note d = wf_detach [OF assms(1,2) can_relink_safe [OF assms(3)]] and reg = registered_detach [OF assms(1,2)]
    and fs = detach_fields [OF assms(1,2)]
  have regns: "registered (detach ns f) ns"
    using assms(2) not_self_dropped [OF can_relink_safe [OF assms(3)]] by (simp add: reg)
  have "wf_forest (relinked f ns p) \<and>
    (\<forall>a. registered (relinked f ns p) a \<longleftrightarrow> registered f a \<and> \<not> dropped f ns a) \<and>
    (\<forall>a. ns_parent (deref (relinked f ns p) a) = (if a = ns then p else ns_parent (deref f a))) \<and>
    (\<forall>a. nm_of (relinked f ns p) a = nm_of f a)"
  proof (cases p)
    case None
    then show ?thesis
      using attach_None [OF d regns] d rel by (simp add: fs reg)
  next
    case (Some q)
    then have q: "registered (detach ns f) q"
      using assms(3) by (auto simp: can_relink_def reg fs)
    have "registered (link_parent ns (Some q) (detach ns f)) a = registered (detach ns f) a" for a
      by (simp add: registered_def attach_frame attach_fields [OF d regns q])
    then show ?thesis
      using Some wf_attach [OF d regns _ q] rel by (simp add: fs reg attach_fields [OF d regns q])
  qed
  then show "wf_forest (relinked f ns p)"
    "\<And>a. registered (relinked f ns p) a \<longleftrightarrow> registered f a \<and> \<not> dropped f ns a"
    "\<And>a. ns_parent (deref (relinked f ns p) a) = (if a = ns then p else ns_parent (deref f a))"
    "\<And>a. nm_of (relinked f ns p) a = nm_of f a"
    by blast+
qed

lemma usage_only_relinked: "usage_only f g \<Longrightarrow> usage_only (relinked f ns p) (relinked g ns p)"
  by (simp add: relinked_def usage_only_link usage_only_unlink)

lemma usage_only_can_relink: "usage_only f g \<Longrightarrow> can_relink g ns p = can_relink f ns p"
  by (simp add: can_relink_def safe_drop_def dropped_def usage_only_exists
      shape_simps [OF usage_only_shape] cong: option.case_cong)

lemma SetParent_total:
  assumes "wf_forest f" "registered f ns" "can_relink f ns p"
  shows "\<exists>g. SetParent ns p f = Some g \<and> usage_only (relinked f ns p) g"
proof (cases "ns_used_local (deref f ns)")
  case None
  then show ?thesis by (simp add: SetParent_def relinked_def)
next
  case (Some u)
  obtain f1 where f1: "UseResources ns [] f = Some f1" "usage_only f f1"
    using UseResources_total [OF assms(1,2)] by blast
  let ?f2 = "relinked f1 ns p"
  have sh: "wf_forest f1" "registered f1 ns" "can_relink f1 ns p"
    using assms usage_only_can_relink [OF f1(2)] by (simp_all add: shape_simps [OF usage_only_shape [OF f1(2)]])
  then have "wf_forest ?f2" "registered ?f2 ns"
    using relinked_facts [OF sh] not_self_dropped [OF can_relink_safe [OF sh(3)]] by auto
  then obtain g where "UseResources ns u ?f2 = Some g" "usage_only ?f2 g"
    using UseResources_total by blast
  then show ?thesis
    using Some f1 usage_only_trans [OF usage_only_relinked [OF f1(2)]]
    by (auto simp: SetParent_def relinked_def)
qed

text \<open>The parent relation after the change, and when it has a cycle.\<close>

lemma relinked_parent_rel:
  assumes "wf_forest f" "registered f ns" "can_relink f ns p"
  shows "(a, b) \<in> parent_rel (relinked f ns p) \<longleftrightarrow>
    (if a = ns then p = Some b else (a, b) \<in> parent_rel f)"
  using relinked_facts(3) [OF assms] by auto

lemma rtrancl_to_cut:
  assumes "\<And>x y. x \<noteq> n \<Longrightarrow> (x, y) \<in> R \<Longrightarrow> (x, y) \<in> S" "(a, n) \<in> R\<^sup>*"
  shows "(a, n) \<in> S\<^sup>*"
  using assms(2)
proof (induction rule: converse_rtrancl_induct)
  case (step x y)
  then show ?case
    using assms(1) by (cases "x = n") (auto intro: converse_rtrancl_into_rtrancl)
qed simp

lemma trancl_cut:
  assumes "\<And>x y. x \<noteq> n \<Longrightarrow> (x, y) \<in> R \<Longrightarrow> (x, y) \<in> S" "(a, b) \<in> R\<^sup>+"
  shows "(a, b) \<in> S\<^sup>+ \<or> (a, n) \<in> R\<^sup>* \<and> (n, b) \<in> R\<^sup>+"
  using assms(2)
proof (induction rule: converse_trancl_induct)
  case (base x)
  then show ?case using assms(1) by (cases "x = n") auto
next
  case (step x y)
  then show ?case
    using assms(1) by (cases "x = n") (auto intro: converse_rtrancl_into_rtrancl trancl_into_trancl2)
qed

lemma relinked_cycle:
  assumes "wf_forest f" "registered f ns" "can_relink f ns (Some q)"
  shows "in_cycle (relinked f ns (Some q)) ns \<longleftrightarrow> CanSetParent f ns (Some q) \<noteq> ''''"
proof -
  let ?R = "parent_rel f" and ?S = "parent_rel (relinked f ns (Some q))"
  note pr = relinked_parent_rel [OF assms]
  have "in_cycle (relinked f ns (Some q)) ns \<longleftrightarrow> (q, ns) \<in> ?S\<^sup>*"
    unfolding in_cycle_def trancl_parent using relinked_facts(3) [OF assms, of ns] by auto
  also have "\<dots> \<longleftrightarrow> (q, ns) \<in> ?R\<^sup>*"
    using rtrancl_to_cut [of ns ?S ?R q] rtrancl_to_cut [of ns ?R ?S q] pr by auto
  finally show ?thesis
    using CanSetParent_iff [OF assms(1,2)] assms(3) by (simp add: can_relink_def)
qed

lemma relinked_acyclic:
  assumes "wf_forest f" "registered f ns" "can_relink f ns p" "acyclic_forest f" "CanSetParent f ns p = ''''"
  shows "acyclic_forest (relinked f ns p)"
  unfolding acyclic_forest_def
proof (intro allI impI notI)
  let ?S = "parent_rel (relinked f ns p)"
  note pr = relinked_parent_rel [OF assms(1-3)]
  fix a assume a: "registered (relinked f ns p) a" "in_cycle (relinked f ns p) a"
  have "\<not> in_cycle (relinked f ns p) ns"
    using relinked_cycle [OF assms(1,2)] relinked_facts(3) [OF assms(1-3), of ns] assms(3,5)
    by (cases p) (auto simp: in_cycle_def trancl_parent)
  moreover have "(a, a) \<in> (parent_rel f)\<^sup>+ \<or> (a, ns) \<in> ?S\<^sup>* \<and> (ns, a) \<in> ?S\<^sup>+"
    using trancl_cut [of ns ?S "parent_rel f" a a] a(2) pr by (auto simp: in_cycle_def)
  moreover have "\<not> in_cycle f a"
    using assms(4) a(1) relinked_facts(2) [OF assms(1-3)] by (simp add: acyclic_forest_def)
  ultimately show False
    by (auto simp: in_cycle_def dest: trancl_rtrancl_trancl)
qed

end
