(* ===== verification/Quota_Safety.thy ===== *)
theory Quota_Safety
  imports Relink
begin

text \<open>
  Admission of usages (\<open>canUseResources\<close>, \<open>TryUseResources\<close>) and the usages when a
  namespace changes its parent.
\<close>

section \<open>Checks against the limits\<close>

lemma checkLimits_ok: "fst (checkLimits l u) \<longleftrightarrow> (\<forall>(nm, rl) \<in> set l. fst (LessThanOrEqual u rl))"
  by (auto simp: checkLimits_def find_None_iff find_Some_iff split: option.splits)
    (metis case_prodD nth_mem)+

lemma can_use_loop_ok:
  assumes "wf_forest f" "\<And>p. p \<in> set ps \<Longrightarrow> registered f p"
  shows "\<exists>err. can_use_loop qstr inc (map (nm_of f) ps) f = Some (err, f) \<and>
    (err = None \<longleftrightarrow> (\<forall>p \<in> set ps. fst (checkLimits (ns_limits (deref f p))
       (AddIfExists inc (ns_used_subtree (deref f p))))))"
  using assms
proof (induction ps)
  case (Cons p ps)
  then show ?case
    by (cases "checkLimits (ns_limits (deref f p)) (AddIfExists inc (ns_used_subtree (deref f p)))")
      (auto simp: GetP_registered Let_def split: bool.splits)
qed simp

lemma checkLimits_limit_at:
  assumes "go_quotas f" "distinct_keys inc"
  shows "fst (checkLimits (ns_limits (deref f p)) (AddIfExists inc (ns_used_subtree (deref f p)))) \<longleftrightarrow>
    (\<forall>k v d s. limit_at f p k v \<longrightarrow> map_of inc k = Some d \<longrightarrow>
       map_of (ns_used_subtree (deref f p)) k = Some s \<longrightarrow> d + s \<le> v)"
proof -
  have "fst (LessThanOrEqual (AddIfExists inc (ns_used_subtree (deref f p))) rl) \<longleftrightarrow>
      (\<forall>k v d s. map_of rl k = Some v \<longrightarrow> map_of inc k = Some d \<longrightarrow>
         map_of (ns_used_subtree (deref f p)) k = Some s \<longrightarrow> d + s \<le> v)"
    if "(nm, rl) \<in> set (ns_limits (deref f p))" for nm rl
    using LessThanOrEqual_allowed [OF go_quotas_deref(2) [OF assms(1) that]] AddIfExists_lookup [OF assms(2)]
    by (auto split: option.splits)
  then show ?thesis
    unfolding checkLimits_ok limit_at_def by blast
qed

definition increase :: "ResourceList \<Rightarrow> ResourceList \<Rightarrow> ResourceName \<Rightarrow> Quantity" where
  "increase u old k = qty u k - qty old k"

lemma increases_lookup:
  assumes "distinct_keys u" "distinct_keys old"
  shows "map_of (OmitLTEZero (Subtract u old)) k =
    (if 0 < increase u old k then Some (increase u old k) else None)"
  using assms
  by (auto simp: OmitLTEZero_lookup distinct_Subtract Subtract_lookup increase_def qty_def
      split: option.splits)

text \<open>The requests that \<open>canUseResources\<close> accepts.\<close>

definition fits :: "Forest \<Rightarrow> nsptr \<Rightarrow> ResourceList \<Rightarrow> bool" where
  "fits f n u \<longleftrightarrow> (\<forall>p k v s. (n, p) \<in> (parent_rel f)\<^sup>* \<longrightarrow> limit_at f p k v \<longrightarrow>
     map_of (ns_used_subtree (deref f p)) k = Some s \<longrightarrow>
     0 < increase u (nil_map (ns_used_local (deref f n))) k \<longrightarrow>
     s + increase u (nil_map (ns_used_local (deref f n))) k \<le> v)"

lemma canUseResources_iff:
  assumes "wf_forest f" "go_quotas f" "registered f n" "distinct_keys u"
  shows "\<exists>err. canUseResources qstr n u f = Some (err, f) \<and> (err = None \<longleftrightarrow> fits f n u)"
proof -
  let ?old = "nil_map (ns_used_local (deref f n))"
  let ?inc = "OmitLTEZero (Subtract u ?old)"
  let ?ps = "rev (ancestry_ptrs f (Some n) {})"
  have inc: "distinct_keys ?inc"
    by (intro distinct_OmitLTEZero distinct_Subtract)
  have names: "AncestryNames f (Some n) = map (nm_of f) ?ps"
    by (simp add: AncestryNames_ptrs rev_map)
  have reg: "registered f p" if "p \<in> set ?ps" for p
    using that registered_ancestry [OF assms(1,3)] by simp
  obtain err where err: "can_use_loop qstr ?inc (map (nm_of f) ?ps) f = Some (err, f)"
    "err = None \<longleftrightarrow> (\<forall>p \<in> set ?ps. fst (checkLimits (ns_limits (deref f p))
       (AddIfExists ?inc (ns_used_subtree (deref f p)))))"
    using can_use_loop_ok [OF assms(1) reg, where ps = ?ps and inc = ?inc and qstr = qstr] by blast
  have "err = None \<longleftrightarrow> fits f n u"
    unfolding err(2) checkLimits_limit_at [OF assms(2) inc]
      increases_lookup [OF assms(4) go_quotas_deref(3) [OF assms(2)]] fits_def
    using set_ancestry_ptrs [OF assms(1,3)] by (auto simp: add.commute)
  then show ?thesis
    using err(1) by (simp add: canUseResources_def Let_def names)
qed

lemma TryUseResources_eq:
  assumes "wf_forest f" "go_quotas f" "registered f n" "acyclic_ns f n" "distinct_keys u"
  shows "\<exists>err g. TryUseResources qstr n u f = Some (err, g) \<and>
    (if fits f n u then err = None \<and> usage_only f g \<and> used_delta f n u g else err \<noteq> None \<and> g = f)"
proof -
  obtain err where "canUseResources qstr n u f = Some (err, f)" "err = None \<longleftrightarrow> fits f n u"
    using canUseResources_iff [OF assms(1,2,3,5)] by blast
  moreover obtain g where "UseResources n u f = Some g" "usage_only f g" "used_delta f n u g"
    using UseResources_effect [OF assms(1,3,4)] by blast
  ultimately show ?thesis
    by (cases err) (auto simp: TryUseResources_def)
qed

text \<open>How much each subtree usage changes.\<close>

lemma used_delta_qty:
  assumes "wf_forest f" "go_quotas f" "registered f n" "distinct_keys u" "used_delta f n u g"
    and "(n, p) \<in> (parent_rel f)\<^sup>*" "map_of (limits_of f p) k \<noteq> None"
  shows "qty (ns_used_subtree (deref g p)) k =
    qty (ns_used_subtree (deref f p)) k + increase u (nil_map (ns_used_local (deref f n))) k"
proof -
  let ?new = "FilterUnlimited u (limits_of f n)" and ?old = "nil_map (ns_used_local (deref f n))"
  have new: "qty ?new k = qty u k"
    using ru.amount_limit [OF assms(4)] limits_of_down [OF assms(1-3,6,7)] by simp
  show ?thesis
  proof (cases "Equals ?old ?new")
    case True
    then have "qty ?old k = qty ?new k"
      using Equals_iff [OF go_quotas_deref(3) [OF assms(2)] distinct_FilterUnlimited] by (simp add: qty_def)
    then show ?thesis
      using True assms(5) new by (simp add: used_delta_def increase_def)
  next
    case False
    then have "ns_used_subtree (deref g p) =
        FilterUnlimited (Add (Subtract ?new ?old) (ns_used_subtree (deref f p))) (limits_of f p)"
      using assms(5,6) by (simp add: used_delta_def Let_def)
    then show ?thesis
      using assms(7) go_quotas_deref [OF assms(2)] new
      by (simp add: ru.amount_update distinct_FilterUnlimited increase_def)
  qed
qed

section \<open>Usages when a leaf changes its parent\<close>

lemma unlink_field:
  assumes "\<And>n c. fld (n\<lparr>ns_children := c\<rparr>) = fld n"
  shows "fld (deref (unlink_parent ns f) a) = fld (deref f a)"
proof (cases "ns_parent (deref f ns)")
  case (Some q)
  have "fld (deref (modify q (\<lambda>n. n\<lparr>ns_children := AList.delete (nm_of f ns) (ns_children n)\<rparr>) f) a) =
      fld (deref f a)"
    by (rule modify_field) (simp add: assms)
  then show ?thesis using Some by (simp add: unlink_parent_def Let_def)
qed (simp add: unlink_parent_def)

lemma link_field:
  assumes "\<And>n c. fld (n\<lparr>ns_children := c\<rparr>) = fld n" "\<And>n p. fld (n\<lparr>ns_parent := p\<rparr>) = fld n"
  shows "fld (deref (link_parent ns p f) a) = fld (deref f a)"
proof -
  let ?f = "modify ns (\<lambda>n. n\<lparr>ns_parent := p\<rparr>) f"
  have 1: "fld (deref ?f a) = fld (deref f a)"
    by (rule modify_field) (simp add: assms)
  show ?thesis
  proof (cases p)
    case None
    then show ?thesis using 1 by (simp add: link_parent_def)
  next
    case (Some q)
    have "fld (deref (modify q (\<lambda>n. n\<lparr>ns_children := AList.update (nm_of ?f ns) ns (ns_children n)\<rparr>) ?f) a) =
        fld (deref ?f a)"
      by (rule modify_field) (simp add: assms)
    then show ?thesis using 1 Some by (simp add: link_parent_def Let_def)
  qed
qed

lemma relinked_field:
  assumes "\<And>n c. fld (n\<lparr>ns_children := c\<rparr>) = fld n" "\<And>n p. fld (n\<lparr>ns_parent := p\<rparr>) = fld n"
  shows "fld (deref (relinked f ns p) a) = fld (deref f a)"
  using link_field [of fld, OF assms] unlink_field [of fld, OF assms(1)] by (simp add: relinked_def)

lemma relinked_quota_fields:
  "ns_limits (deref (relinked f ns p) a) = ns_limits (deref f a)"
  "ns_used_local (deref (relinked f ns p) a) = ns_used_local (deref f a)"
  "ns_used_subtree (deref (relinked f ns p) a) = ns_used_subtree (deref f a)"
  by (rule relinked_field; simp)+

lemma go_quotas_relinked: "go_quotas f \<Longrightarrow> go_quotas (relinked f ns p)"
  by (intro go_quotasI) (auto simp: relinked_quota_fields dest: go_quotas_deref)

lemma relinked_leaf_rtrancl:
  assumes "wf_forest f" "registered f ns" "can_relink f ns p" "ns_children (deref f ns) = []"
    and "registered f a" "a \<noteq> ns"
  shows "(a, b) \<in> (parent_rel (relinked f ns p))\<^sup>* \<longleftrightarrow> (a, b) \<in> (parent_rel f)\<^sup>*"
proof -
  note pr = relinked_parent_rel [OF assms(1-3)]
  have leaf: "ns_parent (deref f x) \<noteq> Some ns" if "registered f x" for x
    using that registered_parent [OF assms(1) that] assms(4) by auto
  have fwd: "registered f b \<and> b \<noteq> ns \<and> (a, b) \<in> (parent_rel f)\<^sup>*" if "(a, b) \<in> (parent_rel (relinked f ns p))\<^sup>*"
    using that
  proof (induction rule: rtrancl_induct)
    case (step b c)
    then have "ns_parent (deref f b) = Some c" using pr by auto
    then show ?case
      using step leaf registered_parent [OF assms(1)] by (auto intro: rtrancl_into_rtrancl)
  qed (use assms in auto)
  have bwd: "registered f b \<and> b \<noteq> ns \<and> (a, b) \<in> (parent_rel (relinked f ns p))\<^sup>*" if "(a, b) \<in> (parent_rel f)\<^sup>*"
    using that
  proof (induction rule: rtrancl_induct)
    case (step b c)
    then have "(b, c) \<in> parent_rel (relinked f ns p)" using pr by auto
    then show ?case
      using step leaf registered_parent [OF assms(1)] by (auto intro: rtrancl_into_rtrancl)
  qed (use assms in auto)
  show ?thesis using fwd bwd by blast
qed

lemma leaf_below:
  assumes "wf_forest f" "ns_children (deref f ns) = []" "(b, ns) \<in> (parent_rel f)\<^sup>*" "registered f b"
  shows "b = ns"
proof (rule ccontr)
  assume "b \<noteq> ns"
  then obtain c where "(b, c) \<in> (parent_rel f)\<^sup>*" "ns_parent (deref f c) = Some ns"
    using assms(3) by (metis parent_rel_iff rtranclE)
  then show False
    using registered_parent [OF assms(1)] registered_rtrancl [OF _ assms(1,4)] assms(2) by fastforce
qed

lemma relinked_limit_at: "limit_at (relinked f ns p) q k v = limit_at f q k v"
  by (simp add: limit_at_def relinked_quota_fields)

lemma relinked_local_qty: "local_qty (relinked f ns p) k b = local_qty f k b"
  by (simp add: local_qty_def relinked_quota_fields)

lemma relinked_leaf_limits:
  assumes "wf_forest f" "registered f ns" "can_relink f ns p" "ns_children (deref f ns) = []"
    and "go_quotas f" "registered (relinked f ns p) a" "a \<noteq> ns"
  shows "map_of (limits_of (relinked f ns p) a) k = None \<longleftrightarrow> map_of (limits_of f a) k = None"
proof -
  note rf = relinked_facts [OF assms(1-3)]
  have reg: "registered f a" using rf(2) assms(6) by blast
  show ?thesis
    unfolding limits_of_None [OF rf(1) go_quotas_relinked [OF assms(5)] assms(6)]
      limits_of_None [OF assms(1,5) reg] relinked_leaf_rtrancl [OF assms(1-4) reg assms(7)] relinked_limit_at ..
qed

lemma relinked_leaf_members:
  assumes "wf_forest f" "registered f ns" "can_relink f ns p" "ns_children (deref f ns) = []"
    and "registered (relinked f ns p) a" "a \<noteq> ns"
  shows "members (relinked f ns p) a - {ns} = members f a - {ns}"
proof (intro set_eqI)
  note rf = relinked_facts [OF assms(1-3)] and leaf = relinked_leaf_rtrancl [OF assms(1-4)]
  fix b
  have "\<not> dropped f ns b" if b: "registered f b" "(b, a) \<in> (parent_rel f)\<^sup>*"
  proof
    assume d: "dropped f ns b"
    then have "ns_parent (deref f b) = None"
      by (rule safe_dropD [OF can_relink_safe [OF assms(3)]])
    then have "a = b" using b(2) rtrancl_parent [of b] by fastforce
    then show False using d rf(2) assms(5) by blast
  qed
  then show "b \<in> members (relinked f ns p) a - {ns} \<longleftrightarrow> b \<in> members f a - {ns}"
    using leaf [of b a] rf(2) [of b] unfolding members_def by blast
qed

lemma relinked_leaf_self:
  assumes "wf_forest f" "registered f ns" "can_relink f ns p" "ns_children (deref f ns) = []"
  shows "members (relinked f ns p) ns \<subseteq> {ns}"
proof
  fix b assume "b \<in> members (relinked f ns p) ns"
  then have b: "registered f b" "(b, ns) \<in> (parent_rel (relinked f ns p))\<^sup>*"
    using relinked_facts(2) [OF assms(1-3)] by (auto simp: members_def)
  then show "b \<in> {ns}"
    using relinked_leaf_rtrancl [OF assms b(1), of ns] leaf_below [OF assms(1,4) _ b(1)] by blast
qed

lemma relinked_leaf_consistent:
  assumes "wf_forest f" "registered f ns" "can_relink f ns p" "ns_children (deref f ns) = []"
    and "go_quotas f" "usage_consistent f" "\<And>k. local_qty f k ns = 0"
  shows "usage_consistent (relinked f ns p)"
  unfolding usage_consistent_def relinked_quota_fields relinked_local_qty
proof (intro allI impI)
  let ?g = "relinked f ns p"
  fix a k assume a: "registered ?g a"
  note rf = relinked_facts [OF assms(1-3)]
  have sub: "qty (ns_used_subtree (deref f a)) k =
      (if map_of (limits_of f a) k = None then 0 else \<Sum>b \<in> members f a. local_qty f k b)"
    using assms(6) a rf(2) unfolding usage_consistent_def by blast
  have drop: "(\<Sum>b \<in> M. local_qty f k b) = (\<Sum>b \<in> M - {ns}. local_qty f k b)" if "finite M" for M
    using that assms(7) by (intro sum.mono_neutral_right) auto
  note drops = drop [OF finite_members [OF rf(1)]] drop [OF finite_members [OF assms(1)]]
  show "qty (ns_used_subtree (deref f a)) k =
      (if map_of (limits_of ?g a) k = None then 0 else \<Sum>b \<in> members ?g a. local_qty f k b)"
  proof (cases "a = ns")
    case True
    have "members f ns \<subseteq> {ns}" using leaf_below [OF assms(1,4)] unfolding members_def by blast
    then have e: "members f ns - {ns} = {}" "members ?g ns - {ns} = {}"
      using relinked_leaf_self [OF assms(1-4)] by blast+
    have "(\<Sum>b \<in> members f ns. local_qty f k b) = 0" "(\<Sum>b \<in> members ?g ns. local_qty f k b) = 0"
      using drops [of ns] unfolding e by simp_all
    then show ?thesis using sub True by simp
  next
    case False
    then show ?thesis
      using sub drops relinked_leaf_members [OF assms(1-4) a] relinked_leaf_limits [OF assms(1-5) a] by simp
  qed
qed

text \<open>Taking the usage of a namespace away leaves it no local usage.\<close>

lemma used_delta_empty:
  assumes "go_quotas f" "used_delta f n [] g"
  shows "local_qty g k n = 0"
proof -
  let ?old = "nil_map (ns_used_local (deref f n))"
  have new: "FilterUnlimited [] l = []" for l
    by (simp add: FilterUnlimited_def mask_def)
  show ?thesis
  proof (cases "Equals ?old []")
    case True
    then have "qty ?old k = 0"
      using Equals_iff [OF go_quotas_deref(3) [OF assms(1)], of "[]"] by (simp add: qty_def)
    then show ?thesis
      using True assms(2) by (simp add: used_delta_def new local_qty_def)
  next
    case False
    then show ?thesis
      using assms(2) by (simp add: used_delta_def new local_qty_def Let_def qty_def)
  qed
qed

lemma SetParent_leaf_consistent:
  assumes "wf_forest f" "registered f ns" "can_relink f ns p" "ns_children (deref f ns) = []"
    and "go_quotas f" "usage_consistent f" "acyclic_forest f" "CanSetParent f ns p = ''''"
    and "SetParent ns p f = Some g"
  shows "usage_consistent g"
proof (cases "ns_used_local (deref f ns)")
  case None
  then have "local_qty f k ns = 0" for k by (simp add: local_qty_def qty_def)
  then show ?thesis
    using relinked_leaf_consistent [OF assms(1-6)] assms(9) None by (simp add: SetParent_def relinked_def)
next
  case (Some u)
  obtain f1 where f1: "UseResources ns [] f = Some f1" "usage_only f f1" "used_delta f ns [] f1"
    using UseResources_effect [OF assms(1,2) acyclic_forest_ns [OF assms(1,7,2)]] by blast
  have sh: "wf_forest f1" "registered f1 ns" "can_relink f1 ns p" "ns_children (deref f1 ns) = []"
    "acyclic_forest f1" "CanSetParent f1 ns p = ''''"
    using assms usage_only_can_relink [OF f1(2)]
    by (simp_all add: shape_simps [OF usage_only_shape [OF f1(2)]] acyclic_forest_def)
  have go1: "go_quotas f1" "usage_consistent f1"
    using used_delta_go_quotas [OF assms(5) f1(2,3)] used_delta_consistent [OF assms(1,5,2) _ assms(6) f1(2,3)]
    by simp_all
  let ?f2 = "relinked f1 ns p"
  note rf = relinked_facts [OF sh(1-3)]
  have f2: "wf_forest ?f2" "registered ?f2 ns" "go_quotas ?f2" "acyclic_ns ?f2 ns"
    using rf(1,2) sh(2) not_self_dropped [OF can_relink_safe [OF sh(3)]] go_quotas_relinked [OF go1(1)]
      acyclic_forest_ns [OF rf(1) relinked_acyclic [OF sh(1-3,5,6)]] by auto
  have c2: "usage_consistent ?f2"
    using relinked_leaf_consistent [OF sh(1-4) go1 used_delta_empty [OF assms(5) f1(3)]] .
  have "distinct_keys u" using go_quotas_deref(3) [OF assms(5), of ns] Some by simp
  moreover have "UseResources ns u ?f2 = Some g"
    using assms(9) f1(1) Some by (simp add: SetParent_def relinked_def)
  moreover obtain g' where "UseResources ns u ?f2 = Some g'" "usage_only ?f2 g'" "used_delta ?f2 ns u g'"
    using UseResources_effect [OF f2(1,2,4)] by blast
  ultimately show ?thesis
    using used_delta_consistent [OF f2(1,3,2) _ c2] by simp
qed

section \<open>UnsetExists and SetExists keep the forest well formed\<close>

lemma wf_clean [wf_intros]:
  assumes "wf_forest f" "registered f ns" "ns_parent (deref f ns) = None"
  shows "wf_forest (clean ns f)"
proof (cases "ns_exists (deref f ns) \<or> length (ns_children (deref f ns)) > 0")
  case False
  let ?g = "clean ns f"
  have ns: "f_namespaces ?g = AList.delete (nm_of f ns) (f_namespaces f)" "ns_children (deref f ns) = []"
    using False by (simp_all add: clean_def Let_def)
  have reg: "registered ?g a \<longleftrightarrow> registered f a \<and> a \<noteq> ns" for a
  proof (cases "nm_of f a = nm_of f ns")
    case True
    then have "registered f a \<Longrightarrow> a = ns" using registered_inj assms(2) by blast
    then show ?thesis using True by (auto simp: registered_def ns map_of_delete')
  next
    case False
    then show ?thesis by (auto simp: registered_def ns map_of_delete')
  qed
  show ?thesis
  proof (rule wf_forestI)
    show "distinct_keys (f_namespaces ?g)"
      using wf_distinct [OF assms(1)] by (simp add: ns distinct_keys_delete)
    show "nm \<noteq> '''' \<and> valid ?g a \<and> nm_of ?g a = nm \<and> distinct_keys (ns_children (deref ?g a))"
      if "map_of (f_namespaces ?g) nm = Some a" for nm a
      using wf_lookup [OF assms(1), of nm a] that
      by (auto simp: wf_entry_def ns map_of_delete' split: if_splits)
    show "registered ?g p \<and> map_of (ns_children (deref ?g p)) (nm_of ?g a) = Some a"
      if "registered ?g a" "ns_parent (deref ?g a) = Some p" for a p
      using that registered_parent [OF assms(1), of a p] ns(2) by (auto simp: reg)
    show "registered ?g b \<and> nm_of ?g b = c \<and> ns_parent (deref ?g b) = Some a"
      if "registered ?g a" "map_of (ns_children (deref ?g a)) c = Some b" for a c b
      using that registered_child [OF assms(1), of a c b] assms(3) by (auto simp: reg)
  qed
qed (simp add: clean_def assms(1))

lemma same_shape_exists: "same_shape f (modify ns (\<lambda>n. n\<lparr>ns_exists := e\<rparr>) f)"
  by (rule same_shape_modify) simp_all

lemma wf_SetExists [wf_intros]: "wf_forest f \<Longrightarrow> wf_forest (snd (SetExists ns f))"
  by (simp add: SetExists_def shape_simps [OF same_shape_exists])

lemma relinked_exists: "ns_exists (deref (relinked f ns p) a) = ns_exists (deref f a)"
  by (rule relinked_field) simp_all

lemma parents_exist_SetParent:
  assumes "wf_forest f" "registered f ns" "can_relink f ns p" "parents_exist f"
    and "ns_exists (deref f ns) \<or> p = None" "SetParent ns p f = Some g"
  shows "parents_exist g"
proof -
  obtain g' where g': "SetParent ns p f = Some g'" "usage_only (relinked f ns p) g'"
    using SetParent_total [OF assms(1-3)] by blast
  note sh = shape_simps [OF usage_only_shape [OF g'(2)]] and rf = relinked_facts [OF assms(1-3)]
  have "wf_forest g'" using rf(1) by (simp add: sh)
  then have "parents_exist g'"
    using rf assms(4,5)
    by (auto simp: parents_exist_iff [OF assms(1)] parents_exist_iff [of g']
        sh usage_only_exists [OF g'(2)] relinked_exists)
  then show ?thesis using g' assms(6) by simp
qed

lemma UnsetExists_total:
  assumes "wf_forest f" "registered f ns" "parents_exist f"
  shows "\<exists>g. UnsetExists ns f = Some (ns_exists (deref f ns), g) \<and> wf_forest g \<and> parents_exist g \<and>
    \<not> ns_exists (deref g ns) \<and> ns_parent (deref g ns) = None \<and>
    (registered g ns \<longleftrightarrow> ns_children (deref g ns) \<noteq> [])"
proof -
  have can: "can_relink f ns None"
    using parents_exist_safe [OF assms(1,3,2)] by (simp add: can_relink_def)
  obtain g where g: "SetParent ns None f = Some g" "usage_only (relinked f ns None) g"
    using SetParent_total [OF assms(1,2) can] by blast
  note rf = relinked_facts [OF assms(1,2) can]
  note sh = usage_only_shape [OF g(2)]
  let ?h = "modify ns (\<lambda>n. n\<lparr>ns_exists := False\<rparr>) g"
  note shh = same_shape_exists [of g ns False]
  have wf: "wf_forest g" and reg: "registered g ns" and par: "ns_parent (deref g ns) = None"
    using rf assms not_self_dropped [OF can_relink_safe [OF can]] by (auto simp: shape_simps [OF sh])
  have wfh: "wf_forest ?h" and regh: "registered ?h ns" and parh: "ns_parent (deref ?h ns) = None"
    using wf reg par by (simp_all add: shape_simps [OF shh])
  have exh: "ns_exists (deref ?h a) = (a \<noteq> ns \<and> ns_exists (deref g a))" for a
    using registered_valid [OF wf reg] by (simp add: deref_modify)
  have "registered (clean ns ?h) ns \<longleftrightarrow> ns_children (deref ?h ns) \<noteq> []"
    using exh regh by (auto simp: registered_def clean_def Let_def map_of_delete' deref_set_namespaces)
  moreover have "parents_exist (clean ns ?h)"
  proof -
    have "parents_exist g"
      using parents_exist_SetParent [OF assms(1,2) can assms(3) _ g(1)] by simp
    then have "ns_exists (deref ?h a) \<or> ns_parent (deref ?h a) = None" if "registered g a" for a
      using that par by (cases "a = ns") (auto simp: parents_exist_iff [OF wf] exh shape_simps [OF shh])
    then have "parents_exist ?h"
      by (auto simp: parents_exist_iff [OF wfh] shape_simps [OF shh])
    then show ?thesis
      by (auto simp: parents_exist_def clean_def Let_def list_all_iff deref_set_namespaces set_delete_mem)
  qed
  ultimately show ?thesis
    using g(1) wf_clean [OF wfh regh parh] exh parh by (simp add: UnsetExists_def)
qed

end

