(* ===== verification/Forest_Properties.thy ===== *)
theory Forest_Properties
  imports Quota_Safety
begin

text \<open>
  The properties of the forest: what its walks return, when a change of parent is safe, and that
  the structural operations keep it well formed. The example forests are built by the
  operations of the model.
\<close>

section \<open>Executable forms of the hypotheses\<close>

lemma acyclic_forest_check:
  assumes "wf_forest f" "list_all (\<lambda>(nm, a). CycleNames f a = []) (f_namespaces f)"
  shows "acyclic_forest f"
  unfolding acyclic_forest_def
proof (intro allI impI)
  fix a assume a: "registered f a"
  then have "(nm_of f a, a) \<in> set (f_namespaces f)" by (auto simp: registered_def dest: map_of_SomeD)
  then show "\<not> in_cycle f a"
    using assms CycleNames_in_cycle [OF assms(1) a] by (auto simp: list_all_iff)
qed

lemma ancestor_check:
  "wf_forest f \<Longrightarrow> registered f a \<Longrightarrow> registered f b \<Longrightarrow> nm_of f b \<in> set (AncestryNames f (Some a)) \<Longrightarrow>
   (a, b) \<in> (parent_rel f)\<^sup>*"
  by (simp add: name_in_AncestryNames)

section \<open>Example forests\<close>

text \<open>Three existing namespaces in a line, \<open>a\<close> above \<open>b\<close> above \<open>c\<close>, and a cycle of two.\<close>

definition ex_line :: Forest where
  "ex_line = the (do {
     let f = snd (Get ''c'' (snd (Get ''b'' (snd (Get ''a'' NewForest)))));
     let f = fold (\<lambda>a f. snd (SetExists a f)) [0, 1, 2] f;
     f \<leftarrow> SetParent 1 (Some 0) f;
     SetParent 2 (Some 1) f })"

definition ex_cycle :: Forest where
  "ex_cycle = the (do {
     let f = snd (Get ''a'' (snd (Get ''b'' NewForest)));
     let f = fold (\<lambda>a f. snd (SetExists a f)) [0, 1] f;
     f \<leftarrow> SetParent 1 (Some 0) f;
     SetParent 0 (Some 1) f })"

lemma ex_line_facts:
  "wf_forest ex_line" "registered ex_line 0" "registered ex_line 1" "registered ex_line 2"
  "ns_children (deref ex_line 2) = []" "can_relink ex_line 2 (Some 0)" "can_relink ex_line 0 (Some 2)"
  "parents_exist ex_line"
  by code_simp+

lemma ex_line_acyclic: "acyclic_forest ex_line"
  by (rule acyclic_forest_check) code_simp+

lemma ex_line_acyclic_ns: "acyclic_ns ex_line 2"
  by (rule acyclic_forest_ns [OF ex_line_facts(1) ex_line_acyclic ex_line_facts(4)])

lemma ex_cycle_facts: "wf_forest ex_cycle" "registered ex_cycle 0" "registered ex_cycle 1"
  by code_simp+

lemma ex_cycle_rel: "(0, 1) \<in> (parent_rel ex_cycle)\<^sup>*" "(1, 0) \<in> (parent_rel ex_cycle)\<^sup>*"
  by (rule ancestor_check [OF ex_cycle_facts(1)]; code_simp)+

section \<open>Walks towards the root\<close>

text \<open>
  C36: \<^verbatim>\<open>AncestryNames\<close> ends with the namespace itself and lists the names of exactly
  its ancestors; when none of them is in a cycle, each is listed once and the first one is a root.
\<close>

theorem AncestryNames_ancestors:
  assumes "wf_forest f" "registered f a"
  shows "last (AncestryNames f (Some a)) = nm_of f a \<and>
    set (AncestryNames f (Some a)) = nm_of f ` {b. (a, b) \<in> (parent_rel f)\<^sup>*} \<and>
    (acyclic_ns f a \<longrightarrow> distinct (AncestryNames f (Some a)) \<and>
       (\<exists>r. (a, r) \<in> (parent_rel f)\<^sup>* \<and> ns_parent (deref f r) = None \<and>
          hd (AncestryNames f (Some a)) = nm_of f r))"
proof -
  have "(a, last (ancestry_ptrs f (Some a) {})) \<in> (parent_rel f)\<^sup>*"
    by (rule ancestry_ptrs_rtrancl [where seen = "{}"]) simp
  then show ?thesis
    using acyclic_ancestry [OF assms] last_AncestryNames set_AncestryNames [OF assms] hd_AncestryNames
    unfolding acyclic_ns_def by metis
qed

theorem AncestryNames_ancestors_witness:
  "wf_forest ex_line \<and> AncestryNames ex_line (Some 2) = [''a'', ''b'', ''c''] \<and>
   distinct (AncestryNames ex_line (Some 2))"
proof -
  have "AncestryNames ex_line (Some 2) = [''a'', ''b'', ''c'']" by code_simp
  then show ?thesis
    using AncestryNames_ancestors [OF ex_line_facts(1,4)] ex_line_acyclic_ns ex_line_facts(1) by blast
qed

text \<open>
  \<^verbatim>\<open>CycleNames\<close> returns a non-nil list exactly when the namespace is its own
  proper ancestor.
\<close>

theorem CycleNames_detects:
  assumes "wf_forest f" "registered f a"
  shows "CycleNames f a \<noteq> [] \<longleftrightarrow> (a, a) \<in> (parent_rel f)\<^sup>+"
  using CycleNames_in_cycle [OF assms] by (simp add: in_cycle_def)

theorem CycleNames_detects_witness:
  "(0, 0) \<in> (parent_rel ex_cycle)\<^sup>+ \<and> (2, 2) \<notin> (parent_rel ex_line)\<^sup>+"
proof
  have "CycleNames ex_cycle 0 \<noteq> []" by code_simp
  then show "(0, 0) \<in> (parent_rel ex_cycle)\<^sup>+"
    using CycleNames_detects [OF ex_cycle_facts(1,2)] by blast
  have "CycleNames ex_line 2 = []" by code_simp
  then show "(2, 2) \<notin> (parent_rel ex_line)\<^sup>+"
    using CycleNames_detects [OF ex_line_facts(1,4)] by blast
qed

text \<open>
  C35: all namespaces of a cycle return the same list from \<^verbatim>\<open>CycleNames\<close>, and for
  the member with the smallest name it is its \<^verbatim>\<open>AncestryNames\<close>.
\<close>

theorem CycleNames_canonical:
  assumes "wf_forest f" "registered f a" "registered f b"
    and "(a, b) \<in> (parent_rel f)\<^sup>*" "(b, a) \<in> (parent_rel f)\<^sup>+"
    and "\<And>c. (a, c) \<in> (parent_rel f)\<^sup>* \<Longrightarrow> nm_of f a \<le> nm_of f c"
  shows "CycleNames f b = CycleNames f a \<and> CycleNames f a = AncestryNames f (Some a)"
proof -
  have "in_cycle f a"
    using rtrancl_trancl_trancl [OF assms(4,5)] by (simp add: in_cycle_def)
  then show ?thesis
    using CycleNames_member [OF assms(1,2,4) trancl_into_rtrancl [OF assms(5)]]
      CycleNames_smallest [OF assms(1,2) _ assms(6)] by simp
qed

theorem CycleNames_canonical_witness:
  "CycleNames ex_cycle 0 = AncestryNames ex_cycle (Some 1) \<and> CycleNames ex_cycle 0 = [''a'', ''b'', ''a'']"
proof -
  have "(0, 1) \<in> (parent_rel ex_cycle)\<^sup>+"
    using ex_cycle_rel(1) by (simp add: rtrancl_eq_or_trancl)
  moreover have "nm_of ex_cycle 1 \<le> nm_of ex_cycle c" if "(1, c) \<in> (parent_rel ex_cycle)\<^sup>*" for c
  proof -
    have "c \<in> set (ancestry_ptrs ex_cycle (Some 1) {})"
      using that set_ancestry_ptrs [OF ex_cycle_facts(1,3)] by blast
    moreover have "ancestry_ptrs ex_cycle (Some 1) {} = [1, 0, 1]" by code_simp
    ultimately have "c \<in> set [1, 0, 1]" by simp
    moreover have "list_all (\<lambda>c. nm_of ex_cycle 1 \<le> nm_of ex_cycle c) [1, 0, 1]" by code_simp
    ultimately show ?thesis by (metis list_all_iff)
  qed
  ultimately have "CycleNames ex_cycle 0 = CycleNames ex_cycle 1 \<and>
      CycleNames ex_cycle 1 = AncestryNames ex_cycle (Some 1)"
    by (rule CycleNames_canonical [OF ex_cycle_facts(1,3,2) ex_cycle_rel(2)])
  moreover have "CycleNames ex_cycle 0 = [''a'', ''b'', ''a'']" by code_simp
  ultimately show ?thesis by simp
qed

section \<open>Changing the parent\<close>

text \<open>
  C10: \<^verbatim>\<open>CanSetParent\<close> returns the empty string exactly when the
  \<^verbatim>\<open>SetParent\<close> that it is asked about, which always returns, leaves the namespace
  outside any cycle.
\<close>

theorem CanSetParent_prevents_cycles:
  assumes "wf_forest f" "registered f ns" "can_relink f ns (Some q)"
  shows "\<exists>g. SetParent ns (Some q) f = Some g \<and>
    (CanSetParent f ns (Some q) = '''' \<longleftrightarrow> (ns, ns) \<notin> (parent_rel g)\<^sup>+)"
proof -
  obtain g where g: "SetParent ns (Some q) f = Some g" "usage_only (relinked f ns (Some q)) g"
    using SetParent_total [OF assms] by blast
  then show ?thesis
    using relinked_cycle [OF assms] same_shape_in_cycle [OF usage_only_shape [OF g(2)]]
    by (auto simp: in_cycle_def)
qed

theorem CanSetParent_prevents_cycles_witness:
  "(\<exists>g. SetParent 2 (Some 0) ex_line = Some g \<and> (2, 2) \<notin> (parent_rel g)\<^sup>+) \<and>
   (\<exists>g. SetParent 0 (Some 2) ex_line = Some g \<and> (0, 0) \<in> (parent_rel g)\<^sup>+)"
proof
  have "CanSetParent ex_line 2 (Some 0) = ''''" by code_simp
  then show "\<exists>g. SetParent 2 (Some 0) ex_line = Some g \<and> (2, 2) \<notin> (parent_rel g)\<^sup>+"
    using CanSetParent_prevents_cycles [OF ex_line_facts(1,4,6)] by blast
  have "CanSetParent ex_line 0 (Some 2) \<noteq> ''''" by code_simp
  then show "\<exists>g. SetParent 0 (Some 2) ex_line = Some g \<and> (0, 0) \<in> (parent_rel g)\<^sup>+"
    using CanSetParent_prevents_cycles [OF ex_line_facts(1,2,7)] by blast
qed

text \<open>
  C11: \<^verbatim>\<open>SetParent\<close> returns and keeps the forest well formed: the namespace gets the
  new parent, no other parent changes, and the only namespace that may leave the forest is an
  old parent that does not exist and has lost its last child. When
  \<^verbatim>\<open>CanSetParent\<close> allows the change, a forest without cycles stays without cycles.
\<close>

theorem SetParent_wf:
  assumes "wf_forest f" "registered f ns" "can_relink f ns p"
  shows "\<exists>g. SetParent ns p f = Some g \<and> wf_forest g \<and>
    (\<forall>a. ns_parent (deref g a) = (if a = ns then p else ns_parent (deref f a))) \<and>
    (\<forall>a. registered g a \<longleftrightarrow> registered f a \<and> \<not> dropped f ns a) \<and>
    (acyclic_forest f \<longrightarrow> CanSetParent f ns p = '''' \<longrightarrow> acyclic_forest g)"
proof -
  obtain g where g: "SetParent ns p f = Some g" "usage_only (relinked f ns p) g"
    using SetParent_total [OF assms] by blast
  note sh = usage_only_shape [OF g(2)] and rf = relinked_facts [OF assms]
  show ?thesis
    using g(1) rf relinked_acyclic [OF assms]
    by (auto simp: shape_simps [OF sh] acyclic_forest_def)
qed

theorem SetParent_wf_witness:
  "\<exists>g. SetParent 2 (Some 0) ex_line = Some g \<and> wf_forest g \<and> acyclic_forest g \<and>
     ns_parent (deref g 2) = Some 0"
proof -
  have "CanSetParent ex_line 2 (Some 0) = ''''" by code_simp
  then show ?thesis
    using SetParent_wf [OF ex_line_facts(1,4,6)] ex_line_acyclic by auto
qed

text \<open>
  C12: \<^verbatim>\<open>UnsetExists\<close> returns whether the namespace existed, keeps the forest well
  formed with every namespace that has a parent existing, leaves the namespace without a parent, and drops it from the forest exactly when it has no
  children.
\<close>

theorem UnsetExists_wf:
  assumes "wf_forest f" "registered f ns" "parents_exist f"
  shows "\<exists>g. UnsetExists ns f = Some (ns_exists (deref f ns), g) \<and> wf_forest g \<and> parents_exist g \<and>
    \<not> ns_exists (deref g ns) \<and> ns_parent (deref g ns) = None \<and>
    (registered g ns \<longleftrightarrow> ns_children (deref g ns) \<noteq> [])"
  by (rule UnsetExists_total [OF assms])

theorem UnsetExists_wf_witness:
  "(\<exists>g. UnsetExists 1 ex_line = Some (True, g) \<and> wf_forest g \<and> registered g 1) \<and>
   (\<exists>g. UnsetExists 2 ex_line = Some (True, g) \<and> wf_forest g \<and> \<not> registered g 2)"
proof
  have "ns_exists (deref ex_line 1)" "ns_exists (deref ex_line 2)"
    "ns_children (deref (snd (the (UnsetExists 1 ex_line))) 1) \<noteq> []"
    "ns_children (deref (snd (the (UnsetExists 2 ex_line))) 2) = []"
    by code_simp+
  note facts = this
  show "\<exists>g. UnsetExists 1 ex_line = Some (True, g) \<and> wf_forest g \<and> registered g 1"
    using UnsetExists_wf [OF ex_line_facts(1,3,8)] facts by auto
  show "\<exists>g. UnsetExists 2 ex_line = Some (True, g) \<and> wf_forest g \<and> \<not> registered g 2"
    using UnsetExists_wf [OF ex_line_facts(1,4,8)] facts by auto
qed

section \<open>Descendants\<close>

text \<open>
  C32: \<^verbatim>\<open>DescendantNames\<close> terminates also when there are cycles, changes nothing in
  the forest, and returns the sorted list, without duplicates, of the names of all namespaces that have
  the given one as a proper ancestor; \<^verbatim>\<open>FullDescendantNames\<close> does the same for those
  that are not subnamespaces.
\<close>

theorem DescendantNames_closure:
  assumes "wf_forest f" "registered f a"
  shows "(\<exists>ds. DescendantNames a f = Some (ds, f) \<and> sorted ds \<and> distinct ds \<and>
      set ds = {nm_of f b | b. registered f b \<and> (b, a) \<in> (parent_rel f)\<^sup>+}) \<and>
    (\<exists>ds. FullDescendantNames a f = Some (ds, f) \<and> sorted ds \<and> distinct ds \<and>
      set ds = {nm_of f b | b. registered f b \<and> (b, a) \<in> (parent_rel f)\<^sup>+ \<and> \<not> ns_IsSub (deref f b)})"
  using DescendantNames_eq [OF assms] FullDescendantNames_eq [OF assms]
  by (simp add: desc_names_def conj_commute conj_left_commute)

theorem DescendantNames_closure_witness:
  "DescendantNames 0 ex_line = Some ([''b'', ''c''], ex_line) \<and>
   (\<exists>b. nm_of ex_line b = ''c'' \<and> (b, 0) \<in> (parent_rel ex_line)\<^sup>+)"
proof -
  have eval: "DescendantNames 0 ex_line = Some ([''b'', ''c''], ex_line)" by code_simp
  then have "set [''b'', ''c''] = {nm_of ex_line b | b. registered ex_line b \<and> (b, 0) \<in> (parent_rel ex_line)\<^sup>+}"
    using DescendantNames_closure [OF ex_line_facts(1,2)] by auto
  moreover have "''c'' \<in> set [''b'', ''c'']" by simp
  ultimately have "''c'' \<in> {nm_of ex_line b | b. registered ex_line b \<and> (b, 0) \<in> (parent_rel ex_line)\<^sup>+}"
    by metis
  then show ?thesis using eval by auto
qed

section \<open>Cascading deletion\<close>

text \<open>
  \<^verbatim>\<open>AllowsCascadingDeletion\<close> only returns true when the namespace or one of its
  ancestors allows it, and returns true whenever one does unless the ancestry runs into a cycle. In a
  cycle it may miss a flag that another member has, but it still returns.
\<close>

theorem AllowsCascadingDeletion_ancestors:
  assumes "wf_forest f" "registered f a"
  shows "(AllowsCascadingDeletion f a \<longrightarrow>
      (\<exists>b. (a, b) \<in> (parent_rel f)\<^sup>* \<and> ns_allowCascadingDeletion (deref f b))) \<and>
    (acyclic_ns f a \<longrightarrow> (\<exists>b. (a, b) \<in> (parent_rel f)\<^sup>* \<and> ns_allowCascadingDeletion (deref f b)) \<longrightarrow>
      AllowsCascadingDeletion f a)"
  using AllowsCascadingDeletion_sound AllowsCascadingDeletion_complete [OF assms] by blast

theorem AllowsCascadingDeletion_ancestors_witness:
  "AllowsCascadingDeletion (snd (UpdateAllowCascadingDeletion 0 True ex_line)) 2"
proof -
  let ?f = "snd (UpdateAllowCascadingDeletion 0 True ex_line)"
  have wf: "wf_forest ?f" "registered ?f 2" "registered ?f 0" by code_simp+
  have "acyclic_forest ?f" by (rule acyclic_forest_check [OF wf(1)]) code_simp
  then have ac: "acyclic_ns ?f 2" using acyclic_forest_ns wf(1,2) by blast
  have "(2, 0) \<in> (parent_rel ?f)\<^sup>*" by (rule ancestor_check [OF wf]) code_simp
  moreover have "ns_allowCascadingDeletion (deref ?f 0)" by code_simp
  ultimately show ?thesis
    using AllowsCascadingDeletion_ancestors [OF wf(1,2)] ac by blast
qed

end
