(* ===== verification/Config.thy ===== *)
theory Config
  imports HNC_API
begin

text \<open>
  The global configuration, \<^verbatim>\<open>internal/config/namespace.go\<close> and
  \<^verbatim>\<open>validator.go\<close>, the namespace mutator
  \<^verbatim>\<open>internal/namespace/mutator.go\<close>, and \<^verbatim>\<open>IsHNCServiceAccount\<close> of
  \<^verbatim>\<open>internal/webhooks/webhooks.go\<close>.

  The package variables are the fields of a record. A compiled regular expression is the set of
  strings it matches, so \<^verbatim>\<open>regexp.Compile\<close> is the argument \<open>compile\<close>, which gives
  an error or such a set. The checks of qualified names and label values are code of the Kubernetes
  API machinery and are arguments too.
\<close>

type_synonym regex = "string \<Rightarrow> bool"

record NoPropagationLabel =
  npl_Key :: string
  npl_Value :: string

record Config =
  excludedNamespaces :: "(string, bool) gomap"
  includedNamespacesRegex :: "regex option"
  includedNamespacesStr :: string
  managedLabels :: "regex list"
  managedAnnotations :: "regex list"
  hncNamespace :: string
  UnpropagatedAnnotations :: "string list"
  UnpropagatedLabels :: "string list"
  NoPropagationLabels :: "NoPropagationLabel list"

section \<open>Managed namespaces\<close>

text \<open>\<^verbatim>\<open>regexp.MustCompile\<close> panics on an illegal pattern: \<open>None\<close>.\<close>

definition SetNamespaces :: "(string \<Rightarrow> string + regex) \<Rightarrow> string \<Rightarrow> string list \<Rightarrow> Config \<Rightarrow> Config option" where
  "SetNamespaces compile regex excluded c =
     (let regex = (if regex = '''' then ''.*'' else regex); str = ''^'' @ regex @ ''$'' in
      case compile str of
        Inl err \<Rightarrow> None
      | Inr r \<Rightarrow> Some (c\<lparr>includedNamespacesStr := str, includedNamespacesRegex := Some r,
          excludedNamespaces := fold (\<lambda>exn m. AList.update exn True m) excluded []\<rparr>))"

definition WhyUnmanaged :: "Config \<Rightarrow> string \<Rightarrow> string" where
  "WhyUnmanaged c nm =
     (if nm = '''' then ''''
      else if map_of (excludedNamespaces c) nm = Some True then ''excluded by the HNC administrator''
      else (case includedNamespacesRegex c of
          None \<Rightarrow> ''''
        | Some r \<Rightarrow> if \<not> r nm
            then ''does not match the regex set by the HNC administrator: `'' @ includedNamespacesStr c @ ''`''
            else ''''))"

definition IsManagedNamespace :: "Config \<Rightarrow> string \<Rightarrow> bool" where
  "IsManagedNamespace c nm = (WhyUnmanaged c nm = '''')"

lemma IsManagedNamespace_empty [simp]: "IsManagedNamespace c ''''"
  by (simp add: IsManagedNamespace_def WhyUnmanaged_def)

lemma IsManagedNamespace_iff:
  "IsManagedNamespace c nm \<longleftrightarrow> nm = '''' \<or>
     map_of (excludedNamespaces c) nm \<noteq> Some True \<and>
     (\<forall>r. includedNamespacesRegex c = Some r \<longrightarrow> r nm)"
  by (auto simp: IsManagedNamespace_def WhyUnmanaged_def split: option.splits)

section \<open>Managed labels and annotations\<close>

text \<open>
  The list of compiled patterns is returned with the error, because the function appends to the
  package variable as it goes and returns at the first bad pattern.
\<close>

fun setManagedMeta ::
  "(string \<Rightarrow> string + regex) \<Rightarrow> string list \<Rightarrow> string \<Rightarrow> regex list \<Rightarrow> regex list \<times> string option" where
  "setManagedMeta compile [] opt_name regexes = (regexes, None)"
| "setManagedMeta compile (p # patterns) opt_name regexes =
     (case compile (''^'' @ p @ ''$'') of
        Inl err \<Rightarrow> (regexes, Some (''illegal value for '' @ opt_name @ '' '' @ quote p @ '': '' @ err))
      | Inr r \<Rightarrow> if r MetaGroup
          then (regexes, Some (''illegal value for '' @ opt_name @ '' '' @ quote p @
                 '': cannot specify a pattern that matches '' @ quote MetaGroup))
          else setManagedMeta compile patterns opt_name (regexes @ [r]))"

definition SetManagedMeta ::
  "(string \<Rightarrow> string + regex) \<Rightarrow> string list \<Rightarrow> string list \<Rightarrow> Config \<Rightarrow> string option \<times> Config" where
  "SetManagedMeta compile labels annots c =
     (let (rs, err) = setManagedMeta compile labels ''--managed-namespace-label'' [];
          c = c\<lparr>managedLabels := rs\<rparr>
      in if err \<noteq> None then (err, c)
         else (let (rs, err) = setManagedMeta compile annots ''--managed-namespace-annotation'' []
               in (err, c\<lparr>managedAnnotations := rs\<rparr>)))"

definition IsManagedLabel :: "Config \<Rightarrow> string \<Rightarrow> bool" where
  "IsManagedLabel c k = list_ex (\<lambda>regex. regex k) (managedLabels c)"

definition IsManagedAnnotation :: "Config \<Rightarrow> string \<Rightarrow> bool" where
  "IsManagedAnnotation c k = list_ex (\<lambda>regex. regex k) (managedAnnotations c)"

section \<open>Validation of managed metadata\<close>

record FieldError =
  fe_field :: string
  fe_value :: string
  fe_detail :: string

record K8sValidation =
  kv_IsQualifiedName :: "string \<Rightarrow> string list"
  kv_IsValidLabelValue :: "string \<Rightarrow> string list"

definition validateMetaKey :: "K8sValidation \<Rightarrow> string \<Rightarrow> string \<Rightarrow> FieldError option" where
  "validateMetaKey kv k path =
     (let errs = kv_IsQualifiedName kv k in
      if length errs \<noteq> 0 then Some \<lparr>fe_field = path, fe_value = k, fe_detail = Join errs ''; ''\<rparr> else None)"

definition validateLabelValue :: "K8sValidation \<Rightarrow> string \<Rightarrow> string \<Rightarrow> string \<Rightarrow> FieldError option" where
  "validateLabelValue kv k v path =
     (let errs = kv_IsValidLabelValue kv v in
      if length errs \<noteq> 0
      then Some \<lparr>fe_field = path @ ''['' @ k @ '']'', fe_value = v, fe_detail = Join errs ''; ''\<rparr> else None)"

definition ValidateManagedLabels :: "K8sValidation \<Rightarrow> Config \<Rightarrow> MetaKVP list \<Rightarrow> FieldError list" where
  "ValidateManagedLabels kv c labels = fold (\<lambda>l allErrs.
     (let fldPath = ''spec.labels'';
          allErrs = (case validateMetaKey kv (kvp_key l) fldPath of
              Some fldErr \<Rightarrow> allErrs @ [fldErr]
            | None \<Rightarrow> if \<not> IsManagedLabel c (kvp_key l)
                then allErrs @ [\<lparr>fe_field = fldPath, fe_value = kvp_key l,
                       fe_detail = ''not a managed label and cannot be configured''\<rparr>]
                else allErrs)
      in case validateLabelValue kv (kvp_key l) (kvp_value l) fldPath of
           Some fldErr \<Rightarrow> allErrs @ [fldErr]
         | None \<Rightarrow> allErrs)) labels []"

definition ValidateManagedAnnotations :: "K8sValidation \<Rightarrow> Config \<Rightarrow> MetaKVP list \<Rightarrow> FieldError list" where
  "ValidateManagedAnnotations kv c annotations = fold (\<lambda>a allErrs.
     (let fldPath = ''spec.annotations'' in
      case validateMetaKey kv (kvp_key a) fldPath of
        Some fldErr \<Rightarrow> allErrs @ [fldErr]
      | None \<Rightarrow> if \<not> IsManagedAnnotation c (kvp_key a)
          then allErrs @ [\<lparr>fe_field = fldPath, fe_value = kvp_key a,
                 fe_detail = ''not a managed annotation and cannot be configured''\<rparr>]
          else allErrs)) annotations []"

lemma fold_append_concat: "fold (\<lambda>x acc. acc @ g x) xs acc = acc @ concat (map g xs)"
  by (induction xs arbitrary: acc) auto

lemma ValidateManagedLabels_ok:
  "ValidateManagedLabels kv c labels = [] \<longleftrightarrow>
     (\<forall>l \<in> set labels. kv_IsQualifiedName kv (kvp_key l) = [] \<and> IsManagedLabel c (kvp_key l) \<and>
        kv_IsValidLabelValue kv (kvp_value l) = [])"
proof -
  let ?g = "\<lambda>l. (case validateMetaKey kv (kvp_key l) ''spec.labels'' of
              Some fldErr \<Rightarrow> [fldErr]
            | None \<Rightarrow> if \<not> IsManagedLabel c (kvp_key l)
                then [\<lparr>fe_field = ''spec.labels'', fe_value = kvp_key l,
                       fe_detail = ''not a managed label and cannot be configured''\<rparr>] else []) @
     (case validateLabelValue kv (kvp_key l) (kvp_value l) ''spec.labels'' of Some fldErr \<Rightarrow> [fldErr] | None \<Rightarrow> [])"
  have "ValidateManagedLabels kv c labels = fold (\<lambda>l acc. acc @ ?g l) labels []"
    unfolding ValidateManagedLabels_def Let_def
    by (intro fold_cong refl ext) (auto split: option.splits)
  then show ?thesis
    by (auto simp: fold_append_concat validateMetaKey_def validateLabelValue_def Let_def split: if_splits)
qed

lemma ValidateManagedAnnotations_ok:
  "ValidateManagedAnnotations kv c annots = [] \<longleftrightarrow>
     (\<forall>a \<in> set annots. kv_IsQualifiedName kv (kvp_key a) = [] \<and> IsManagedAnnotation c (kvp_key a))"
proof -
  let ?g = "\<lambda>a. (case validateMetaKey kv (kvp_key a) ''spec.annotations'' of
              Some fldErr \<Rightarrow> [fldErr]
            | None \<Rightarrow> if \<not> IsManagedAnnotation c (kvp_key a)
                then [\<lparr>fe_field = ''spec.annotations'', fe_value = kvp_key a,
                       fe_detail = ''not a managed annotation and cannot be configured''\<rparr>] else [])"
  have "ValidateManagedAnnotations kv c annots = fold (\<lambda>l acc. acc @ ?g l) annots []"
    unfolding ValidateManagedAnnotations_def Let_def
    by (intro fold_cong refl ext) (auto split: option.splits)
  then show ?thesis
    by (auto simp: fold_append_concat validateMetaKey_def Let_def split: if_splits)
qed

section \<open>The namespace mutator and the service account\<close>

definition mutate_namespace :: "Config \<Rightarrow> NamespaceInst \<Rightarrow> NamespaceInst" where
  "mutate_namespace c ns =
     (if \<not> IsManagedNamespace c (nsi_name ns) then ns
      else if \<not> has_key (nil_map (nsi_labels ns)) LabelIncludedNamespace
      then ns\<lparr>nsi_labels := Some (AList.update LabelIncludedNamespace ''true'' (nil_map (nsi_labels ns)))\<rparr>
      else ns)"

text \<open>A nil user is used in unit tests only.\<close>

definition IsHNCServiceAccount :: "Config \<Rightarrow> string list option \<Rightarrow> bool" where
  "IsHNCServiceAccount c groups = (case groups of
       None \<Rightarrow> False
     | Some gs \<Rightarrow> list_ex (\<lambda>g. g = ''system:serviceaccounts:'' @ hncNamespace c) gs)"

end
