(* ===== verification/Conditions.thy ===== *)
theory Conditions
  imports Shape
begin

text \<open>
  Conditions of a namespace, \<^verbatim>\<open>internal/forest/namespaceconditions.go\<close>, the source
  objects it holds, \<^verbatim>\<open>internal/forest/namespaceobjects.go\<close>, and the tree labels of
  \<^verbatim>\<open>namespace.go\<close>.

  \<open>GetHaltedRoot\<close> walks to the root without looking for cycles, so it is a partial function: it
  returns when there is no cycle above the namespace or when some ancestor is halted.
\<close>

section \<open>Conditions\<close>

definition IsHalted :: "Forest \<Rightarrow> nsptr option \<Rightarrow> bool" where
  "IsHalted f ns = (case ns of
       None \<Rightarrow> False
     | Some a \<Rightarrow> list_ex (\<lambda>c. cond_type c = ConditionActivitiesHalted) (ns_conditions (deref f a)))"

partial_function (option) GetHaltedRoot :: "Forest \<Rightarrow> nsptr option \<Rightarrow> string option" where
  "GetHaltedRoot f ns = (case ns of
       None \<Rightarrow> Some ''''
     | Some a \<Rightarrow> if IsHalted f ns then Some (ns_name (deref f a)) else GetHaltedRoot f (Parent f ns))"

declare GetHaltedRoot.simps [code]

text \<open>
  \<^verbatim>\<open>meta.SetStatusCondition\<close> for a condition without a time, at the time
  \<open>now\<close>: at most one condition per type; an existing one gets the new status, reason and message
  in place, and a new time when the status changes.
\<close>

fun SetStatusCondition :: "Time \<Rightarrow> Condition list \<Rightarrow> Condition \<Rightarrow> Condition list" where
  "SetStatusCondition now [] c = [c\<lparr>cond_lastTransitionTime := now\<rparr>]"
| "SetStatusCondition now (e # es) c =
     (if cond_type e = cond_type c
      then (if cond_status e \<noteq> cond_status c
            then e\<lparr>cond_status := cond_status c, cond_lastTransitionTime := now\<rparr> else e)
           \<lparr>cond_reason := cond_reason c, cond_message := cond_message c\<rparr> # es
      else e # SetStatusCondition now es c)"

definition SetCondition :: "Time \<Rightarrow> nsptr \<Rightarrow> string \<Rightarrow> string \<Rightarrow> string \<Rightarrow> Forest \<Rightarrow> Forest" where
  "SetCondition now ns tp reason msg f =
     (if reason = ReasonAncestor then f
      else modify ns (\<lambda>n. n\<lparr>ns_conditions := SetStatusCondition now (ns_conditions n)
        \<lparr>cond_type = tp, cond_status = True, cond_lastTransitionTime = 0,
         cond_reason = reason, cond_message = msg\<rparr>\<rparr>) f)"

definition ClearConditions :: "nsptr \<Rightarrow> Forest \<Rightarrow> Forest" where
  "ClearConditions ns f = modify ns (\<lambda>n. n\<lparr>ns_conditions := []\<rparr>) f"

text \<open>\<^verbatim>\<open>metav1.Unix(0, 0)\<close>, the start of 1970, which is not the zero time.\<close>

definition unix_epoch :: Time where
  "unix_epoch = 1"

definition Conditions :: "Forest \<Rightarrow> nsptr \<Rightarrow> Condition list option" where
  "Conditions f ns = do {
     root \<leftarrow> GetHaltedRoot f (Some ns);
     let n = deref f ns;
     Some (if root \<noteq> '''' \<and> root \<noteq> ns_name n
       then \<lparr>cond_type = ConditionActivitiesHalted, cond_status = True,
             cond_lastTransitionTime = unix_epoch, cond_reason = ReasonAncestor,
             cond_message = ''Propagation paused in '' @ quote (ns_name n) @
               '' and its descendants due to ActivitiesHalted condition on ancestor '' @ quote root\<rparr> #
            ns_conditions n
       else ns_conditions n) }"

section \<open>Source objects\<close>

definition objs_of :: "Forest \<Rightarrow> nsptr \<Rightarrow> GroupVersionKind \<Rightarrow> (string, Unstructured) gomap" where
  "objs_of f ns gvk = (case map_of (ns_sourceObjects (deref f ns)) gvk of None \<Rightarrow> [] | Some m \<Rightarrow> m)"

definition SetSourceObject :: "nsptr \<Rightarrow> Unstructured \<Rightarrow> Forest \<Rightarrow> Forest" where
  "SetSourceObject ns obj f =
     modify ns (\<lambda>n. n\<lparr>ns_sourceObjects :=
       AList.update (obj_gvk obj) (AList.update (obj_name obj) obj (objs_of f ns (obj_gvk obj)))
         (ns_sourceObjects n)\<rparr>) f"

definition GetSourceObject :: "Forest \<Rightarrow> nsptr \<Rightarrow> GroupVersionKind \<Rightarrow> string \<Rightarrow> Unstructured option" where
  "GetSourceObject f ns gvk nm = map_of (objs_of f ns gvk) nm"

definition HasSourceObject :: "Forest \<Rightarrow> nsptr \<Rightarrow> GroupVersionKind \<Rightarrow> string \<Rightarrow> bool" where
  "HasSourceObject f ns gvk oo = (GetSourceObject f ns gvk oo \<noteq> None)"

definition DeleteSourceObject :: "nsptr \<Rightarrow> GroupVersionKind \<Rightarrow> string \<Rightarrow> Forest \<Rightarrow> Forest" where
  "DeleteSourceObject ns gvk nm f =
     (let m = AList.delete nm (objs_of f ns gvk) in
      modify ns (\<lambda>n. n\<lparr>ns_sourceObjects :=
        (if length m = 0 then AList.delete gvk (ns_sourceObjects n)
         else AList.update gvk m (ns_sourceObjects n))\<rparr>) f)"

definition GetSourceNames :: "Forest \<Rightarrow> nsptr \<Rightarrow> GroupVersionKind \<Rightarrow> NamespacedName list" where
  "GetSourceNames f ns gvk = fold (\<lambda>(nm, obj) os.
     os @ [\<lparr>nnm_namespace = obj_namespace obj, nnm_name = obj_name obj\<rparr>]) (objs_of f ns gvk) []"

definition GetNumSourceObjects :: "Forest \<Rightarrow> nsptr \<Rightarrow> GroupVersionKind \<Rightarrow> nat" where
  "GetNumSourceObjects f ns gvk = length (objs_of f ns gvk)"

fun ancestor_sources_loop ::
  "GroupVersionKind \<Rightarrow> string \<Rightarrow> string list \<Rightarrow> NamespacedName list \<Rightarrow> Forest \<Rightarrow>
   (NamespacedName list \<times> Forest) option" where
  "ancestor_sources_loop gvk nm [] allNNMs f = Some (allNNMs, f)"
| "ancestor_sources_loop gvk nm (anc # ancs) allNNMs f = (case Get anc f of
       (None, f) \<Rightarrow> None
     | (Some a, f) \<Rightarrow>
         (let nnms = GetSourceNames f a gvk in
          ancestor_sources_loop gvk nm ancs
            (if nm = '''' then allNNMs @ nnms
             else fold (\<lambda>o1 acc. if nnm_name o1 = nm then acc @ [o1] else acc) nnms allNNMs) f))"

definition GetAncestorSourceNames ::
  "nsptr option \<Rightarrow> GroupVersionKind \<Rightarrow> string \<Rightarrow> Forest \<Rightarrow> (NamespacedName list \<times> Forest) option" where
  "GetAncestorSourceNames ns gvk nm f = (case ns of
       None \<Rightarrow> Some ([], f)
     | Some a \<Rightarrow> ancestor_sources_loop gvk nm (AncestryNames f (Some a)) [] f)"

section \<open>Tree labels\<close>

text \<open>
  \<^verbatim>\<open>strconv.Atoi\<close> with the error ignored: a text that is not a decimal number is zero,
  and a number that does not fit into 64 bits is the nearest one that does.
\<close>

fun digits :: "string \<Rightarrow> int \<Rightarrow> int option" where
  "digits [] acc = Some acc"
| "digits (c # cs) acc =
     (if CHR ''0'' \<le> c \<and> c \<le> CHR ''9'' then digits cs (10 * acc + int (of_char c - of_char CHR ''0'')) else None)"

definition clamp64 :: "int \<Rightarrow> int" where
  "clamp64 i = max (- (2 ^ 63)) (min (2 ^ 63 - 1) i)"

definition Atoi :: "string \<Rightarrow> int" where
  "Atoi s = (let (neg, ds) = (case s of
        c # cs \<Rightarrow> if c = CHR ''-'' then (True, cs) else if c = CHR ''+'' then (False, cs) else (False, s)
      | [] \<Rightarrow> (False, []))
    in if ds = [] then 0
       else (case digits ds 0 of None \<Rightarrow> 0 | Some i \<Rightarrow> clamp64 (if neg then - i else i)))"

definition GetTreeLabels :: "Forest \<Rightarrow> nsptr \<Rightarrow> (string, int) gomap" where
  "GetTreeLabels f ns = fold (\<lambda>(k, v) r.
     if \<not> Contains k LabelTreeDepthSuffix then r else AList.update k (Atoi v) r)
     (nil_map (ns_labels (deref f ns))) []"

text \<open>\<^verbatim>\<open>strconv.Itoa\<close>, and the wrap-around of an \<^verbatim>\<open>int\<close> sum.\<close>

fun show_nat :: "nat \<Rightarrow> string" where
  "show_nat n = (if n < 10 then [char_of (48 + n)] else show_nat (n div 10) @ [char_of (48 + n mod 10)])"

declare show_nat.simps [simp del]

definition Itoa :: "int \<Rightarrow> string" where
  "Itoa i = (if i < 0 then ''-'' @ show_nat (nat (- i)) else show_nat (nat i))"

definition wrap64 :: "int \<Rightarrow> int" where
  "wrap64 i = (i + 2 ^ 63) mod 2 ^ 64 - 2 ^ 63"

section \<open>What GetHaltedRoot returns\<close>

lemma GetHaltedRoot_None: "GetHaltedRoot f None = Some ''''"
  by (simp add: GetHaltedRoot.simps)

lemma GetHaltedRoot_Some:
  "GetHaltedRoot f (Some a) =
     (if IsHalted f (Some a) then Some (nm_of f a) else GetHaltedRoot f (ns_parent (deref f a)))"
  by (subst GetHaltedRoot.simps) (simp add: Parent_def)

text \<open>A halted ancestor ends the walk, at the first one on the way up.\<close>

lemma GetHaltedRoot_found:
  assumes "(a, b) \<in> (parent_rel f)\<^sup>*" "IsHalted f (Some b)"
  shows "\<exists>c xs. GetHaltedRoot f (Some a) = Some (nm_of f c) \<and> IsHalted f (Some c) \<and>
    chain f (xs @ [c]) \<and> hd (xs @ [c]) = a \<and> (\<forall>x \<in> set xs. \<not> IsHalted f (Some x))"
  using assms(1)
proof (induction rule: converse_rtrancl_induct)
  case base
  then show ?case
    using assms(2) by (intro exI [of _ b] exI [of _ "[]"]) (simp add: GetHaltedRoot_Some)
next
  case (step a p)
  show ?case
  proof (cases "IsHalted f (Some a)")
    case True
    then show ?thesis
      by (intro exI [of _ a] exI [of _ "[]"]) (simp add: GetHaltedRoot_Some)
  next
    case False
    obtain c xs where "GetHaltedRoot f (Some p) = Some (nm_of f c)" "IsHalted f (Some c)"
      "chain f (xs @ [c])" "hd (xs @ [c]) = p" "\<forall>x \<in> set xs. \<not> IsHalted f (Some x)"
      using step.IH by blast
    then show ?thesis
      using False step.hyps by (intro exI [of _ c] exI [of _ "a # xs"])
        (simp add: GetHaltedRoot_Some [of f a] chain_Cons)
  qed
qed

lemma GetHaltedRoot_clear:
  assumes "wf_forest f" "registered f a" "acyclic_ns f a"
    and "\<And>b. (a, b) \<in> (parent_rel f)\<^sup>* \<Longrightarrow> \<not> IsHalted f (Some b)"
  shows "GetHaltedRoot f (Some a) = Some ''''"
  using assms
proof (induction rule: acyclic_ns_induct)
  case (step a)
  show ?case
  proof (cases "ns_parent (deref f a)")
    case None
    then show ?thesis using step.prems by (simp add: GetHaltedRoot_Some GetHaltedRoot_None)
  next
    case (Some p)
    have "\<not> IsHalted f (Some b)" if "(p, b) \<in> (parent_rel f)\<^sup>*" for b
      using step.prems(1) [of b] converse_rtrancl_into_rtrancl [of a p "parent_rel f" b] that Some by simp
    then have "GetHaltedRoot f (Some p) = Some ''''"
      using step.IH [OF Some] registered_parent [OF assms(1) step.hyps(1) Some]
        acyclic_ns_parent [OF step.hyps(2) Some] by blast
    then show ?thesis
      using Some step.prems(1) [of a] by (simp add: GetHaltedRoot_Some [of f a])
  qed
qed

text \<open>When the walk returns, it reached a halted namespace or a root.\<close>

lemma GetHaltedRoot_returned:
  assumes "GetHaltedRoot f (Some a) = Some r"
  shows "\<exists>b. (a, b) \<in> (parent_rel f)\<^sup>* \<and> (IsHalted f (Some b) \<or> ns_parent (deref f b) = None)"
proof -
  let ?P = "\<lambda>f ns (r :: string). \<forall>a. ns = Some a \<longrightarrow>
    (\<exists>b. (a, b) \<in> (parent_rel f)\<^sup>* \<and> (IsHalted f (Some b) \<or> ns_parent (deref f b) = None))"
  have "?P f (Some a) r"
    using assms
  proof (rule GetHaltedRoot.raw_induct [where P = ?P, rotated], intro allI impI)
    fix g f ns r a
    assume IH: "\<And>f ns r. g f ns = Some r \<Longrightarrow> ?P f ns r"
      and body: "(case ns of None \<Rightarrow> Some '''' | Some a \<Rightarrow> if IsHalted f ns then Some (nm_of f a)
          else g f (Parent f ns)) = Some r" and ns: "ns = Some a"
    show "\<exists>b. (a, b) \<in> (parent_rel f)\<^sup>* \<and> (IsHalted f (Some b) \<or> ns_parent (deref f b) = None)"
    proof (cases "IsHalted f (Some a) \<or> ns_parent (deref f a) = None")
      case True
      then show ?thesis by (intro exI [of _ a]) simp
    next
      case False
      then obtain p where p: "ns_parent (deref f a) = Some p" by (cases "ns_parent (deref f a)") simp_all
      have "g f (Some p) = Some r"
        using body ns False p by (simp add: Parent_def)
      then obtain b where b: "(p, b) \<in> (parent_rel f)\<^sup>*" "IsHalted f (Some b) \<or> ns_parent (deref f b) = None"
        using IH by blast
      have "(a, b) \<in> (parent_rel f)\<^sup>*"
        using converse_rtrancl_into_rtrancl [of a p "parent_rel f" b] p b(1) by simp
      then show ?thesis using b(2) by blast
    qed
  qed
  then show ?thesis by blast
qed

lemma root_above_acyclic:
  assumes "(a, b) \<in> (parent_rel f)\<^sup>*" "ns_parent (deref f b) = None"
  shows "acyclic_ns f a"
  unfolding acyclic_ns_def
proof (intro allI impI notI)
  fix c assume c: "(a, c) \<in> (parent_rel f)\<^sup>*" "in_cycle f c"
  obtain xs where ch: "chain f (c # xs @ [c])"
    using c(2) trancl_chain [of c c f] unfolding in_cycle_def by blast
  have "(c, b) \<in> (parent_rel f)\<^sup>* \<or> (b, c) \<in> (parent_rel f)\<^sup>*"
    using single_valued_confluent [OF single_valued_parent assms(1) c(1)] by blast
  then have "(c, b) \<in> (parent_rel f)\<^sup>*"
    using assms(2) rtrancl_parent [of b c f] by auto
  then have "b \<in> set (c # xs)"
    using cycle_closed [OF ch] by blast
  then obtain i where "i < length (c # xs)" "(c # xs @ [c]) ! i = b"
    by (metis append_Cons in_set_conv_nth nth_append)
  then have "ns_parent (deref f b) \<noteq> None"
    using chain_nth [OF ch, of i] by auto
  then show False using assms(2) by simp
qed

lemma GetHaltedRoot_returns_iff:
  assumes "wf_forest f" "registered f a"
  shows "GetHaltedRoot f (Some a) \<noteq> None \<longleftrightarrow>
    acyclic_ns f a \<or> (\<exists>b. (a, b) \<in> (parent_rel f)\<^sup>* \<and> IsHalted f (Some b))"
proof
  assume "GetHaltedRoot f (Some a) \<noteq> None"
  then obtain r where "GetHaltedRoot f (Some a) = Some r" by blast
  then obtain b where "(a, b) \<in> (parent_rel f)\<^sup>*" "IsHalted f (Some b) \<or> ns_parent (deref f b) = None"
    using GetHaltedRoot_returned by blast
  then show "acyclic_ns f a \<or> (\<exists>b. (a, b) \<in> (parent_rel f)\<^sup>* \<and> IsHalted f (Some b))"
    using root_above_acyclic by blast
next
  assume r: "acyclic_ns f a \<or> (\<exists>b. (a, b) \<in> (parent_rel f)\<^sup>* \<and> IsHalted f (Some b))"
  show "GetHaltedRoot f (Some a) \<noteq> None"
  proof (cases "\<exists>b. (a, b) \<in> (parent_rel f)\<^sup>* \<and> IsHalted f (Some b)")
    case True
    then obtain b where "(a, b) \<in> (parent_rel f)\<^sup>*" "IsHalted f (Some b)" by blast
    from GetHaltedRoot_found [OF this] show ?thesis by auto
  next
    case False
    then show ?thesis using r GetHaltedRoot_clear [OF assms] by auto
  qed
qed

section \<open>Walks to the root in general\<close>

text \<open>
  Several loops go from a namespace to its root without a check for cycles and rely on a namespace
  that stops them: \<open>GetHaltedRoot\<close> and the loops that collect labels and annotations. They return
  whenever there is no cycle above the namespace or some ancestor stops them.
\<close>

locale root_walk =
  fixes walk_from :: "Forest \<Rightarrow> nsptr option \<Rightarrow> 's \<Rightarrow> 'r option"
    and upd :: "Forest \<Rightarrow> nsptr \<Rightarrow> 's \<Rightarrow> 's"
    and stops :: "Forest \<Rightarrow> nsptr \<Rightarrow> bool"
  assumes walk_nil: "walk_from f None s \<noteq> None"
    and walk_stop: "stops f a \<Longrightarrow> walk_from f (Some a) s \<noteq> None"
    and walk_step: "\<not> stops f a \<Longrightarrow> walk_from f (Some a) s = walk_from f (ns_parent (deref f a)) (upd f a s)"
begin

lemma returns_stop:
  assumes "(a, b) \<in> (parent_rel f)\<^sup>*" "stops f b"
  shows "walk_from f (Some a) s \<noteq> None"
  using assms(1)
proof (induction arbitrary: s rule: converse_rtrancl_induct)
  case base
  show ?case by (rule walk_stop [OF assms(2)])
next
  case (step a p)
  then show ?case
    by (cases "stops f a") (auto simp: walk_step dest: walk_stop [of f a s])
qed

lemma returns_acyclic:
  assumes "wf_forest f" "registered f a" "acyclic_ns f a"
  shows "walk_from f (Some a) s \<noteq> None"
  using assms
proof (induction arbitrary: s rule: acyclic_ns_induct)
  case (step a)
  show ?case
  proof (cases "stops f a")
    case True
    then show ?thesis by (rule walk_stop)
  next
    case False
    show ?thesis
    proof (cases "ns_parent (deref f a)")
      case None
      then show ?thesis using walk_nil by (simp add: walk_step [OF False])
    next
      case (Some p)
      then show ?thesis
        using step.IH [OF Some] registered_parent [OF assms(1) step.hyps(1) Some]
          acyclic_ns_parent [OF step.hyps(2) Some] by (simp add: walk_step [OF False])
    qed
  qed
qed

lemma walk_fold:
  assumes "chain f (ps @ [b])" "\<forall>x \<in> set ps. \<not> stops f x"
  shows "walk_from f (Some (hd (ps @ [b]))) s = walk_from f (Some b) (fold (upd f) ps s)"
  using assms
proof (induction ps arbitrary: s)
  case (Cons a ps)
  then have "walk_from f (Some a) s = walk_from f (Some (hd (ps @ [b]))) (upd f a s)"
    by (simp add: walk_step chain_Cons)
  then show ?case
    using Cons by (simp add: chain_Cons)
qed simp

lemma walk_fold_root:
  assumes "chain f ps" "ps \<noteq> []" "ns_parent (deref f (last ps)) = None" "\<forall>x \<in> set ps. \<not> stops f x"
  shows "walk_from f (Some (hd ps)) s = walk_from f None (fold (upd f) ps s)"
proof -
  obtain qs b where ps: "ps = qs @ [b]" using assms(2) by (cases ps rule: rev_cases) auto
  then show ?thesis
    using walk_fold [of f qs b s] assms by (simp add: walk_step)
qed

lemma returns:
  assumes "wf_forest f" "registered f a"
    and "acyclic_ns f a \<or> (\<exists>b. (a, b) \<in> (parent_rel f)\<^sup>* \<and> stops f b)"
  shows "\<exists>r. walk_from f (Some a) s = Some r"
  using assms returns_stop [of a] returns_acyclic [of f a s] by blast

end

interpretation hr: root_walk "\<lambda>f ns (s :: unit). GetHaltedRoot f ns" "\<lambda>f a s. s" "\<lambda>f a. IsHalted f (Some a)"
  by unfold_locales (simp_all add: GetHaltedRoot_None GetHaltedRoot_Some)

text \<open>
  The state that these walks need: every cycle has a halted member. The reconciler establishes it for
  each namespace it synchronizes.
\<close>

definition cycles_halted :: "Forest \<Rightarrow> bool" where
  "cycles_halted f \<longleftrightarrow> (\<forall>a. registered f a \<longrightarrow> in_cycle f a \<longrightarrow>
     (\<exists>b. (a, b) \<in> (parent_rel f)\<^sup>* \<and> IsHalted f (Some b)))"

lemma cycles_halted_returns:
  assumes "wf_forest f" "registered f a" "cycles_halted f"
  shows "acyclic_ns f a \<or> (\<exists>b. (a, b) \<in> (parent_rel f)\<^sup>* \<and> IsHalted f (Some b))"
proof (cases "acyclic_ns f a")
  case False
  then obtain c where c: "(a, c) \<in> (parent_rel f)\<^sup>*" "in_cycle f c"
    by (auto simp: acyclic_ns_def)
  have "registered f c" by (rule registered_rtrancl [OF c(1) assms(1,2)])
  then obtain b where "(c, b) \<in> (parent_rel f)\<^sup>*" "IsHalted f (Some b)"
    using assms(3) c(2) unfolding cycles_halted_def by blast
  then show ?thesis using c(1) by (meson rtrancl_trans)
qed simp

lemma Conditions_returns:
  assumes "wf_forest f" "registered f a" "cycles_halted f"
  shows "\<exists>cs. Conditions f a = Some cs"
  using hr.returns [OF assms(1,2) cycles_halted_returns [OF assms]] by (auto simp: Conditions_def Let_def)

end
