(* ===== verification/HierarchyReconciler.thy ===== *)
theory HierarchyReconciler
  imports Config Conditions Quotas
begin

text \<open>
  The hierarchy reconciler, \<^verbatim>\<open>internal/hierarchyconfig/reconciler.go\<close>.

  Its state is the forest, the names it has put on its \<^verbatim>\<open>affected\<close> channel and the
  calls of \<^verbatim>\<open>Forest.OnChangeNamespace\<close>. The objects that it reads from the API server
  are arguments, the objects that it writes are results; \<^verbatim>\<open>time.Now()\<close> is the argument
  \<open>now\<close>, one reading per reconciliation. \<open>None\<close> is a panic or a walk that never ends.
  Log messages and statistics are left out.
\<close>

record HCEnv =
  env_forest :: Forest
  env_affected :: "string list"
  env_changed :: "nsptr list"

abbreviation on_forest :: "(Forest \<Rightarrow> Forest) \<Rightarrow> HCEnv \<Rightarrow> HCEnv" where
  "on_forest g e \<equiv> e\<lparr>env_forest := g (env_forest e)\<rparr>"

section \<open>Queueing\<close>

text \<open>The name of a nil namespace is skipped.\<close>

definition enqueueAffected :: "string list \<Rightarrow> HCEnv \<Rightarrow> HCEnv" where
  "enqueueAffected affected e =
     e\<lparr>env_affected := env_affected e @ filter (\<lambda>nm. nm \<noteq> Name (env_forest e) None) affected\<rparr>"

definition OnChangeNamespace :: "nsptr \<Rightarrow> HCEnv \<Rightarrow> HCEnv" where
  "OnChangeNamespace ns e = e\<lparr>env_changed := env_changed e @ [ns]\<rparr>"

definition enqueue_descendants :: "nsptr \<Rightarrow> HCEnv \<Rightarrow> HCEnv option" where
  "enqueue_descendants ns e = do {
     (ds, f) \<leftarrow> DescendantNames ns (env_forest e);
     Some (enqueueAffected ds (e\<lparr>env_forest := f\<rparr>)) }"

section \<open>Missing namespaces\<close>

definition onMissingNamespace :: "string \<Rightarrow> HCEnv \<Rightarrow> HCEnv option" where
  "onMissingNamespace nm e = do {
     (ns, f) \<leftarrow> GetP nm (env_forest e);
     let e = e\<lparr>env_forest := f\<rparr>;
     if Exists f ns then do {
       let e = enqueueAffected (RelativesNames f ns) e;
       (changed, f) \<leftarrow> UnsetExists ns (env_forest e);
       Some (e\<lparr>env_forest := f\<rparr>) }
     else Some e }"

section \<open>Metadata of the namespace and the singleton\<close>

definition removeIncludedNamespaceLabel :: "NamespaceInst \<Rightarrow> NamespaceInst" where
  "removeIncludedNamespaceLabel nsInst =
     (if has_key (nil_map (nsi_labels nsInst)) LabelIncludedNamespace
      then nsInst\<lparr>nsi_labels := Some (AList.delete LabelIncludedNamespace (nil_map (nsi_labels nsInst)))\<rparr>
      else nsInst)"

definition addIncludedNamespaceLabel :: "NamespaceInst \<Rightarrow> NamespaceInst" where
  "addIncludedNamespaceLabel nsInst =
     (let lbs = nil_map (nsi_labels nsInst) in
      if map_of lbs LabelIncludedNamespace = Some ''true'' then nsInst
      else nsInst\<lparr>nsi_labels := Some (AList.update LabelIncludedNamespace ''true'' lbs)\<rparr>)"

text \<open>\<^verbatim>\<open>controllerutil\<close>: the finalizer is removed wherever it occurs.\<close>

definition updateFinalizers :: "HierarchyConfiguration \<Rightarrow> NamespaceInst \<Rightarrow> string list \<Rightarrow> HierarchyConfiguration" where
  "updateFinalizers inst nsInst anms =
     (let rm = inst\<lparr>hc_finalizers := removeAll FinalizerHasSubnamespace (hc_finalizers inst)\<rparr> in
      if length anms = 0 then
        (if FinalizerHasSubnamespace \<in> set (hc_finalizers inst) then rm else inst)
      else if \<not> IsZero (hc_deletionTimestamp inst) \<and> IsZero (nsi_deletionTimestamp nsInst) then
        (if FinalizerHasSubnamespace \<in> set (hc_finalizers inst) then rm else inst)
      else if FinalizerHasSubnamespace \<notin> set (hc_finalizers inst)
        then inst\<lparr>hc_finalizers := hc_finalizers inst @ [FinalizerHasSubnamespace]\<rparr>
      else inst)"

section \<open>Synchronization with the forest\<close>

definition syncExternalNamespace :: "NamespaceInst \<Rightarrow> nsptr \<Rightarrow> HCEnv \<Rightarrow> HCEnv option" where
  "syncExternalNamespace nsInst ns e =
     (let mgr = get_str (nil_map (nsi_annotations nsInst)) AnnotationManagedBy in
      if mgr = '''' \<or> mgr = MetaGroup then do {
        e \<leftarrow> (if IsExternal (env_forest e) ns then enqueue_descendants ns e else Some e);
        Some (on_forest (modify ns (\<lambda>n. n\<lparr>ns_Manager := MetaGroup\<rparr>)) e) }
      else do {
        e \<leftarrow> (if \<not> IsExternal (env_forest e) ns then enqueue_descendants ns e else Some e);
        Some (on_forest (modify ns (\<lambda>n. n\<lparr>ns_Manager := mgr\<rparr>)) e) })"

definition syncSubnamespaceParent ::
  "Time \<Rightarrow> HierarchyConfiguration \<Rightarrow> NamespaceInst \<Rightarrow> nsptr \<Rightarrow> SubnamespaceAnchor option \<Rightarrow> HCEnv \<Rightarrow>
   HierarchyConfiguration \<times> HCEnv" where
  "syncSubnamespaceParent now inst nsInst ns parentAnchor e =
     (if IsExternal (env_forest e) ns
      then (inst, on_forest (modify ns (\<lambda>n. n\<lparr>ns_IsSub := False\<rparr>)) e)
      else
        (let pnm = get_str (nil_map (nsi_annotations nsInst)) SubnamespaceOf;
             pnm = (if pnm \<noteq> '''' \<and> \<not> IsZero (nsi_deletionTimestamp nsInst) then '''' else pnm)
         in if pnm = '''' then (inst, on_forest (modify ns (\<lambda>n. n\<lparr>ns_IsSub := False\<rparr>)) e)
            else
              (let e = on_forest (modify ns (\<lambda>n. n\<lparr>ns_IsSub := True\<rparr>)) e;
                   inst = (if hc_parent inst \<noteq> pnm then inst\<lparr>hc_parent := pnm\<rparr> else inst)
               in case parentAnchor of
                    None \<Rightarrow> (inst, on_forest (SetCondition now ns ConditionBadConfiguration ReasonAnchorMissing
                        ''The anchor is missing in the parent namespace'') e)
                  | Some a \<Rightarrow> (inst\<lparr>hc_labels := an_labels a, hc_annotations := an_annotations a\<rparr>, e))))"

definition setCycleCondition :: "Time \<Rightarrow> nsptr \<Rightarrow> Forest \<Rightarrow> Forest" where
  "setCycleCondition now ns f =
     (let cycle = CycleNames f ns in
      if cycle = [] then f
      else SetCondition now ns ConditionActivitiesHalted ReasonInCycle
             (''Namespace is a member of the cycle: '' @ Join cycle '' <- '') f)"

text \<open>The condition of a namespace whose parent is unmanaged or does not exist.\<close>

definition parent_condition ::
  "Time \<Rightarrow> Config \<Rightarrow> string \<Rightarrow> nsptr \<Rightarrow> nsptr option \<Rightarrow> Forest \<Rightarrow> Forest" where
  "parent_condition now c parent ns curParent f =
     (if \<not> IsManagedNamespace c parent
      then SetCondition now ns ConditionActivitiesHalted ReasonIllegalParent
        (''Parent '' @ quote parent @ '' is an unmanaged namespace'') f
      else (case curParent of
          None \<Rightarrow> f
        | Some p \<Rightarrow> if \<not> Exists f p
            then SetCondition now ns ConditionActivitiesHalted ReasonParentMissing
              (''Parent '' @ quote parent @ '' does not exist'') f
            else f))"

text \<open>The part of \<^verbatim>\<open>syncParent\<close> before its deferred cycle check.\<close>

definition syncParent_body :: "Time \<Rightarrow> Config \<Rightarrow> HierarchyConfiguration \<Rightarrow> nsptr \<Rightarrow> HCEnv \<Rightarrow> HCEnv option" where
  "syncParent_body now c inst ns e =
     (if IsExternal (env_forest e) ns then do {
        let e = (case ns_parent (deref (env_forest e) ns) of
            None \<Rightarrow> e
          | Some p \<Rightarrow> enqueueAffected [Name (env_forest e) (Some p)] e);
        f \<leftarrow> SetParent ns None (env_forest e);
        Some (e\<lparr>env_forest := f\<rparr>) }
      else do {
        let (curParent, f) = Get (hc_parent inst) (env_forest e);
        let f = parent_condition now c (hc_parent inst) ns curParent f;
        let e = e\<lparr>env_forest := f\<rparr>;
        let oldParent = ns_parent (deref f ns);
        if curParent = oldParent then Some e
        else do {
          let e = enqueueAffected (CycleNames f ns) e;
          f \<leftarrow> SetParent ns curParent f;
          let e = e\<lparr>env_forest := f\<rparr>;
          let e = enqueueAffected [Name f oldParent] e;
          let e = enqueueAffected [Name f curParent] e;
          enqueue_descendants ns e } })"

definition syncParent :: "Time \<Rightarrow> Config \<Rightarrow> HierarchyConfiguration \<Rightarrow> nsptr \<Rightarrow> HCEnv \<Rightarrow> HCEnv option" where
  "syncParent now c inst ns e = do {
     e \<leftarrow> syncParent_body now c inst ns e;
     Some (on_forest (setCycleCondition now ns) e) }"

definition markExisting :: "nsptr \<Rightarrow> HCEnv \<Rightarrow> HCEnv" where
  "markExisting ns e =
     (let (changed, f) = SetExists ns (env_forest e); e = e\<lparr>env_forest := f\<rparr> in
      if \<not> changed then e
      else (let e = enqueueAffected (RelativesNames f ns) e;
                e = (if ns_IsSub (deref f ns) then enqueueAffected [Name f (ns_parent (deref f ns))] e else e)
            in OnChangeNamespace ns e))"

definition syncAnchors :: "nsptr \<Rightarrow> string list \<Rightarrow> HCEnv \<Rightarrow> HCEnv" where
  "syncAnchors ns anms e =
     (let (diff, f) = SetAnchors ns anms (env_forest e) in
      fold (\<lambda>changedAnchor e. enqueueAffected [changedAnchor] e) diff (e\<lparr>env_forest := f\<rparr>))"

section \<open>Labels and annotations\<close>

text \<open>The managed pairs of the spec, with a condition for each illegal key.\<close>

definition managed_from_spec ::
  "(string \<Rightarrow> bool) \<Rightarrow> (string \<Rightarrow> Forest \<Rightarrow> Forest) \<Rightarrow> MetaKVP list \<Rightarrow> Forest \<Rightarrow> (string, string) gomap \<times> Forest" where
  "managed_from_spec legal set_cond kvps f = fold (\<lambda>kvp (managed, f).
     if \<not> legal (kvp_key kvp) then (managed, set_cond (kvp_key kvp) f)
     else (AList.update (kvp_key kvp) (kvp_value kvp) managed, f)) kvps ([], f)"

text \<open>
  The loop over the labels of the namespace deletes only the key it visits, so it visits every label.
\<close>

definition strip_labels ::
  "Config \<Rightarrow> bool \<Rightarrow> (string, string) gomap option \<Rightarrow> (string, string) gomap \<Rightarrow>
   (string, string) gomap option \<times> (string, string) gomap" where
  "strip_labels c external labels managed = fold (\<lambda>(k, v) (labels, managed).
     let (labels, managed) =
       (if IsManagedLabel c k
        then (if external then (labels, AList.update k v managed)
              else (map_option (AList.delete k) labels, managed))
        else (labels, managed))
     in if \<not> external \<and> HasSuffix k LabelTreeDepthSuffix
        then (map_option (AList.delete k) labels, managed) else (labels, managed))
     (nil_map labels) (labels, managed)"

text \<open>The walk up the hierarchy that sets tree labels and managed labels.\<close>

partial_function (option) label_walk ::
  "Forest \<Rightarrow> nsptr option \<Rightarrow> nat \<Rightarrow> NamespaceInst \<Rightarrow> NamespaceInst option" where
  "label_walk f curNS depth nsInst = (case curNS of
       None \<Rightarrow> Some nsInst
     | Some a \<Rightarrow>
         (let nsInst = SetLabel_ns nsInst (ns_name (deref f a) @ LabelTreeDepthSuffix) (Itoa (int depth));
              nsInst = fold (\<lambda>(k, v) i. SetLabel_ns i k v) (nil_map (ns_ManagedLabels (deref f a))) nsInst
          in if IsExternal f a
             then Some (fold (\<lambda>(k, v) i. SetLabel_ns i k (Itoa (wrap64 (int depth + v)))) (GetTreeLabels f a) nsInst)
             else if IsHalted f (Some a) then Some nsInst
             else label_walk f (ns_parent (deref f a)) (Suc depth) nsInst))"

declare label_walk.simps [code]

definition syncLabels ::
  "Time \<Rightarrow> Config \<Rightarrow> HierarchyConfiguration \<Rightarrow> NamespaceInst \<Rightarrow> nsptr \<Rightarrow> HCEnv \<Rightarrow> (NamespaceInst \<times> HCEnv) option" where
  "syncLabels now c inst nsInst ns e = do {
     let (managed, f) = managed_from_spec (IsManagedLabel c)
       (\<lambda>k. SetCondition now ns ConditionBadConfiguration ReasonIllegalManagedLabel
          (''Not a legal managed label (set via --managed-namespace-label): '' @ k))
       (hc_labels inst) (env_forest e);
     let e = e\<lparr>env_forest := f\<rparr>;
     let (labels, managed) = strip_labels c (IsExternal f ns) (nsi_labels nsInst) managed;
     let nsInst = nsInst\<lparr>nsi_labels := labels\<rparr>;
     let managed = (if length managed = 0 then None else Some managed);
     e \<leftarrow> (if \<not> DeepEqual_map (ns_ManagedLabels (deref f ns)) managed
       then enqueue_descendants ns (on_forest (modify ns (\<lambda>n. n\<lparr>ns_ManagedLabels := managed\<rparr>)) e)
       else Some e);
     let (nsInst, e) = (if IsExternal (env_forest e) ns
       then (let nsInst = SetLabel_ns nsInst (nsi_name nsInst @ LabelTreeDepthSuffix) ''0''
             in (nsInst, on_forest (\<lambda>f. snd (SetLabels ns (nsi_labels nsInst) f)) e))
       else (nsInst, e));
     nsInst \<leftarrow> label_walk (env_forest e) (Some ns) 0 nsInst;
     let (updated, f) = SetLabels ns (nsi_labels nsInst) (env_forest e);
     let e = e\<lparr>env_forest := f\<rparr>;
     Some (nsInst, if updated then OnChangeNamespace ns e else e) }"

definition strip_annotations ::
  "Config \<Rightarrow> bool \<Rightarrow> (string, string) gomap option \<Rightarrow> (string, string) gomap \<Rightarrow>
   (string, string) gomap option \<times> (string, string) gomap" where
  "strip_annotations c external annots managed = fold (\<lambda>(k, v) (annots, managed).
     if IsManagedAnnotation c k
     then (if external then (annots, AList.update k v managed)
           else (map_option (AList.delete k) annots, managed))
     else (annots, managed)) (nil_map annots) (annots, managed)"

partial_function (option) annotation_walk ::
  "Forest \<Rightarrow> nsptr option \<Rightarrow> NamespaceInst \<Rightarrow> NamespaceInst option" where
  "annotation_walk f curNS nsInst = (case curNS of
       None \<Rightarrow> Some nsInst
     | Some a \<Rightarrow>
         (let nsInst = fold (\<lambda>(k, v) i. SetAnnotation_ns i k v) (nil_map (ns_ManagedAnnotations (deref f a))) nsInst
          in if IsHalted f (Some a) then Some nsInst
             else annotation_walk f (ns_parent (deref f a)) nsInst))"

declare annotation_walk.simps [code]

definition syncAnnotations ::
  "Time \<Rightarrow> Config \<Rightarrow> HierarchyConfiguration \<Rightarrow> NamespaceInst \<Rightarrow> nsptr \<Rightarrow> HCEnv \<Rightarrow> (NamespaceInst \<times> HCEnv) option" where
  "syncAnnotations now c inst nsInst ns e = do {
     let (managed, f) = managed_from_spec (IsManagedAnnotation c)
       (\<lambda>k. SetCondition now ns ConditionBadConfiguration ReasonIllegalManagedAnnotation
          (''Not a legal managed annotation (set via --managed-namespace-annotation): '' @ k))
       (hc_annotations inst) (env_forest e);
     let e = e\<lparr>env_forest := f\<rparr>;
     let (annots, managed) = strip_annotations c (IsExternal f ns) (nsi_annotations nsInst) managed;
     let nsInst = nsInst\<lparr>nsi_annotations := annots\<rparr>;
     e \<leftarrow> (if \<not> DeepEqual_map (ns_ManagedAnnotations (deref f ns)) (Some managed)
       then enqueue_descendants ns (on_forest (modify ns (\<lambda>n. n\<lparr>ns_ManagedAnnotations := Some managed\<rparr>)) e)
       else Some e);
     if IsExternal (env_forest e) ns then Some (nsInst, e)
     else do {
       nsInst \<leftarrow> annotation_walk (env_forest e) (Some ns) nsInst;
       Some (nsInst, e) } }"

section \<open>The whole reconciliation\<close>

definition syncConditions ::
  "HierarchyConfiguration \<Rightarrow> nsptr \<Rightarrow> bool \<Rightarrow> HCEnv \<Rightarrow> (HierarchyConfiguration \<times> HCEnv) option" where
  "syncConditions inst ns wasHalted e = do {
     e \<leftarrow> (if IsHalted (env_forest e) (Some ns) \<noteq> wasHalted
       then do {
         conds \<leftarrow> (if wasHalted then Some [] else Conditions (env_forest e) ns);
         enqueue_descendants ns e }
       else Some e);
     conds \<leftarrow> Conditions (env_forest e) ns;
     Some (inst\<lparr>hc_conditions := conds\<rparr>, e) }"

definition DeepEqual_ns :: "NamespaceInst \<Rightarrow> NamespaceInst \<Rightarrow> bool" where
  "DeepEqual_ns a b = (nsi_name a = nsi_name b \<and> DeepEqual_map (nsi_labels a) (nsi_labels b) \<and>
     DeepEqual_map (nsi_annotations a) (nsi_annotations b) \<and>
     nsi_deletionTimestamp a = nsi_deletionTimestamp b)"

definition syncWithForest ::
  "Time \<Rightarrow> Config \<Rightarrow> NamespaceInst \<Rightarrow> HierarchyConfiguration \<Rightarrow> bool \<Rightarrow> string list \<Rightarrow> SubnamespaceAnchor option \<Rightarrow>
   HCEnv \<Rightarrow> (NamespaceInst \<times> HierarchyConfiguration \<times> HCEnv) option" where
  "syncWithForest now c nsInst inst deletingCRD anms parentAnchor e = do {
     let origNS = nsInst;
     let origHC = inst;
     (ns, f) \<leftarrow> GetP (nsi_name nsInst) (env_forest e);
     let wasHalted = IsHalted f (Some ns);
     let f = ClearConditions ns f;
     let f = (if deletingCRD then SetCondition now ns ConditionActivitiesHalted ReasonDeletingCRD
        ''The HierarchyConfiguration CRD is being deleted; all propagation is disabled.'' f else f);
     e \<leftarrow> syncExternalNamespace nsInst ns (e\<lparr>env_forest := f\<rparr>);
     let (inst, e) = syncSubnamespaceParent now inst nsInst ns parentAnchor e;
     e \<leftarrow> syncParent now c inst ns e;
     let e = markExisting ns e;
     (nsInst, e) \<leftarrow> syncLabels now c inst nsInst ns e;
     (nsInst, e) \<leftarrow> syncAnnotations now c inst nsInst ns e;
     let e = syncAnchors ns anms e;
     let e = on_forest (\<lambda>f. snd (UpdateAllowCascadingDeletion ns (hc_allowCascadingDeletion inst) f)) e;
     let inst = inst\<lparr>hc_children := ChildNames (env_forest e) ns\<rparr>;
     (inst, e) \<leftarrow> syncConditions inst ns wasHalted e;
     let hcChanged = (origHC \<noteq> inst);
     let inst = (if hcChanged \<and> hc_name inst = ''''
       then inst\<lparr>hc_name := Singleton, hc_namespace := nsi_name nsInst\<rparr> else inst);
     let nsChanged = (\<not> DeepEqual_ns origNS nsInst);
     Some (nsInst, inst, if hcChanged \<or> nsChanged then OnChangeNamespace ns e else e) }"

datatype HCWrite = CreateHC HierarchyConfiguration | UpdateHC HierarchyConfiguration | UpdateNS NamespaceInst

text \<open>
  Writes go through \<open>wr\<close>, which gives the error of a write, if any. The result is the writes that
  were attempted and the error that stopped them.
\<close>

definition writeHierarchy ::
  "(HCWrite \<Rightarrow> string option) \<Rightarrow> HierarchyConfiguration \<Rightarrow> bool \<Rightarrow> HCWrite list \<times> string option" where
  "writeHierarchy wr inst isDeletingNS =
     (if hc_name inst = '''' then ([], None)
      else (let exists_hc = \<not> IsZero (hc_creationTimestamp inst) in
        if \<not> exists_hc \<and> isDeletingNS then ([], None)
        else if \<not> exists_hc then ([CreateHC inst], wr (CreateHC inst))
        else ([UpdateHC inst], wr (UpdateHC inst))))"

definition writeNamespace :: "(HCWrite \<Rightarrow> string option) \<Rightarrow> NamespaceInst \<Rightarrow> HCWrite list \<times> string option" where
  "writeNamespace wr inst = ([UpdateNS inst], wr (UpdateNS inst))"

definition writeInstances ::
  "(HCWrite \<Rightarrow> string option) \<Rightarrow> HierarchyConfiguration \<Rightarrow> NamespaceInst \<Rightarrow> HCWrite list \<times> string option" where
  "writeInstances wr newHC newNS =
     (case writeHierarchy wr newHC (\<not> IsZero (nsi_deletionTimestamp newNS)) of
        (ws, Some err) \<Rightarrow> (ws, Some err)
      | (ws, None) \<Rightarrow> (case writeNamespace wr newNS of (ws', err) \<Rightarrow> (ws @ ws', err)))"

text \<open>What the reconciler reads from the API server.\<close>

record HCReads =
  rd_namespace :: "NamespaceInst read"
  rd_singleton :: "HierarchyConfiguration read"
  rd_CRD :: "Time read"
  rd_anchors :: "string list read"
  rd_parentAnchor :: "SubnamespaceAnchor read"

definition blank_hc :: HierarchyConfiguration where
  "blank_hc = \<lparr>hc_name = '''', hc_namespace = '''', hc_creationTimestamp = 0, hc_deletionTimestamp = 0,
     hc_finalizers = [], hc_parent = '''', hc_allowCascadingDeletion = False, hc_labels = [],
     hc_annotations = [], hc_children = [], hc_conditions = []\<rparr>"

definition getSingleton :: "HCReads \<Rightarrow> string + HierarchyConfiguration \<times> bool" where
  "getSingleton rd =
     (case rd_singleton rd of
        ReadError err \<Rightarrow> Inl err
      | r \<Rightarrow> (let inst = (case r of Found i \<Rightarrow> i | _ \<Rightarrow> blank_hc) in
          if IsZero (hc_creationTimestamp inst) \<or> \<not> IsZero (hc_deletionTimestamp inst)
          then (case IsDeletingCRD (rd_CRD rd) of
              Inl err \<Rightarrow> Inl err
            | Inr deletingCRD \<Rightarrow> Inr (inst, deletingCRD))
          else Inr (inst, False)))"

definition getAnchorNames :: "HCReads \<Rightarrow> string + string list" where
  "getAnchorNames rd = (case rd_anchors rd of
       Found anms \<Rightarrow> Inr anms | NotFound \<Rightarrow> Inr [] | ReadError err \<Rightarrow> Inl err)"

definition reconcile_hc ::
  "Time \<Rightarrow> Config \<Rightarrow> HCReads \<Rightarrow> (HCWrite \<Rightarrow> string option) \<Rightarrow> string \<Rightarrow> HCEnv \<Rightarrow>
   (HCWrite list \<times> string option \<times> HCEnv) option" where
  "reconcile_hc now c rd wr nm e =
     (case rd_namespace rd of
        NotFound \<Rightarrow> do { e \<leftarrow> onMissingNamespace nm e; Some ([], None, e) }
      | ReadError err \<Rightarrow> Some ([], Some err, e)
      | Found nsInst \<Rightarrow>
          (let nsInst = addIncludedNamespaceLabel nsInst in
           case getSingleton rd of
             Inl err \<Rightarrow> Some ([], Some err, e)
           | Inr (inst, deletingCRD) \<Rightarrow>
               if deletingCRD \<and> IsZero (hc_creationTimestamp inst) then Some ([], None, e)
               else (case getAnchorNames rd of
                   Inl err \<Rightarrow> Some ([], Some err, e)
                 | Inr anms \<Rightarrow> (case rd_parentAnchor rd of
                     ReadError err \<Rightarrow> Some ([], Some err, e)
                   | pa \<Rightarrow> do {
                       let inst = updateFinalizers inst nsInst anms;
                       (nsInst, inst, e) \<leftarrow> syncWithForest now c nsInst inst deletingCRD anms
                         (case pa of Found a \<Rightarrow> Some a | _ \<Rightarrow> None) e;
                       let (ws, err) = writeInstances wr inst nsInst;
                       Some (ws, err, e) }))))"

definition handleUnmanaged ::
  "HCReads \<Rightarrow> (HCWrite \<Rightarrow> string option) \<Rightarrow> string \<Rightarrow> HCWrite list \<times> string option" where
  "handleUnmanaged rd wr nm =
     (case rd_namespace rd of
        NotFound \<Rightarrow> ([], None)
      | ReadError err \<Rightarrow> ([], Some err)
      | Found nsInst \<Rightarrow>
          (case writeNamespace wr (removeIncludedNamespaceLabel nsInst) of
             (ws, Some err) \<Rightarrow> (ws, Some err)
           | (ws, None) \<Rightarrow> (case getSingleton rd of
               Inl err \<Rightarrow> (ws, Some err)
             | Inr (inst, d) \<Rightarrow>
                 if FinalizerHasSubnamespace \<in> set (hc_finalizers inst) \<or> length (hc_children inst) > 0
                 then (let inst = inst\<lparr>hc_finalizers := removeAll FinalizerHasSubnamespace (hc_finalizers inst),
                                       hc_children := []\<rparr>
                       in (ws @ [UpdateHC inst], wr (UpdateHC inst)))
                 else (ws, None))))"

definition Reconcile_hc ::
  "Time \<Rightarrow> Config \<Rightarrow> HCReads \<Rightarrow> (HCWrite \<Rightarrow> string option) \<Rightarrow> string \<Rightarrow> HCEnv \<Rightarrow>
   (HCWrite list \<times> string option \<times> HCEnv) option" where
  "Reconcile_hc now c rd wr ns e =
     (if \<not> IsManagedNamespace c ns
      then (case handleUnmanaged rd wr ns of (ws, err) \<Rightarrow> Some (ws, err, e))
      else reconcile_hc now c rd wr ns e)"

end
