(* ===== verification/Hierarchy_Invariant.thy ===== *)
theory Hierarchy_Invariant
  imports HierarchyReconciler Quota_Safety
begin

text \<open>
  The invariant of the forest between two reconciliations, and that the hierarchy reconciler
  returns and re-establishes it: the forest is well formed, every namespace with a parent exists, and
  every cycle has a halted member, so that the walks to the root end.

  Most steps of the reconciler are quiet: they keep the shape of the forest and the existence of every
  namespace and halt no namespace less. The other steps are the lookup that allocates, the clearing of
  the conditions, the change of parent and the marking as existing.
\<close>

section \<open>Quiet steps\<close>

definition quiet :: "Forest \<Rightarrow> Forest \<Rightarrow> bool" where
  "quiet f g \<longleftrightarrow> same_shape f g \<and> (\<forall>a. ns_exists (deref g a) = ns_exists (deref f a)) \<and>
     (\<forall>a. IsHalted f (Some a) \<longrightarrow> IsHalted g (Some a))"

lemma quiet_refl [simp]: "quiet f f"
  by (simp add: quiet_def)

lemma quiet_trans: "quiet f g \<Longrightarrow> quiet g h \<Longrightarrow> quiet f h"
  using same_shape_trans [of f g h] by (auto simp: quiet_def)

lemma quiet_shape: "quiet f g \<Longrightarrow> same_shape f g"
  by (simp add: quiet_def)

lemma quiet_modify:
  assumes "\<And>n. ns_name (u n) = ns_name n" "\<And>n. ns_parent (u n) = ns_parent n"
    "\<And>n. ns_children (u n) = ns_children n" "\<And>n. ns_exists (u n) = ns_exists n"
    "\<And>n. ns_conditions (u n) = ns_conditions n"
  shows "quiet f (modify a u f)"
  using same_shape_modify [of u f a] modify_field [of ns_exists u a f] modify_field [of ns_conditions u a f] assms
  by (simp add: quiet_def IsHalted_def)

lemma SetStatusCondition_keeps:
  "list_ex (\<lambda>c. cond_type c = t) cs \<Longrightarrow> list_ex (\<lambda>c. cond_type c = t) (SetStatusCondition now cs c)"
  by (induction cs) auto

lemma SetStatusCondition_sets: "list_ex (\<lambda>c'. cond_type c' = cond_type c) (SetStatusCondition now cs c)"
  by (induction cs) auto

lemma quiet_SetCondition: "quiet f (SetCondition now ns tp reason msg f)"
proof (cases "reason = ReasonAncestor")
  case False
  let ?u = "\<lambda>n. n\<lparr>ns_conditions := SetStatusCondition now (ns_conditions n)
        \<lparr>cond_type = tp, cond_status = True, cond_lastTransitionTime = 0, cond_reason = reason, cond_message = msg\<rparr>\<rparr>"
  have "IsHalted (modify ns ?u f) (Some a)" if "IsHalted f (Some a)" for a
  proof (cases "a = ns \<and> valid f ns")
    case True
    then show ?thesis
      using that SetStatusCondition_keeps by (simp add: IsHalted_def deref_modify)
  next
    case F: False
    then have "deref (modify ns ?u f) a = deref f a"
      by (auto simp: deref_def modify_def valid_def)
    then show ?thesis using that by (simp add: IsHalted_def)
  qed
  then show ?thesis
    using False same_shape_modify [of ?u f ns] modify_field [of ns_exists ?u ns f]
    by (simp add: SetCondition_def quiet_def)
qed (simp add: SetCondition_def)

lemma SetCondition_halts:
  assumes "valid f ns" "reason \<noteq> ReasonAncestor"
  shows "IsHalted (SetCondition now ns ConditionActivitiesHalted reason msg f) (Some ns)"
  using assms SetStatusCondition_sets
    [of "\<lparr>cond_type = ConditionActivitiesHalted, cond_status = True, cond_lastTransitionTime = 0,
         cond_reason = reason, cond_message = msg\<rparr>" now "ns_conditions (deref f ns)"]
  by (simp add: SetCondition_def IsHalted_def deref_modify)

lemma quiet_setCycleCondition: "quiet f (setCycleCondition now ns f)"
  by (simp add: setCycleCondition_def Let_def quiet_SetCondition)

lemma setCycleCondition_halts:
  assumes "wf_forest f" "registered f ns" "in_cycle f ns"
  shows "IsHalted (setCycleCondition now ns f) (Some ns)"
proof -
  have "CycleNames f ns \<noteq> []" using CycleNames_in_cycle assms by blast
  then show ?thesis
    using SetCondition_halts [OF registered_valid [OF assms(1,2)], of ReasonInCycle]
    by (simp add: setCycleCondition_def Let_def api_consts)
qed

section \<open>The invariant\<close>

definition forest_inv :: "Forest \<Rightarrow> bool" where
  "forest_inv f \<longleftrightarrow> wf_forest f \<and> parents_exist f \<and> cycles_halted f"

lemma quiet_exists: "quiet f g \<Longrightarrow> ns_exists (deref g a) = ns_exists (deref f a)"
  by (simp add: quiet_def)

lemma quiet_parents_exist: "quiet f g \<Longrightarrow> parents_exist g = parents_exist f"
  by (simp add: parents_exist_def shape_simps [OF quiet_shape] quiet_exists)

lemma quiet_halted: "quiet f g \<Longrightarrow> IsHalted f (Some a) \<Longrightarrow> IsHalted g (Some a)"
  by (simp add: quiet_def)

lemma quiet_cycles_halted:
  assumes q: "quiet f g" and "cycles_halted f"
  shows "cycles_halted g"
  using assms(2) quiet_halted [OF q] unfolding cycles_halted_def shape_simps [OF quiet_shape [OF q]] by blast

lemma quiet_inv: "quiet f g \<Longrightarrow> forest_inv f \<Longrightarrow> forest_inv g"
  by (simp add: forest_inv_def shape_simps [OF quiet_shape] quiet_parents_exist quiet_cycles_halted)

text \<open>
  While a namespace is synchronized the invariant may fail at that namespace only: its cycle may have
  lost its halted member, and it may have a parent before it is marked as existing.
\<close>

definition inv_except :: "nsptr \<Rightarrow> Forest \<Rightarrow> bool" where
  "inv_except ns f \<longleftrightarrow> wf_forest f \<and> registered f ns \<and>
     (\<forall>a. registered f a \<longrightarrow> a \<noteq> ns \<longrightarrow> ns_exists (deref f a) \<or> ns_parent (deref f a) = None) \<and>
     (\<forall>a. registered f a \<longrightarrow> in_cycle f a \<longrightarrow>
        (a, ns) \<in> (parent_rel f)\<^sup>* \<or> (\<exists>b. (a, b) \<in> (parent_rel f)\<^sup>* \<and> IsHalted f (Some b)))"

lemma quiet_inv_except:
  assumes q: "quiet f g" and "inv_except ns f"
  shows "inv_except ns g"
  using assms(2) quiet_halted [OF q]
  unfolding inv_except_def shape_simps [OF quiet_shape [OF q]] quiet_exists [OF q] by metis

lemma inv_except_safe:
  assumes "inv_except ns f" "ns_exists (deref f ns) \<or> ns_parent (deref f ns) = None"
  shows "safe_drop f ns"
proof -
  have wf: "wf_forest f" and reg: "registered f ns" using assms(1) by (auto simp: inv_except_def)
  have "parents_exist f"
    using assms(1,2) unfolding inv_except_def parents_exist_iff [OF wf] by metis
  then show ?thesis using parents_exist_safe wf reg by blast
qed

text \<open>Once the namespace exists and is halted if it is in a cycle, the invariant is back.\<close>

lemma inv_except_close:
  assumes "inv_except ns f" "ns_exists (deref f ns) \<or> ns_parent (deref f ns) = None"
    and "in_cycle f ns \<longrightarrow> IsHalted f (Some ns)"
  shows "forest_inv f"
proof -
  have wf: "wf_forest f" using assms(1) by (simp add: inv_except_def)
  have "parents_exist f"
    using assms(1,2) unfolding inv_except_def parents_exist_iff [OF wf] by metis
  moreover have "\<exists>b. (a, b) \<in> (parent_rel f)\<^sup>* \<and> IsHalted f (Some b)" if a: "registered f a" "in_cycle f a" for a
  proof (cases "(a, ns) \<in> (parent_rel f)\<^sup>*")
    case True
    have "(ns, a) \<in> (parent_rel f)\<^sup>*" by (rule cycle_back [OF a(2) True])
    from rtrancl_trancl_trancl [OF this a(2) [unfolded in_cycle_def]]
    have "(ns, ns) \<in> (parent_rel f)\<^sup>+" by (rule trancl_rtrancl_trancl [OF _ True])
    then have "IsHalted f (Some ns)" using assms(3) by (simp add: in_cycle_def)
    then show ?thesis using True by (intro exI [of _ ns]) simp
  next
    case False
    then show ?thesis using a assms(1) unfolding inv_except_def by metis
  qed
  ultimately show ?thesis using wf by (simp add: forest_inv_def cycles_halted_def)
qed

section \<open>The steps that are not quiet\<close>

lemma alloc_frame_all:
  "ns_parent (deref (alloc nm f) a) = ns_parent (deref f a)"
  "ns_exists (deref (alloc nm f) a) = ns_exists (deref f a)"
  "IsHalted (alloc nm f) (Some a) = IsHalted f (Some a)"
  "parent_rel (alloc nm f) = parent_rel f" "in_cycle (alloc nm f) a = in_cycle f a"
proof -
  have blank: "deref f (length (f_heap f)) = newNamespace ''''" by (simp add: deref_def)
  then show p: "ns_parent (deref (alloc nm f) a) = ns_parent (deref f a)" for a
    by (simp add: deref_alloc)
  show "ns_exists (deref (alloc nm f) a) = ns_exists (deref f a)"
    "IsHalted (alloc nm f) (Some a) = IsHalted f (Some a)"
    using blank by (simp_all add: deref_alloc IsHalted_def)
  show "parent_rel (alloc nm f) = parent_rel f" "in_cycle (alloc nm f) a = in_cycle f a"
    by (simp_all add: in_cycle_def parent_rel_def p)
qed

lemma alloc_inv:
  assumes "forest_inv f" "map_of (f_namespaces f) nm = None" "nm \<noteq> ''''"
  shows "forest_inv (alloc nm f)"
proof -
  have wf: "wf_forest f" using assms(1) by (simp add: forest_inv_def)
  note wfa = wf_alloc [OF wf assms(2,3)]
  have new: "ns_parent (deref f (length (f_heap f))) = None" by (simp add: deref_def)
  then have "\<not> in_cycle f (length (f_heap f))" by (auto simp: in_cycle_def trancl_parent)
  then show ?thesis
    using assms(1) wfa new
    by (auto simp: forest_inv_def cycles_halted_def parents_exist_iff [OF wf] parents_exist_iff [OF wfa]
        registered_alloc [OF wf assms(2)] alloc_frame_all)
qed

lemma alloc_inv_except:
  assumes "inv_except ns f" "map_of (f_namespaces f) nm = None" "nm \<noteq> ''''"
  shows "inv_except ns (alloc nm f)"
proof -
  have wf: "wf_forest f" using assms(1) by (simp add: inv_except_def)
  have new: "ns_parent (deref f (length (f_heap f))) = None" by (simp add: deref_def)
  then have "\<not> in_cycle f (length (f_heap f))" by (auto simp: in_cycle_def trancl_parent)
  then show ?thesis
    using assms(1) wf_alloc [OF wf assms(2,3)] new
    by (auto simp: inv_except_def registered_alloc [OF wf assms(2)] alloc_frame_all)
qed

lemma GetP_inv:
  assumes "forest_inv f" "nm \<noteq> ''''"
  shows "\<exists>a g. GetP nm f = Some (a, g) \<and> forest_inv g \<and> registered g a \<and> nm_of g a = nm"
proof -
  have wf: "wf_forest f" using assms(1) by (simp add: forest_inv_def)
  obtain a where a: "fst (Get nm f) = Some a" "registered (snd (Get nm f)) a" "nm_of (snd (Get nm f)) a = nm"
    using Get_result [OF wf assms(2)] .
  have "forest_inv (snd (Get nm f))"
    using assms alloc_inv by (cases nm f rule: Get_cases) (auto simp: alloc_def)
  then show ?thesis
    using a by (auto simp: GetP_def split: prod.splits)
qed

lemma ClearConditions_except:
  assumes "forest_inv f" "registered f ns"
  shows "inv_except ns (ClearConditions ns f)"
proof -
  let ?g = "ClearConditions ns f"
  have sh: "same_shape f ?g"
    unfolding ClearConditions_def by (rule same_shape_modify) simp_all
  have ex: "ns_exists (deref ?g a) = ns_exists (deref f a)" for a
    unfolding ClearConditions_def by (rule modify_field) simp
  have halted: "IsHalted f (Some a) \<Longrightarrow> a \<noteq> ns \<Longrightarrow> IsHalted ?g (Some a)" for a
    by (simp add: IsHalted_def ClearConditions_def deref_modify_other)
  have wf: "wf_forest f" using assms(1) by (simp add: forest_inv_def)
  have "(a, ns) \<in> (parent_rel f)\<^sup>* \<or> (\<exists>b. (a, b) \<in> (parent_rel f)\<^sup>* \<and> IsHalted ?g (Some b))"
    if "registered f a" "in_cycle f a" for a
    using that assms(1) halted unfolding forest_inv_def cycles_halted_def by metis
  then show ?thesis
    using assms ex unfolding inv_except_def shape_simps [OF sh] forest_inv_def parents_exist_iff [OF wf]
    by metis
qed

lemma relinked_conditions: "ns_conditions (deref (relinked f ns p) a) = ns_conditions (deref f a)"
  by (rule relinked_field) simp_all

lemma rtrancl_avoid:
  assumes "\<And>x y. x \<noteq> n \<Longrightarrow> (x, y) \<in> R \<Longrightarrow> (x, y) \<in> S" "(a, b) \<in> R\<^sup>*" "(a, n) \<notin> R\<^sup>*"
  shows "(a, b) \<in> S\<^sup>*"
  using assms(2)
proof (induction rule: rtrancl_induct)
  case (step y z)
  then have "y \<noteq> n" using assms(3) by auto
  then show ?case using step assms(1) by (meson rtrancl.rtrancl_into_rtrancl)
qed simp

lemma SetParent_except:
  assumes "inv_except ns f" "can_relink f ns p"
  shows "\<exists>g. SetParent ns p f = Some g \<and> inv_except ns g \<and> ns_parent (deref g ns) = p \<and>
    (\<forall>a. ns_exists (deref g a) = ns_exists (deref f a)) \<and> (\<forall>a. IsHalted g (Some a) = IsHalted f (Some a)) \<and>
    (\<forall>a. IsExternal g a = IsExternal f a) \<and> (\<forall>a. nm_of g a = nm_of f a)"
proof -
  have wf: "wf_forest f" and reg: "registered f ns" using assms(1) by (auto simp: inv_except_def)
  obtain g where g: "SetParent ns p f = Some g" "usage_only (relinked f ns p) g"
    using SetParent_total [OF wf reg assms(2)] by blast
  note sh = shape_simps [OF usage_only_shape [OF g(2)]] and rf = relinked_facts [OF wf reg assms(2)]
  let ?R = "parent_rel f" and ?S = "parent_rel (relinked f ns p)"
  note pr = relinked_parent_rel [OF wf reg assms(2)]
  have ex: "ns_exists (deref g a) = ns_exists (deref f a)" for a
    by (simp add: usage_only_exists [OF g(2)] relinked_exists)
  have "ns_conditions (deref g a) = ns_conditions (deref f a)" for a
    using usage_only_field [OF g(2), of ns_conditions] relinked_conditions by simp
  then have hal: "IsHalted g (Some a) = IsHalted f (Some a)" for a
    by (simp add: IsHalted_def)
  have "ns_Manager (deref g a) = ns_Manager (deref f a)" for a
    using usage_only_field [OF g(2), of ns_Manager] relinked_field [of ns_Manager f ns p a] by simp
  then have ext: "IsExternal g a = IsExternal f a" for a
    by (simp add: IsExternal_def)
  have cyc: "(a, ns) \<in> ?S\<^sup>* \<or> (\<exists>b. (a, b) \<in> ?S\<^sup>* \<and> IsHalted f (Some b))"
    if a: "registered f a" "in_cycle (relinked f ns p) a" for a
  proof (cases "(a, ns) \<in> ?S\<^sup>*")
    case False
    have out: "x \<noteq> ns \<Longrightarrow> (x, y) \<in> ?S \<longleftrightarrow> (x, y) \<in> ?R" for x y
      using pr by simp
    have nR: "(a, ns) \<notin> ?R\<^sup>*"
      using False rtrancl_to_cut [of ns ?R ?S a] out by blast
    have "(a, a) \<in> ?R\<^sup>+"
      using trancl_cut [of ns ?S ?R a a] a(2) False out by (auto simp: in_cycle_def)
    then obtain b where "(a, b) \<in> ?R\<^sup>*" "IsHalted f (Some b)"
      using assms(1) a(1) nR unfolding inv_except_def in_cycle_def by metis
    then show ?thesis
      using rtrancl_avoid [of ns ?R ?S a b] out nR by metis
  qed simp
  have "inv_except ns g"
    using assms(1) rf cyc not_self_dropped [OF can_relink_safe [OF assms(2)]]
    unfolding inv_except_def sh ex hal by metis
  then show ?thesis
    using g(1) ex hal ext rf(3,4) by (simp add: sh)
qed

end
