(* ===== verification/Hierarchy_Sync.thy ===== *)
theory Hierarchy_Sync
  imports Hierarchy_Invariant
begin

text \<open>
  Each function that \<open>syncWithForest\<close> calls, and then the whole reconciliation: it returns in every
  state that satisfies the invariant and the invariant holds afterwards.
\<close>

section \<open>Functions before the change of parent\<close>

lemma env_enqueue [simp]: "env_forest (enqueueAffected xs e) = env_forest e"
  by (simp add: enqueueAffected_def)

lemma env_OnChange [simp]: "env_forest (OnChangeNamespace ns e) = env_forest e"
  by (simp add: OnChangeNamespace_def)

lemma enqueue_descendants_ok:
  assumes "wf_forest (env_forest e)" "registered (env_forest e) ns"
  shows "\<exists>e'. enqueue_descendants ns e = Some e' \<and> env_forest e' = env_forest e"
  using DescendantNames_eq [OF assms] by (auto simp: enqueue_descendants_def)

lemma quiet_Manager: "quiet f (modify ns (\<lambda>n. n\<lparr>ns_Manager := m\<rparr>) f)"
  by (rule quiet_modify) simp_all

lemma quiet_IsSub: "quiet f (modify ns (\<lambda>n. n\<lparr>ns_IsSub := b\<rparr>) f)"
  by (rule quiet_modify) simp_all

lemma syncExternalNamespace_ok:
  assumes "wf_forest (env_forest e)" "registered (env_forest e) ns"
  shows "\<exists>e'. syncExternalNamespace nsInst ns e = Some e' \<and> quiet (env_forest e) (env_forest e')"
  using enqueue_descendants_ok [OF assms] by (auto simp: syncExternalNamespace_def Let_def quiet_Manager)

lemma syncSubnamespaceParent_ok:
  "quiet (env_forest e) (env_forest (snd (syncSubnamespaceParent now inst nsInst ns pa e)))"
  using quiet_trans [OF quiet_IsSub quiet_SetCondition]
  by (auto simp: syncSubnamespaceParent_def Let_def quiet_IsSub split: option.splits)

section \<open>syncParent\<close>

definition synced :: "nsptr \<Rightarrow> Forest \<Rightarrow> bool" where
  "synced ns f \<longleftrightarrow> inv_except ns f \<and> (in_cycle f ns \<longrightarrow> IsHalted f (Some ns))"

lemma synced_setCycle:
  assumes "inv_except ns f"
  shows "synced ns (setCycleCondition now ns f)"
proof -
  note q = quiet_setCycleCondition [of f now ns]
  have "wf_forest f" "registered f ns" using assms by (auto simp: inv_except_def)
  then show ?thesis
    using quiet_inv_except [OF q assms] setCycleCondition_halts
    unfolding synced_def same_shape_in_cycle [OF quiet_shape [OF q]] by blast
qed

lemma Get_except:
  assumes "inv_except ns f"
  shows "inv_except ns (snd (Get nm f)) \<and>
    (\<forall>q. fst (Get nm f) = Some q \<longrightarrow> registered (snd (Get nm f)) q \<and> nm_of (snd (Get nm f)) q = nm) \<and>
    (fst (Get nm f) = None \<longleftrightarrow> nm = '''') \<and>
    ns_parent (deref (snd (Get nm f)) a) = ns_parent (deref f a) \<and>
    ns_exists (deref (snd (Get nm f)) a) = ns_exists (deref f a)"
proof -
  have wf: "wf_forest f" using assms by (simp add: inv_except_def)
  show ?thesis
  proof (cases nm f rule: Get_cases)
    case (2 q)
    then show ?thesis
      using assms wf_lookup_registered [OF wf] wf_name [OF wf] by simp
  next
    case 3
    then show ?thesis
      using alloc_inv_except [OF assms 3(2,1)] registered_alloc [OF wf 3(2)] alloc_frame_all [of nm f]
        deref_alloc [of nm f "length (f_heap f)"] by (simp flip: alloc_def)
  qed (use assms in simp)
qed

lemma Get_nm:
  assumes "wf_forest f" "registered f a"
  shows "nm_of (snd (Get nm f)) a = nm_of f a"
  using registered_valid [OF assms] by (cases nm f rule: Get_cases) (simp_all add: deref_alloc valid_def flip: alloc_def)

text \<open>The parent that the namespace ends up with.\<close>

definition parent_named :: "Forest \<Rightarrow> nsptr \<Rightarrow> string \<Rightarrow> bool" where
  "parent_named f ns nm = (case ns_parent (deref f ns) of None \<Rightarrow> nm = '''' | Some q \<Rightarrow> nm_of f q = nm \<and> nm \<noteq> '''')"

lemma syncParent_ok:
  assumes "inv_except ns (env_forest e)"
    and "ns_exists (deref (env_forest e) ns) \<or> ns_parent (deref (env_forest e) ns) = None"
  shows "\<exists>e'. syncParent now c inst ns e = Some e' \<and> synced ns (env_forest e') \<and>
    parent_named (env_forest e') ns (if IsExternal (env_forest e) ns then '''' else hc_parent inst) \<and>
    nm_of (env_forest e') ns = nm_of (env_forest e) ns"
proof (cases "IsExternal (env_forest e) ns")
  case True
  let ?e = "case ns_parent (deref (env_forest e) ns) of None \<Rightarrow> e
     | Some p \<Rightarrow> enqueueAffected [Name (env_forest e) (Some p)] e"
  have e: "env_forest ?e = env_forest e" by (simp split: option.splits)
  have "can_relink (env_forest e) ns None"
    using inv_except_safe [OF assms] by (simp add: can_relink_def)
  then obtain g where g: "SetParent ns None (env_forest e) = Some g" "inv_except ns g" "ns_parent (deref g ns) = None"
      "nm_of g ns = nm_of (env_forest e) ns"
    using SetParent_except [OF assms(1)] by blast
  have "ns_parent (deref (setCycleCondition now ns g) ns) = None" "nm_of (setCycleCondition now ns g) ns = nm_of (env_forest e) ns"
    using g(3,4) by (simp_all add: shape_simps [OF quiet_shape [OF quiet_setCycleCondition]])
  then show ?thesis
    using True g(1) e synced_setCycle [OF g(2)]
    by (simp add: syncParent_def syncParent_body_def parent_named_def Let_def)
next
  case False
  let ?nm = "hc_parent inst"
  define cur where "cur = fst (Get ?nm (env_forest e))"
  define f1 where "f1 = snd (Get ?nm (env_forest e))"
  have get: "Get ?nm (env_forest e) = (cur, f1)" by (simp add: cur_def f1_def)
  note gx = Get_except [OF assms(1), of ?nm ns, folded cur_def f1_def]
  have gn: "nm_of f1 ns = nm_of (env_forest e) ns"
    using Get_nm [of "env_forest e" ns] assms(1) by (simp add: f1_def inv_except_def)
  define f2 where "f2 = parent_condition now c ?nm ns cur f1"
  have q2: "quiet f1 f2"
    by (auto simp: f2_def parent_condition_def quiet_SetCondition split: option.splits)
  note sh2 = shape_simps [OF quiet_shape [OF q2]]
  have inv2: "inv_except ns f2" and ex2: "ns_exists (deref f2 ns) \<or> ns_parent (deref f2 ns) = None"
    using quiet_inv_except [OF q2] gx assms(2) by (auto simp: sh2 quiet_exists [OF q2])
  have named2: "parent_named f2 ns ?nm" if "cur = ns_parent (deref f2 ns)"
    using that gx by (auto simp: parent_named_def sh2 split: option.splits)
  show ?thesis
  proof (cases "cur = ns_parent (deref f2 ns)")
    case True
    have "syncParent now c inst ns e = Some (e\<lparr>env_forest := setCycleCondition now ns f2\<rparr>)"
      using False by (simp add: syncParent_def syncParent_body_def get f2_def [symmetric] True [symmetric] Let_def)
    moreover have "parent_named (setCycleCondition now ns f2) ns ?nm \<and>
        nm_of (setCycleCondition now ns f2) ns = nm_of (env_forest e) ns"
      using named2 [OF True] gn
      by (simp add: parent_named_def shape_simps [OF quiet_shape [OF quiet_setCycleCondition]] sh2
          cong: option.case_cong)
    ultimately show ?thesis
      using synced_setCycle [OF inv2] False by simp
  next
    case neq: False
    have can: "can_relink f2 ns cur"
      using inv_except_safe [OF inv2 ex2] gx neq
      by (auto simp: can_relink_def dropped_def sh2 split: option.splits)
    obtain g where g: "SetParent ns cur f2 = Some g" "inv_except ns g" "ns_parent (deref g ns) = cur"
      "\<And>a. nm_of g a = nm_of f2 a"
      using SetParent_except [OF inv2 can] by blast
    define e2 where "e2 = enqueueAffected [Name g cur] (enqueueAffected [Name g (ns_parent (deref f2 ns))]
        ((enqueueAffected (CycleNames f2 ns) (e\<lparr>env_forest := f2\<rparr>))\<lparr>env_forest := g\<rparr>))"
    have e2: "env_forest e2 = g" by (simp add: e2_def)
    have "wf_forest g" "registered g ns" using g(2) by (auto simp: inv_except_def)
    then obtain e3 where e3: "enqueue_descendants ns e2 = Some e3" "env_forest e3 = g"
      using enqueue_descendants_ok [of e2 ns] e2 by auto
    have "syncParent now c inst ns e = Some (e3\<lparr>env_forest := setCycleCondition now ns g\<rparr>)"
      using False neq g(1) e3 by (simp add: syncParent_def syncParent_body_def get f2_def [symmetric] Let_def
          e2_def [symmetric])
    moreover have "parent_named (setCycleCondition now ns g) ns ?nm \<and>
        nm_of (setCycleCondition now ns g) ns = nm_of (env_forest e) ns"
      using gx gn by (auto simp: parent_named_def shape_simps [OF quiet_shape [OF quiet_setCycleCondition]]
          g(3,4) sh2 split: option.splits)
    ultimately show ?thesis
      using synced_setCycle [OF g(2)] False by simp
  qed
qed

lemma markExisting_forest: "env_forest (markExisting ns e) = modify ns (\<lambda>n. n\<lparr>ns_exists := True\<rparr>) (env_forest e)"
  by (simp add: markExisting_def SetExists_def Let_def)

lemma markExisting_inv:
  assumes "synced ns (env_forest e)"
  shows "forest_inv (env_forest (markExisting ns e)) \<and> registered (env_forest (markExisting ns e)) ns \<and>
    ns_exists (deref (env_forest (markExisting ns e)) ns)"
proof -
  let ?f = "env_forest e" and ?g = "modify ns (\<lambda>n. n\<lparr>ns_exists := True\<rparr>) (env_forest e)"
  note sh = shape_simps [OF same_shape_exists [of ?f ns True]]
  have inv: "inv_except ns ?f" using assms by (simp add: synced_def)
  then have wf: "wf_forest ?f" "registered ?f ns" by (auto simp: inv_except_def)
  have hal: "IsHalted ?g (Some a) = IsHalted ?f (Some a)" for a
    using modify_field [of ns_conditions "\<lambda>n. n\<lparr>ns_exists := True\<rparr>" ns ?f a] by (simp add: IsHalted_def)
  have ex: "ns_exists (deref ?g a) = (a = ns \<or> ns_exists (deref ?f a))" for a
    using registered_valid [OF wf] by (simp add: deref_modify)
  have "inv_except ns ?g"
    using inv unfolding inv_except_def sh hal ex by metis
  then have "forest_inv ?g"
    using inv_except_close [of ns ?g] assms ex by (simp add: synced_def sh hal)
  then show ?thesis
    using wf ex by (simp add: markExisting_forest sh)
qed

section \<open>Labels, annotations and anchors\<close>

text \<open>The walks up the tree stop at an external or halted namespace.\<close>

lemma label_walk_None: "label_walk f None d i = Some i"
  by (simp add: label_walk.simps)

lemma annotation_walk_None: "annotation_walk f None i = Some i"
  by (simp add: annotation_walk.simps)

definition label_upd :: "Forest \<Rightarrow> nsptr \<Rightarrow> nat \<times> NamespaceInst \<Rightarrow> nat \<times> NamespaceInst" where
  "label_upd f a = (\<lambda>(d, i). (Suc d, fold (\<lambda>(k, v) i. SetLabel_ns i k v) (nil_map (ns_ManagedLabels (deref f a)))
     (SetLabel_ns i (ns_name (deref f a) @ LabelTreeDepthSuffix) (Itoa (int d)))))"

definition annotation_upd :: "Forest \<Rightarrow> nsptr \<Rightarrow> NamespaceInst \<Rightarrow> NamespaceInst" where
  "annotation_upd f a i = fold (\<lambda>(k, v) i. SetAnnotation_ns i k v) (nil_map (ns_ManagedAnnotations (deref f a))) i"

interpretation lw: root_walk "\<lambda>f ns s. label_walk f ns (fst s) (snd s)" label_upd
  "\<lambda>f a. IsExternal f a \<or> IsHalted f (Some a)"
proof unfold_locales
  fix f a and s :: "nat \<times> NamespaceInst"
  show "label_walk f None (fst s) (snd s) \<noteq> None"
    by (simp add: label_walk_None)
  show "IsExternal f a \<or> IsHalted f (Some a) \<Longrightarrow> label_walk f (Some a) (fst s) (snd s) \<noteq> None"
    by (subst label_walk.simps) (auto simp: Let_def)
  show "\<not> (IsExternal f a \<or> IsHalted f (Some a)) \<Longrightarrow> label_walk f (Some a) (fst s) (snd s) =
      label_walk f (ns_parent (deref f a)) (fst (label_upd f a s)) (snd (label_upd f a s))"
    by (subst label_walk.simps) (simp add: label_upd_def Let_def split: prod.splits)
qed

interpretation aw: root_walk annotation_walk annotation_upd "\<lambda>f a. IsHalted f (Some a)"
proof unfold_locales
  fix f a i
  show "annotation_walk f None i \<noteq> None"
    by (simp add: annotation_walk_None)
  show "IsHalted f (Some a) \<Longrightarrow> annotation_walk f (Some a) i \<noteq> None"
    by (subst annotation_walk.simps) (simp add: Let_def)
  show "\<not> IsHalted f (Some a) \<Longrightarrow> annotation_walk f (Some a) i =
      annotation_walk f (ns_parent (deref f a)) (annotation_upd f a i)"
    by (subst annotation_walk.simps) (simp add: annotation_upd_def Let_def)
qed

lemma inv_halts:
  assumes "forest_inv f" "registered f a"
  shows "acyclic_ns f a \<or> (\<exists>b. (a, b) \<in> (parent_rel f)\<^sup>* \<and> IsHalted f (Some b))"
  using assms cycles_halted_returns [of f a] by (simp add: forest_inv_def)

lemma label_walk_returns:
  assumes "forest_inv f" "registered f a"
  shows "\<exists>r. label_walk f (Some a) d i = Some r"
  using lw.returns [of f a "(d, i)"] inv_halts [OF assms] assms by (auto simp: forest_inv_def)

lemma annotation_walk_returns:
  assumes "forest_inv f" "registered f a"
  shows "\<exists>r. annotation_walk f (Some a) i = Some r"
  using aw.returns [of f a i] inv_halts [OF assms] assms by (auto simp: forest_inv_def)

lemma managed_from_spec_quiet:
  assumes "\<And>k f. quiet f (set_cond k f)"
  shows "quiet f (snd (managed_from_spec legal set_cond kvps f))"
proof -
  have "quiet f (snd (fold (\<lambda>kvp (managed, f).
     if \<not> legal (kvp_key kvp) then (managed, set_cond (kvp_key kvp) f)
     else (AList.update (kvp_key kvp) (kvp_value kvp) managed, f)) kvps (m, f)))" for m
    by (induction kvps arbitrary: m f) (auto intro: quiet_trans [OF assms])
  then show ?thesis by (simp add: managed_from_spec_def)
qed

lemma quiet_SetLabels: "quiet f (snd (SetLabels ns ls f))"
  by (simp add: SetLabels_def) (rule quiet_modify, simp_all)

lemma quiet_SetAnchors: "quiet f (snd (SetAnchors ns as f))"
  by (simp add: SetAnchors_def Let_def split: prod.splits) (intro allI impI quiet_modify, simp_all)

lemma quiet_UpdateAllow: "quiet f (snd (UpdateAllowCascadingDeletion ns b f))"
  by (simp add: UpdateAllowCascadingDeletion_def) (intro impI quiet_modify, simp_all)

text \<open>What the functions after \<open>markExisting\<close> need and keep.\<close>

definition settled :: "nsptr \<Rightarrow> HCEnv \<Rightarrow> bool" where
  "settled ns e \<longleftrightarrow> forest_inv (env_forest e) \<and> registered (env_forest e) ns"

lemma quiet_settled: "settled ns e \<Longrightarrow> quiet (env_forest e) (env_forest e') \<Longrightarrow> settled ns e'"
  by (auto simp: settled_def quiet_inv shape_simps [OF quiet_shape])

lemma settled_enqueue:
  assumes "settled ns e"
  shows "\<exists>e'. enqueue_descendants ns e = Some e' \<and> env_forest e' = env_forest e"
  using enqueue_descendants_ok assms by (simp add: settled_def forest_inv_def)

lemma quiet_ManagedLabels: "quiet f (modify ns (\<lambda>n. n\<lparr>ns_ManagedLabels := m\<rparr>) f)"
  by (rule quiet_modify) simp_all

lemma quiet_ManagedAnnotations: "quiet f (modify ns (\<lambda>n. n\<lparr>ns_ManagedAnnotations := m\<rparr>) f)"
  by (rule quiet_modify) simp_all

lemma enqueue_if_quiet:
  assumes "settled ns e" "quiet (env_forest e) (env_forest e')"
  shows "\<exists>e''. (if b then enqueue_descendants ns e' else Some e) = Some e'' \<and> quiet (env_forest e) (env_forest e'')"
  using settled_enqueue [OF quiet_settled [OF assms]] assms(2) by auto

text \<open>A lookup of the walk's result in the option monad.\<close>

lemma IsExternal_modify:
  "(\<And>n. ns_Manager (g n) = ns_Manager n) \<Longrightarrow> IsExternal (modify ns g f) a = IsExternal f a"
  using modify_field [of ns_Manager g ns f a] by (simp add: IsExternal_def)

lemma syncLabels_steps:
  assumes "settled ns e"
  shows "\<exists>i3 f3 i4 e'. syncLabels now c inst nsInst ns e = Some (i4, e') \<and> quiet (env_forest e) f3 \<and>
    label_walk f3 (Some ns) 0 i3 = Some i4 \<and>
    env_forest e' = snd (SetLabels ns (nsi_labels i4) f3) \<and>
    (\<not> IsExternal f3 ns \<longrightarrow> (\<exists>m m'. strip_labels c False (nsi_labels nsInst) m = (nsi_labels i3, m')))"
proof -
  define cond where "cond = (\<lambda>k. SetCondition now ns ConditionBadConfiguration ReasonIllegalManagedLabel
          (''Not a legal managed label (set via --managed-namespace-label): '' @ k))"
  obtain m f where mf: "managed_from_spec (IsManagedLabel c) cond (hc_labels inst) (env_forest e) = (m, f)"
    by fastforce
  have q: "quiet (env_forest e) f"
    using managed_from_spec_quiet [of cond "env_forest e" "IsManagedLabel c" "hc_labels inst"] mf
    by (simp add: cond_def quiet_SetCondition)
  obtain ls m' where ls: "strip_labels c (IsExternal f ns) (nsi_labels nsInst) m = (ls, m')"
    by fastforce
  define m2 where "m2 = (if length m' = 0 then None else Some m')"
  let ?e = "e\<lparr>env_forest := f\<rparr>"
  have s: "settled ns ?e" by (rule quiet_settled [OF assms]) (simp add: q)
  obtain e2 where e2: "(if \<not> DeepEqual_map (ns_ManagedLabels (deref f ns)) m2
       then enqueue_descendants ns (on_forest (modify ns (\<lambda>n. n\<lparr>ns_ManagedLabels := m2\<rparr>)) ?e)
       else Some ?e) = Some e2" "quiet f (env_forest e2)"
      "IsExternal (env_forest e2) ns = IsExternal f ns"
    using settled_enqueue [OF quiet_settled [OF s], of "on_forest (modify ns (\<lambda>n. n\<lparr>ns_ManagedLabels := m2\<rparr>)) ?e"]
    by (cases "DeepEqual_map (ns_ManagedLabels (deref f ns)) m2")
      (fastforce simp: quiet_ManagedLabels IsExternal_modify)+
  define i1 where "i1 = nsInst\<lparr>nsi_labels := ls\<rparr>"
  obtain i3 e3 where e3: "(if IsExternal (env_forest e2) ns
       then (let nsInst = SetLabel_ns i1 (nsi_name i1 @ LabelTreeDepthSuffix) ''0''
             in (nsInst, on_forest (\<lambda>f. snd (SetLabels ns (nsi_labels nsInst) f)) e2))
       else (i1, e2)) = (i3, e3)" by fastforce
  have q3: "quiet (env_forest e2) (env_forest e3)"
    using e3 by (auto simp: Let_def quiet_SetLabels split: if_splits)
  have x3: "\<not> IsExternal (env_forest e3) ns \<longrightarrow> i3 = i1 \<and> \<not> IsExternal f ns"
    using e3 e2(3) by (auto simp: Let_def SetLabels_def IsExternal_modify split: if_splits)
  have q03: "quiet (env_forest e) (env_forest e3)"
    by (rule quiet_trans [OF q quiet_trans [OF e2(2) q3]])
  obtain i4 where i4: "label_walk (env_forest e3) (Some ns) 0 i3 = Some i4"
    using label_walk_returns [of "env_forest e3" ns 0 i3] quiet_settled [OF assms q03] by (auto simp: settled_def)
  have "syncLabels now c inst nsInst ns e = Some (i4,
      let (updated, f) = SetLabels ns (nsi_labels i4) (env_forest e3); e' = e3\<lparr>env_forest := f\<rparr>
      in if updated then OnChangeNamespace ns e' else e')"
    by (simp only: syncLabels_def cond_def [symmetric] mf ls m2_def [symmetric] i1_def [symmetric] e2(1)
        e3 [unfolded Let_def] i4 Let_def prod.case Option.bind.simps) (simp split: prod.splits)
  then obtain e' where "syncLabels now c inst nsInst ns e = Some (i4, e')"
    "env_forest e' = snd (SetLabels ns (nsi_labels i4) (env_forest e3))"
    by (auto simp: Let_def split: prod.splits)
  moreover have "\<not> IsExternal (env_forest e3) ns \<longrightarrow> (\<exists>m m'. strip_labels c False (nsi_labels nsInst) m = (nsi_labels i3, m'))"
    by (intro impI exI [of _ m] exI [of _ m']) (use x3 ls in \<open>simp add: i1_def\<close>)
  ultimately show ?thesis using q03 i4 by blast
qed

lemma syncLabels_ok:
  assumes "settled ns e"
  shows "\<exists>i e'. syncLabels now c inst nsInst ns e = Some (i, e') \<and> quiet (env_forest e) (env_forest e')"
  using syncLabels_steps [OF assms, of now c inst nsInst] quiet_trans quiet_SetLabels by metis

lemma syncAnnotations_ok:
  assumes "settled ns e"
  shows "\<exists>i e'. syncAnnotations now c inst nsInst ns e = Some (i, e') \<and> quiet (env_forest e) (env_forest e')"
proof -
  define cond where "cond = (\<lambda>k. SetCondition now ns ConditionBadConfiguration ReasonIllegalManagedAnnotation
          (''Not a legal managed annotation (set via --managed-namespace-annotation): '' @ k))"
  obtain m f where mf: "managed_from_spec (IsManagedAnnotation c) cond (hc_annotations inst) (env_forest e) = (m, f)"
    by fastforce
  have q: "quiet (env_forest e) f"
    using managed_from_spec_quiet [of cond "env_forest e" "IsManagedAnnotation c" "hc_annotations inst"] mf
    by (simp add: cond_def quiet_SetCondition)
  obtain ls m' where ls: "strip_annotations c (IsExternal f ns) (nsi_annotations nsInst) m = (ls, m')"
    by fastforce
  let ?e = "e\<lparr>env_forest := f\<rparr>"
  have s: "settled ns ?e" by (rule quiet_settled [OF assms]) (simp add: q)
  obtain e2 where e2: "(if \<not> DeepEqual_map (ns_ManagedAnnotations (deref f ns)) (Some m')
       then enqueue_descendants ns (on_forest (modify ns (\<lambda>n. n\<lparr>ns_ManagedAnnotations := Some m'\<rparr>)) ?e)
       else Some ?e) = Some e2" "quiet f (env_forest e2)"
    using enqueue_if_quiet [OF s, of "on_forest (modify ns (\<lambda>n. n\<lparr>ns_ManagedAnnotations := Some m'\<rparr>)) ?e"]
    by (fastforce simp: quiet_ManagedAnnotations)
  have q02: "quiet (env_forest e) (env_forest e2)" by (rule quiet_trans [OF q e2(2)])
  have "settled ns e2" by (rule quiet_settled [OF assms q02])
  then obtain i4 where i4: "annotation_walk (env_forest e2) (Some ns) (nsInst\<lparr>nsi_annotations := ls\<rparr>) = Some i4"
    using annotation_walk_returns unfolding settled_def by blast
  have "\<exists>i. syncAnnotations now c inst nsInst ns e = Some (i, e2)"
    unfolding syncAnnotations_def cond_def [symmetric] mf
    using ls e2(1) i4 by (simp add: Let_def)
  then show ?thesis using q02 by blast
qed

lemma syncAnchors_quiet: "quiet (env_forest e) (env_forest (syncAnchors ns anms e))"
proof -
  have "env_forest (fold (\<lambda>a e. enqueueAffected [a] e) ds e) = env_forest e" for ds e
    by (induction ds arbitrary: e) simp_all
  then show ?thesis
    using quiet_SetAnchors [of "env_forest e" ns anms] by (auto simp: syncAnchors_def Let_def split: prod.splits)
qed

lemma syncConditions_ok:
  assumes "settled ns e"
  shows "\<exists>cs e'. syncConditions inst ns h e = Some (inst\<lparr>hc_conditions := cs\<rparr>, e') \<and>
    env_forest e' = env_forest e \<and> Conditions (env_forest e') ns = Some cs"
  using settled_enqueue [OF assms] Conditions_returns [of "env_forest e" ns] assms
  by (auto simp: syncConditions_def settled_def forest_inv_def split: if_splits)

section \<open>syncWithForest\<close>

text \<open>Whether the namespace is external after the reconciliation, and the parent in its written spec.\<close>

definition external_inst :: "NamespaceInst \<Rightarrow> bool" where
  "external_inst nsInst = (let mgr = get_str (nil_map (nsi_annotations nsInst)) AnnotationManagedBy in
     mgr \<noteq> '''' \<and> mgr \<noteq> MetaGroup)"

definition spec_parent :: "NamespaceInst \<Rightarrow> HierarchyConfiguration \<Rightarrow> string" where
  "spec_parent nsInst inst = (let pnm = get_str (nil_map (nsi_annotations nsInst)) SubnamespaceOf in
     if external_inst nsInst \<or> pnm = '''' \<or> \<not> IsZero (nsi_deletionTimestamp nsInst) then hc_parent inst else pnm)"

lemma IsExternal_Manager:
  assumes "valid f ns"
  shows "IsExternal (modify ns (\<lambda>n. n\<lparr>ns_Manager := m\<rparr>) f) ns \<longleftrightarrow> m \<noteq> '''' \<and> m \<noteq> MetaGroup"
  using assms by (simp add: IsExternal_def deref_modify)

lemma syncExternalNamespace_external:
  assumes "wf_forest (env_forest e)" "registered (env_forest e) ns" "syncExternalNamespace nsInst ns e = Some e'"
  shows "IsExternal (env_forest e') ns = external_inst nsInst"
  using assms(3) enqueue_descendants_ok [OF assms(1,2)] registered_valid [OF assms(1,2)]
  by (auto simp: syncExternalNamespace_def external_inst_def Let_def IsExternal_Manager split: if_splits)

lemma SetCondition_field:
  assumes "\<And>n cs. fld (n\<lparr>ns_conditions := cs\<rparr>) = fld n"
  shows "fld (deref (SetCondition now ns tp r m f) a) = fld (deref f a)"
  using assms modify_field [of fld "\<lambda>n. n\<lparr>ns_conditions := SetStatusCondition now (ns_conditions n)
        \<lparr>cond_type = tp, cond_status = True, cond_lastTransitionTime = 0, cond_reason = r, cond_message = m\<rparr>\<rparr>" ns f a]
  by (simp add: SetCondition_def)

lemma IsExternal_SetCondition: "IsExternal (SetCondition now ns tp r m f) a = IsExternal f a"
  using SetCondition_field [of ns_Manager now ns tp r m f a] by (simp add: IsExternal_def)

lemma IsExternal_IsSub: "IsExternal (modify ns (\<lambda>n. n\<lparr>ns_IsSub := b\<rparr>) f) a = IsExternal f a"
  using modify_field [of ns_Manager "\<lambda>n. n\<lparr>ns_IsSub := b\<rparr>" ns f a] by (simp add: IsExternal_def)

lemma syncSubnamespaceParent_external:
  "IsExternal (env_forest (snd (syncSubnamespaceParent now inst nsInst ns pa e))) a = IsExternal (env_forest e) a"
  by (auto simp: syncSubnamespaceParent_def Let_def IsExternal_SetCondition IsExternal_IsSub split: option.splits)

lemma syncSubnamespaceParent_parent:
  assumes "IsExternal (env_forest e) ns = external_inst nsInst"
  shows "hc_parent (fst (syncSubnamespaceParent now inst nsInst ns pa e)) = spec_parent nsInst inst"
  using assms by (auto simp: syncSubnamespaceParent_def spec_parent_def Let_def split: option.splits)

lemma quiet_parent_named: "quiet f g \<Longrightarrow> parent_named g ns nm = parent_named f ns nm"
  by (simp add: parent_named_def shape_simps [OF quiet_shape] cong: option.case_cong)

lemma ClearConditions_same:
  "same_shape f (ClearConditions ns f)" "ns_exists (deref (ClearConditions ns f) a) = ns_exists (deref f a)"
proof -
  show "same_shape f (ClearConditions ns f)"
    unfolding ClearConditions_def by (rule same_shape_modify) simp_all
  show "ns_exists (deref (ClearConditions ns f) a) = ns_exists (deref f a)"
    unfolding ClearConditions_def by (rule modify_field) simp
qed

text \<open>The namespace is settled: it exists, and its parent is the one of the spec.\<close>

definition placed :: "nsptr \<Rightarrow> string \<Rightarrow> string \<Rightarrow> HCEnv \<Rightarrow> bool" where
  "placed ns nm pnm e \<longleftrightarrow> settled ns e \<and> nm_of (env_forest e) ns = nm \<and>
     ns_exists (deref (env_forest e) ns) \<and> parent_named (env_forest e) ns pnm"

lemma placed_settled: "placed ns nm pnm e \<Longrightarrow> settled ns e"
  by (simp add: placed_def)

lemma quiet_placed: "placed ns nm pnm e \<Longrightarrow> quiet (env_forest e) (env_forest e') \<Longrightarrow> placed ns nm pnm e'"
  using quiet_settled [of ns e e']
  by (simp add: placed_def quiet_parent_named quiet_exists shape_simps [OF quiet_shape])

lemma sync_structure_ok:
  assumes inv: "forest_inv f" and reg: "registered f ns" "nm_of f ns = nm"
  shows "\<exists>e1 inst2 e2 e3. syncExternalNamespace nsInst ns (e\<lparr>env_forest :=
        (if d then SetCondition now ns ConditionActivitiesHalted ReasonDeletingCRD msg (ClearConditions ns f)
         else ClearConditions ns f)\<rparr>) = Some e1 \<and>
      syncSubnamespaceParent now inst nsInst ns pa e1 = (inst2, e2) \<and> hc_parent inst2 = spec_parent nsInst inst \<and>
      syncParent now c inst2 ns e2 = Some e3 \<and>
      placed ns nm (if external_inst nsInst then '''' else hc_parent inst2) (markExisting ns e3)"
proof -
  define f1 where "f1 = (if d then SetCondition now ns ConditionActivitiesHalted ReasonDeletingCRD msg (ClearConditions ns f)
         else ClearConditions ns f)"
  have q1: "quiet (ClearConditions ns f) f1" by (simp add: f1_def quiet_SetCondition)
  have i1: "inv_except ns f1" by (rule quiet_inv_except [OF q1 ClearConditions_except [OF inv reg(1)]])
  then have w1: "wf_forest f1" "registered f1 ns" by (auto simp: inv_except_def)
  have wf: "wf_forest f" and "parents_exist f" using inv by (simp_all add: forest_inv_def)
  then have x1: "ns_exists (deref f1 ns) \<or> ns_parent (deref f1 ns) = None"
    using reg(1) parents_exist_iff [OF wf]
    by (auto simp: quiet_exists [OF q1] shape_simps [OF quiet_shape [OF q1]] ClearConditions_same
        shape_simps [OF ClearConditions_same(1)])
  have n1: "nm_of f1 ns = nm"
    using reg(2) by (simp add: shape_simps [OF quiet_shape [OF q1]] shape_simps [OF ClearConditions_same(1)])
  obtain e1 where e1: "syncExternalNamespace nsInst ns (e\<lparr>env_forest := f1\<rparr>) = Some e1" "quiet f1 (env_forest e1)"
    using syncExternalNamespace_ok [of "e\<lparr>env_forest := f1\<rparr>" ns nsInst] w1 by auto
  have ext: "IsExternal (env_forest e1) ns = external_inst nsInst"
    using syncExternalNamespace_external [OF _ _ e1(1)] w1 by simp
  obtain inst2 e2 where e2: "syncSubnamespaceParent now inst nsInst ns pa e1 = (inst2, e2)" by fastforce
  have p2: "hc_parent inst2 = spec_parent nsInst inst"
    using syncSubnamespaceParent_parent [OF ext, of now inst pa] e2 by simp
  have ext2: "IsExternal (env_forest e2) ns = external_inst nsInst"
    using syncSubnamespaceParent_external [of now inst nsInst ns pa e1 ns] e2 ext by simp
  have q2: "quiet f1 (env_forest e2)"
    using quiet_trans [OF e1(2) syncSubnamespaceParent_ok [of e1 now inst nsInst ns pa]] e2 by simp
  have "inv_except ns (env_forest e2)" "ns_exists (deref (env_forest e2) ns) \<or> ns_parent (deref (env_forest e2) ns) = None"
    using quiet_inv_except [OF q2 i1] x1 by (simp_all add: quiet_exists [OF q2] shape_simps [OF quiet_shape [OF q2]])
  from syncParent_ok [OF this, of now c inst2] obtain e3 where e3: "syncParent now c inst2 ns e2 = Some e3"
    "synced ns (env_forest e3)" "parent_named (env_forest e3) ns (if external_inst nsInst then '''' else hc_parent inst2)"
    "nm_of (env_forest e3) ns = nm_of (env_forest e2) ns"
    unfolding ext2 by blast
  note sh3 = shape_simps [OF same_shape_exists [of "env_forest e3" ns True]]
  have "placed ns nm (if external_inst nsInst then '''' else hc_parent inst2) (markExisting ns e3)"
    using markExisting_inv [OF e3(2)] e3(3,4) n1
    by (simp add: placed_def settled_def markExisting_forest parent_named_def sh3
        shape_simps [OF quiet_shape [OF q2]] cong: option.case_cong)
  then show ?thesis
    unfolding f1_def [symmetric] using e1(1) e2 p2 e3(1) by blast
qed

lemma syncWithForest_ok:
  assumes "forest_inv (env_forest e)" "nsi_name nsInst \<noteq> ''''"
  shows "\<exists>nsInst' inst' e' ns. syncWithForest now c nsInst inst deletingCRD anms pa e = Some (nsInst', inst', e') \<and>
    hc_parent inst' = spec_parent nsInst inst \<and>
    placed ns (nsi_name nsInst) (if external_inst nsInst then '''' else hc_parent inst') e' \<and>
    hc_children inst' = ChildNames (env_forest e') ns \<and> Conditions (env_forest e') ns = Some (hc_conditions inst')"
proof -
  obtain ns f where gp: "GetP (nsi_name nsInst) (env_forest e) = Some (ns, f)" "forest_inv f"
    "registered f ns" "nm_of f ns = nsi_name nsInst"
    using GetP_inv [OF assms] by blast
  define msg where "msg = ''The HierarchyConfiguration CRD is being deleted; all propagation is disabled.''"
  obtain e1 inst2 e2 e3 where s: "syncExternalNamespace nsInst ns (e\<lparr>env_forest :=
        (if deletingCRD then SetCondition now ns ConditionActivitiesHalted ReasonDeletingCRD msg (ClearConditions ns f)
         else ClearConditions ns f)\<rparr>) = Some e1"
      "syncSubnamespaceParent now inst nsInst ns pa e1 = (inst2, e2)" "hc_parent inst2 = spec_parent nsInst inst"
      "syncParent now c inst2 ns e2 = Some e3"
      "placed ns (nsi_name nsInst) (if external_inst nsInst then '''' else hc_parent inst2) (markExisting ns e3)"
    using sync_structure_ok [OF gp(2,3,4)] by blast
  let ?P = "placed ns (nsi_name nsInst) (if external_inst nsInst then '''' else hc_parent inst2)"
  obtain i5 e5 where l: "syncLabels now c inst2 nsInst ns (markExisting ns e3) = Some (i5, e5)" "?P e5"
    using syncLabels_ok [OF placed_settled [OF s(5)]] quiet_placed [OF s(5)] by blast
  obtain i6 e6 where a: "syncAnnotations now c inst2 i5 ns e5 = Some (i6, e6)" "?P e6"
    using syncAnnotations_ok [OF placed_settled [OF l(2)]] quiet_placed [OF l(2)] by blast
  define e7 where "e7 = syncAnchors ns anms e6"
  define e8 where "e8 = on_forest (\<lambda>f. snd (UpdateAllowCascadingDeletion ns (hc_allowCascadingDeletion inst2) f)) e7"
  have "?P e7" unfolding e7_def by (rule quiet_placed [OF a(2) syncAnchors_quiet])
  then have e8: "?P e8"
    by (rule quiet_placed) (simp add: e8_def quiet_UpdateAllow)
  have f8: "snd (UpdateAllowCascadingDeletion ns (hc_allowCascadingDeletion inst2) (env_forest e7)) = env_forest e8"
    and g8: "e7\<lparr>env_forest := env_forest e8\<rparr> = e8"
    by (simp_all add: e8_def)
  obtain cs e9 where cs: "syncConditions (inst2\<lparr>hc_children := ChildNames (env_forest e8) ns\<rparr>) ns (IsHalted f (Some ns)) e8 =
      Some (inst2\<lparr>hc_children := ChildNames (env_forest e8) ns, hc_conditions := cs\<rparr>, e9)"
      "env_forest e9 = env_forest e8" "Conditions (env_forest e9) ns = Some cs"
    using syncConditions_ok [OF placed_settled [OF e8]] by fastforce
  let ?i = "inst2\<lparr>hc_children := ChildNames (env_forest e8) ns, hc_conditions := cs\<rparr>"
  have "\<exists>e'. syncWithForest now c nsInst inst deletingCRD anms pa e =
      Some (i6, if inst \<noteq> ?i \<and> hc_name ?i = '''' then ?i\<lparr>hc_name := Singleton, hc_namespace := nsi_name i6\<rparr> else ?i, e') \<and>
      env_forest e' = env_forest e9"
    unfolding syncWithForest_def msg_def [symmetric]
    by (simp add: gp(1) Let_def s(1,2,4) l(1) a(1) e7_def [symmetric] f8 g8 cs(1))
  then show ?thesis
    using e8 cs(2,3) s(3) by (force simp: placed_def settled_def)
qed

section \<open>Missing namespaces\<close>

lemma inv_to_except: "forest_inv f \<Longrightarrow> registered f ns \<Longrightarrow> inv_except ns f"
  unfolding forest_inv_def inv_except_def cycles_halted_def by (metis parents_exist_iff)

lemma UnsetExists_inv:
  assumes "forest_inv f" "registered f ns"
  shows "\<exists>g. UnsetExists ns f = Some (ns_exists (deref f ns), g) \<and> forest_inv g \<and> \<not> ns_exists (deref g ns)"
proof -
  have wf: "wf_forest f" "parents_exist f" using assms by (simp_all add: forest_inv_def)
  obtain h where h: "UnsetExists ns f = Some (ns_exists (deref f ns), h)" "wf_forest h" "parents_exist h"
    "\<not> ns_exists (deref h ns)"
    using UnsetExists_total [OF wf(1) assms(2) wf(2)] by blast
  have "can_relink f ns None"
    using parents_exist_safe [OF wf assms(2)] by (simp add: can_relink_def)
  then obtain g where g: "SetParent ns None f = Some g" "inv_except ns g" "ns_parent (deref g ns) = None"
    using SetParent_except [OF inv_to_except [OF assms]] by blast
  then have "cycles_halted g"
    using inv_except_close [OF g(2)] by (simp add: forest_inv_def in_cycle_def trancl_parent)
  moreover define k where "k = modify ns (\<lambda>n. n\<lparr>ns_exists := False\<rparr>) g"
  note shk = shape_simps [OF same_shape_exists [of g ns False]]
  have "IsHalted k (Some a) = IsHalted g (Some a)" for a
    using modify_field [of ns_conditions "\<lambda>n. n\<lparr>ns_exists := False\<rparr>" ns g a] by (simp add: IsHalted_def k_def)
  ultimately have "cycles_halted k"
    unfolding cycles_halted_def k_def shk by metis
  moreover have "h = clean ns k" using h(1) g(1) by (simp add: UnsetExists_def k_def)
  ultimately have "cycles_halted h"
    by (auto simp: cycles_halted_def clean_def Let_def registered_def in_cycle_def parent_rel_def IsHalted_def
        deref_set_namespaces map_of_delete' split: if_splits)
  then show ?thesis using h by (simp add: forest_inv_def)
qed

lemma onMissingNamespace_ok:
  assumes "forest_inv (env_forest e)" "nm \<noteq> ''''"
  shows "\<exists>e'. onMissingNamespace nm e = Some e' \<and> forest_inv (env_forest e')"
proof -
  obtain ns f where "GetP nm (env_forest e) = Some (ns, f)" "forest_inv f" "registered f ns"
    using GetP_inv [OF assms] by blast
  then show ?thesis
    using UnsetExists_inv [of f ns] by (auto simp: onMissingNamespace_def Let_def)
qed

section \<open>The reconciliation\<close>

text \<open>The namespace that was read is the one that was asked for.\<close>

definition reads_ns :: "string \<Rightarrow> HCReads \<Rightarrow> bool" where
  "reads_ns nm rd = (nm \<noteq> '''' \<and> (case rd_namespace rd of Found i \<Rightarrow> nsi_name i = nm | _ \<Rightarrow> True))"

lemma name_addIncluded [simp]: "nsi_name (addIncludedNamespaceLabel i) = nsi_name i"
  by (simp add: addIncludedNamespaceLabel_def Let_def)

lemma reconcile_hc_ok:
  assumes "forest_inv (env_forest e)" "reads_ns nm rd"
  shows "\<exists>ws err e'. reconcile_hc now c rd wr nm e = Some (ws, err, e') \<and> forest_inv (env_forest e')"
proof -
  have nm: "nm \<noteq> ''''" using assms(2) by (simp add: reads_ns_def)
  show ?thesis
  proof (cases "rd_namespace rd")
    case (Found i)
    then have "nsi_name (addIncludedNamespaceLabel i) \<noteq> ''''"
      using assms(2) by (simp add: reads_ns_def)
    note sync = syncWithForest_ok [OF assms(1) this]
    define S where "S h d as pa = syncWithForest now c (addIncludedNamespaceLabel i) h d as pa e" for h d as pa
    have "\<exists>r. S h d as pa = Some r \<and> forest_inv (env_forest (snd (snd r)))" for h d as pa
      using sync [of now c h d as pa] by (auto simp: placed_def settled_def S_def)
    then obtain R where R: "S h d as pa = Some (R h d as pa)" "forest_inv (env_forest (snd (snd (R h d as pa))))" for h d as pa
      by metis
    have "forest_inv (env_forest e2)" if "R h d as pa = (x, y, e2)" for h d as pa x y e2
      using R(2) [of h d as pa] that by simp
    then show ?thesis
      using assms(1) Found R(1) unfolding reconcile_hc_def Let_def
      by (auto simp: S_def [symmetric] split: sum.splits prod.splits read.splits)
  next
    case NotFound
    then show ?thesis
      using onMissingNamespace_ok [OF assms(1) nm] by (auto simp: reconcile_hc_def)
  qed (use assms in \<open>simp add: reconcile_hc_def\<close>)
qed

lemma Reconcile_hc_ok:
  assumes "forest_inv (env_forest e)" "reads_ns nm rd"
  shows "\<exists>ws err e'. Reconcile_hc now c rd wr nm e = Some (ws, err, e') \<and> forest_inv (env_forest e')"
  using reconcile_hc_ok [OF assms] assms(1) by (auto simp: Reconcile_hc_def split: prod.splits)

end
