(* ===== verification/Tree_Labels.thy ===== *)
theory Tree_Labels
  imports Hierarchy_Sync
begin

text \<open>
  The labels that the hierarchy reconciler gives a namespace (\<^verbatim>\<open>syncLabels\<close> in
  internal/hierarchyconfig/reconciler.go): after a synchronization the tree labels of a namespace are
  exactly its ancestors with their distances, which is what tree selectors of propagated objects and
  external tools rely on. The depths are printed by \<^verbatim>\<open>strconv.Itoa\<close> and read back by
  \<^verbatim>\<open>strconv.Atoi\<close>, which are inverse on 64-bit integers.
\<close>

section \<open>Numbers in labels\<close>

lemma digits_append:
  "digits (xs @ ys) acc = (case digits xs acc of None \<Rightarrow> None | Some i \<Rightarrow> digits ys i)"
  by (induction xs arbitrary: acc) auto

lemma digit_char:
  assumes "n < 10"
  shows "digits [char_of (48 + n)] acc = Some (10 * acc + int n)"
proof -
  have c: "of_char (char_of (48 + n) :: char) = 48 + n" using assms by simp
  show ?thesis
    using c assms by (simp add: less_eq_char_def)
qed

lemma digits_show_nat: "digits (show_nat n) 0 = Some (int n)"
proof (induction n rule: show_nat.induct)
  case (1 n)
  show ?case
  proof (cases "n < 10")
    case True
    then show ?thesis
      using digit_char [OF True, of 0] by (subst show_nat.simps) simp
  next
    case False
    have "n = 10 * (n div 10) + n mod 10" by simp
    then have "int n = 10 * int (n div 10) + int (n mod 10)"
      by (metis of_nat_add of_nat_mult of_nat_numeral)
    moreover have "show_nat n = show_nat (n div 10) @ [char_of (48 + n mod 10)]"
      using False by (subst show_nat.simps) (simp only: if_False)
    moreover have "n mod 10 < 10" by simp
    ultimately show ?thesis
      using 1 [OF False] digit_char [of "n mod 10" "int (n div 10)"]
      by (simp only: digits_append option.case)
  qed
qed

lemma show_nat_starts: "\<exists>d cs. show_nat n = char_of (48 + d) # cs \<and> d < (10 :: nat)"
proof (induction n rule: show_nat.induct)
  case (1 n)
  show ?case
  proof (cases "n < 10")
    case True
    then show ?thesis by (subst show_nat.simps) (auto intro!: exI [of _ n])
  next
    case False
    obtain d :: nat and cs where "show_nat (n div 10) = char_of (48 + d) # cs" "d < 10" using 1 [OF False] by blast
    then show ?thesis using False by (subst show_nat.simps) (auto intro!: exI [of _ d])
  qed
qed

lemma digit_not_sign:
  assumes "d < (10 :: nat)"
  shows "char_of (48 + d) \<noteq> CHR ''-''" "char_of (48 + d) \<noteq> CHR ''+''"
proof -
  have "of_char (char_of (48 + d) :: char) = 48 + d" using assms by simp
  then have "of_char (char_of (48 + d) :: char) \<noteq> (of_char CHR ''-'' :: nat)"
    "of_char (char_of (48 + d) :: char) \<noteq> (of_char CHR ''+'' :: nat)" by simp_all
  then show "char_of (48 + d) \<noteq> CHR ''-''" "char_of (48 + d) \<noteq> CHR ''+''" by metis+
qed

lemma Atoi_Itoa:
  assumes "- (2 ^ 63) \<le> i" "i < 2 ^ 63"
  shows "Atoi (Itoa i) = i"
proof -
  obtain d :: nat and cs where n: "show_nat (nat i) = char_of (48 + d) # cs" "d < 10"
    using show_nat_starts by blast
  have "show_nat (nat (- i)) \<noteq> []" using show_nat_starts [of "nat (- i)"] by auto
  then show ?thesis
    using assms n digit_not_sign [OF n(2)] digits_show_nat [of "nat i"] digits_show_nat [of "nat (- i)"]
    by (auto simp: Atoi_def Itoa_def clamp64_def)
qed

lemma Atoi_bounds: "- (2 ^ 63) \<le> Atoi s" "Atoi s < 2 ^ 63"
  by (auto simp: Atoi_def clamp64_def Let_def split: list.split option.split prod.split)

section \<open>The walk\<close>

abbreviation label_of :: "NamespaceInst \<Rightarrow> string \<Rightarrow> string option" where
  "label_of i \<equiv> map_of (nil_map (nsi_labels i))"

abbreviation tree_key :: "string \<Rightarrow> string" where
  "tree_key nm \<equiv> nm @ LabelTreeDepthSuffix"

abbreviation is_tree_key :: "string \<Rightarrow> bool" where
  "is_tree_key k \<equiv> HasSuffix k LabelTreeDepthSuffix"

lemma label_of_SetLabel [simp]: "label_of (SetLabel_ns i k v) = (label_of i)(k \<mapsto> v)"
  by (simp add: SetLabel_ns_def update_conv')

lemma label_of_fold:
  assumes "k \<notin> set (keys m)"
  shows "label_of (fold (\<lambda>(k, v) i. SetLabel_ns i k v) m i) k = label_of i k"
  using assms by (induction m arbitrary: i) auto

definition tree_safe :: "Forest \<Rightarrow> nsptr \<Rightarrow> bool" where
  "tree_safe f a \<longleftrightarrow> \<not> IsHalted f (Some a) \<and> \<not> IsExternal f a \<and>
     list_all (\<lambda>k. \<not> is_tree_key k) (keys (nil_map (ns_ManagedLabels (deref f a))))"

lemma label_of_upd:
  assumes "tree_safe f a" "is_tree_key k"
  shows "label_of (snd (label_upd f a (d, i))) k = (if k = tree_key (nm_of f a) then Some (Itoa (int d)) else label_of i k)"
proof -
  have "k \<notin> set (keys (nil_map (ns_ManagedLabels (deref f a))))"
    using assms by (auto simp: tree_safe_def list_all_iff)
  then show ?thesis by (simp add: label_upd_def label_of_fold)
qed

lemma label_upd_fold:
  assumes "\<forall>a \<in> set ps. tree_safe f a" "is_tree_key k" "distinct (map (nm_of f) ps)"
  shows "label_of (snd (fold (label_upd f) ps (d, i))) k =
    (case map_of (zip (map (\<lambda>a. tree_key (nm_of f a)) ps) [d ..< d + length ps]) k of
       Some j \<Rightarrow> Some (Itoa (int j)) | None \<Rightarrow> label_of i k)"
  using assms
proof (induction ps arbitrary: d i)
  case (Cons a ps)
  obtain i2 where i2: "label_upd f a (d, i) = (Suc d, i2)" by (simp add: label_upd_def)
  have up: "[d ..< d + length (a # ps)] = d # [Suc d ..< Suc d + length ps]"
    by (simp del: upt_Suc add: upt_conv_Cons)
  have k: "label_of i2 k = (if k = tree_key (nm_of f a) then Some (Itoa (int d)) else label_of i k)"
    using label_of_upd [of f a k d i] Cons.prems i2 by simp
  have "map_of (zip (map (\<lambda>a. tree_key (nm_of f a)) ps) xs) (tree_key (nm_of f a)) = None" for xs :: "nat list"
    using Cons.prems(3) by (auto simp: map_of_eq_None_iff dest!: set_zip_leftD)
  then show ?case
    unfolding up using Cons.IH [of "Suc d" i2] Cons.prems k
    by (cases "k = tree_key (nm_of f a)") (simp_all add: i2 del: upt_Suc cong: option.case_cong)
qed simp

lemma label_walk_tree:
  assumes "wf_forest f" "registered f a" "acyclic_ns f a"
    and "\<And>b. (a, b) \<in> (parent_rel f)\<^sup>* \<Longrightarrow> tree_safe f b"
  shows "\<exists>i'. label_walk f (Some a) 0 i = Some i' \<and> (\<forall>k. is_tree_key k \<longrightarrow> label_of i' k =
    (case map_of (zip (map tree_key (rev (AncestryNames f (Some a)))) [0 ..< length (AncestryNames f (Some a))]) k of
       Some j \<Rightarrow> Some (Itoa (int j)) | None \<Rightarrow> label_of i k))"
proof -
  let ?ps = "ancestry_ptrs f (Some a) {}"
  have anc: "rev (AncestryNames f (Some a)) = map (nm_of f) ?ps"
    by (simp add: AncestryNames_ptrs)
  have safe: "\<forall>b \<in> set ?ps. tree_safe f b"
    using assms(4) set_ancestry_ptrs [OF assms(1,2)] by auto
  have no: "\<And>b. (a, b) \<in> (parent_rel f)\<^sup>* \<Longrightarrow> \<not> in_cycle f b"
    using assms(3) by (simp add: acyclic_ns_def)
  have dist: "distinct (map (nm_of f) ?ps)"
    using acyclic_ancestry(1) [OF assms(1,2) no] anc by (metis distinct_rev)
  have "label_walk f (Some a) 0 i = Some (snd (fold (label_upd f) ?ps (0, i)))"
    using lw.walk_fold_root [OF ancestry_ptrs_chain _ acyclic_ancestry(2) [OF assms(1,2) no], of "(0, i)"] safe
      ancestry_ptrs_hd [of f a "{}"]
    by (simp add: label_walk_None tree_safe_def) (metis list.sel(1))
  moreover have "length (AncestryNames f (Some a)) = length ?ps"
    by (simp add: AncestryNames_ptrs)
  ultimately show ?thesis
    using label_upd_fold [OF safe _ dist, of _ 0 i] by (simp add: anc comp_def)
qed

section \<open>The labels after a synchronization\<close>

lemma fold_delete:
  "fold (\<lambda>(k, v) (m, x). (if p k then map_option (AList.delete k) m else m, x)) ys (m, x) =
     (map_option (filter (\<lambda>(k, v). \<not> (p k \<and> k \<in> set (keys ys)))) m, x)"
proof (induction ys arbitrary: m)
  case (Cons y ys)
  obtain k v where [simp]: "y = (k, v)" by force
  show ?case
    by (cases m) (auto simp: Cons AList.delete_eq intro!: filter_cong)
qed (simp add: option.map_ident_strong)

lemma strip_labels_internal:
  "strip_labels c False labels m =
     (map_option (filter (\<lambda>(k, v). \<not> (IsManagedLabel c k \<or> is_tree_key k))) labels, m)"
proof -
  have "strip_labels c False labels m =
      fold (\<lambda>(k, v) (l, x). (if IsManagedLabel c k \<or> is_tree_key k then map_option (AList.delete k) l else l, x))
        (nil_map labels) (labels, m)"
    unfolding strip_labels_def
    by (rule fold_cong) (auto simp: Let_def fun_eq_iff AList.delete_idem option.map_comp comp_def)
  then show ?thesis
    by (cases labels) (force simp: fold_delete intro!: filter_cong)+
qed

lemma map_of_filter_keys: "map_of (filter (\<lambda>(k, v). P k) m) k = (if P k then map_of m k else None)"
  by (induction m) auto

lemma map_of_enumerated:
  assumes "distinct xs" "n = length xs"
  shows "map_of (zip xs [0 ..< n]) k = Some j \<longleftrightarrow> j < n \<and> xs ! j = k"
proof -
  have "length xs = length [0 ..< n]" using assms(2) by simp
  then have "map_of (zip xs [0 ..< n]) k = Some j \<longleftrightarrow> (k, j) \<in> set (zip xs [0 ..< n])"
    using assms(1) by (simp add: map_of_eq_Some_iff)
  then show ?thesis using assms(2) by (auto simp: set_zip)
qed

lemma SetLabels_tree_safe: "tree_safe (snd (SetLabels ns ls f)) a = tree_safe f a"
  using modify_field [of ns_ManagedLabels "\<lambda>n. n\<lparr>ns_labels := m\<rparr>" ns f a for m]
    modify_field [of ns_conditions "\<lambda>n. n\<lparr>ns_labels := m\<rparr>" ns f a for m]
  by (simp add: tree_safe_def SetLabels_def IsExternal_modify IsHalted_def)

lemma syncLabels_tree:
  assumes "settled ns e" "syncLabels now c inst nsInst ns e = Some (i, e')"
    and "acyclic_ns (env_forest e') ns"
    and "\<And>b. (ns, b) \<in> (parent_rel (env_forest e'))\<^sup>* \<Longrightarrow> tree_safe (env_forest e') b"
    and "is_tree_key k"
  shows "label_of i k = Some v \<longleftrightarrow>
    (\<exists>d < length (AncestryNames (env_forest e') (Some ns)).
       k = tree_key (rev (AncestryNames (env_forest e') (Some ns)) ! d) \<and> v = Itoa (int d))"
proof -
  obtain i3 f where s: "quiet (env_forest e) f" "label_walk f (Some ns) 0 i3 = Some i"
    "env_forest e' = snd (SetLabels ns (nsi_labels i) f)"
    "\<not> IsExternal f ns \<longrightarrow> (\<exists>m m'. strip_labels c False (nsi_labels nsInst) m = (nsi_labels i3, m'))"
    using syncLabels_steps [OF assms(1), of now c inst nsInst] assms(2) by auto
  note sh = shape_simps [OF quiet_shape [OF quiet_SetLabels [of f ns "nsi_labels i"]], folded s(3)]
  have inv: "forest_inv f" "registered f ns"
    using assms(1) s(1) by (auto simp: settled_def quiet_inv shape_simps [OF quiet_shape])
  have safe: "tree_safe f b" if "(ns, b) \<in> (parent_rel f)\<^sup>*" for b
    using assms(4) [of b] that by (simp add: s(3) SetLabels_tree_safe sh(5) [symmetric] same_shape_parent_rel [OF quiet_shape [OF quiet_SetLabels]])
  have wf: "wf_forest f" and ac: "acyclic_ns f ns"
    using inv assms(3) sh by (simp_all add: forest_inv_def)
  have "nsi_labels i3 = map_option (filter (\<lambda>(k, v). \<not> (IsManagedLabel c k \<or> is_tree_key k))) (nsi_labels nsInst)"
    using s(4) safe [of ns] by (auto simp: tree_safe_def strip_labels_internal)
  then have i3: "label_of i3 k = None"
    using assms(5) by (cases "nsi_labels nsInst") (simp_all add: map_of_filter_keys del: map_of_eq_None_iff)
  have "distinct (AncestryNames f (Some ns))"
    using acyclic_ancestry(1) [OF wf inv(2)] ac by (auto simp: acyclic_ns_def)
  then have dist: "distinct (map tree_key (rev (AncestryNames f (Some ns))))"
    by (simp add: distinct_map inj_on_def)
  define M where "M = map_of (zip (map tree_key (rev (AncestryNames f (Some ns)))) [0 ..< length (AncestryNames f (Some ns))])"
  have "label_of i k = map_option (\<lambda>j. Itoa (int j)) (M k)"
    using label_walk_tree [OF wf inv(2) ac safe, of i3, folded M_def] s(2) assms(5) i3 by (cases "M k") simp_all
  then have "label_of i k = Some v \<longleftrightarrow> (\<exists>d. M k = Some d \<and> v = Itoa (int d))" by auto
  moreover have "M k = Some d \<longleftrightarrow> d < length (AncestryNames f (Some ns)) \<and> k = tree_key (rev (AncestryNames f (Some ns)) ! d)" for d
  proof -
    have "M k = Some d \<longleftrightarrow> d < length (AncestryNames f (Some ns)) \<and> map tree_key (rev (AncestryNames f (Some ns))) ! d = k"
      unfolding M_def by (rule map_of_enumerated [OF dist]) simp
    then show ?thesis by (cases "d < length (AncestryNames f (Some ns))") (auto simp: nth_map)
  qed
  ultimately show ?thesis
    unfolding same_shape_AncestryNames [OF quiet_shape [OF quiet_SetLabels [of f ns "nsi_labels i"]], folded s(3)]
    by (simp only: conj_assoc)
qed

end
