(* ===== verification/Hierarchy_Properties.thy ===== *)
theory Hierarchy_Properties
  imports Forest_Properties Tree_Labels
begin

text \<open>
  The properties of the hierarchy reconciler: it always returns and keeps the invariant of the forest,
  it places the namespace below the parent that its objects name, it writes the tree labels of
  exactly the ancestors, and the tree labels are read back as they were written.
\<close>

section \<open>Reading tree labels back\<close>

lemma map_of_fold_update:
  assumes "distinct_keys m"
  shows "map_of (fold (\<lambda>(k, v). AList.update k v) m r) k = (case map_of m k of Some v \<Rightarrow> Some v | None \<Rightarrow> map_of r k)"
  using assms
proof (induction m arbitrary: r)
  case (Cons x m)
  obtain k' v' where x: "x = (k', v')" by force
  have "map_of m k' = None" using Cons.prems x by (simp add: map_of_eq_None_iff)
  then show ?case using Cons x by (auto simp: update_conv' split: option.split)
qed simp

lemma map_of_tree_labels:
  assumes "distinct_keys m"
  shows "map_of (fold (\<lambda>(k, v) r. if \<not> Contains k s then r else AList.update k (Atoi v) r) m r) k =
    (case map_of m k of Some v \<Rightarrow> if Contains k s then Some (Atoi v) else map_of r k | None \<Rightarrow> map_of r k)"
  using assms
proof (induction m arbitrary: r)
  case (Cons x m)
  obtain k' v' where x: "x = (k', v')" by force
  have "map_of m k' = None" using Cons.prems x by (simp add: map_of_eq_None_iff)
  then show ?case using Cons x by (auto simp: update_conv' split: option.split)
qed simp

lemma distinct_keys_fold_update: "distinct_keys r \<Longrightarrow> distinct_keys (fold (\<lambda>(k, v). AList.update k v) m r)"
  by (induction m arbitrary: r) (auto simp: distinct_update)

lemma GetTreeLabels_SetLabels:
  assumes "valid f ns" "distinct_keys (nil_map labels)"
  shows "map_of (GetTreeLabels (snd (SetLabels ns labels f)) ns) k =
    (if Contains k LabelTreeDepthSuffix then map_option Atoi (map_of (nil_map labels) k) else None)"
  using assms distinct_keys_fold_update [of "[]" "nil_map labels"]
  by (auto simp: GetTreeLabels_def SetLabels_def deref_modify map_of_tree_labels map_of_fold_update split: option.split)

lemma acyclic_cycles_halted: "acyclic_forest f \<Longrightarrow> cycles_halted f"
  by (simp add: acyclic_forest_def cycles_halted_def)

section \<open>Example objects\<close>

definition ex_config :: Config where
  "ex_config = \<lparr>excludedNamespaces = [(''kube-system'', True)], includedNamespacesRegex = None,
     includedNamespacesStr = '''', managedLabels = [], managedAnnotations = [], hncNamespace = ''hnc-system'',
     UnpropagatedAnnotations = [], UnpropagatedLabels = [], NoPropagationLabels = []\<rparr>"

definition ex_ns :: "string \<Rightarrow> NamespaceInst" where
  "ex_ns nm = \<lparr>nsi_name = nm, nsi_labels = None, nsi_annotations = None, nsi_deletionTimestamp = 0\<rparr>"

definition ex_env :: "Forest \<Rightarrow> HCEnv" where
  "ex_env f = \<lparr>env_forest = f, env_affected = [], env_changed = []\<rparr>"

definition ex_reads :: "string \<Rightarrow> string \<Rightarrow> HCReads" where
  "ex_reads nm pnm = \<lparr>rd_namespace = Found (ex_ns nm), rd_singleton = Found (blank_hc\<lparr>hc_name := Singleton,
     hc_namespace := nm, hc_creationTimestamp := 1, hc_parent := pnm\<rparr>), rd_CRD = Found 0,
     rd_anchors = Found [], rd_parentAnchor = NotFound\<rparr>"

lemma ex_cycle_loop: "CycleNames ex_cycle 0 \<noteq> []"
  by code_simp

lemma ex_line_inv: "forest_inv ex_line"
  using ex_line_facts(1,8) acyclic_cycles_halted [OF ex_line_acyclic] by (simp add: forest_inv_def)

section \<open>The reconciliation\<close>

text \<open>
  C2: the hierarchy reconciler returns on every request and whatever the API server answers, also when the
  hierarchy has cycles: it meets no nil dereference and no endless walk. Afterwards the forest is
  again well formed, every namespace with a parent exists, and every cycle has a halted member. For an
  unmanaged namespace it leaves the forest alone.
\<close>

theorem Reconcile_hc_returns:
  assumes "forest_inv (env_forest e)" "reads_ns nm rd"
  shows "\<exists>ws err e'. Reconcile_hc now c rd wr nm e = Some (ws, err, e') \<and> forest_inv (env_forest e') \<and>
    (\<not> IsManagedNamespace c nm \<longrightarrow> e' = e)"
proof (cases "IsManagedNamespace c nm")
  case True
  then show ?thesis using Reconcile_hc_ok [OF assms, of now c wr] by simp
next
  case False
  then show ?thesis using assms(1) by (simp add: Reconcile_hc_def split: prod.split)
qed

theorem Reconcile_hc_returns_witness:
  "\<exists>ws err e'. Reconcile_hc 7 ex_config (ex_reads ''a'' ''c'') (\<lambda>w. None) ''a'' (ex_env ex_line) = Some (ws, err, e') \<and>
     forest_inv (env_forest e')"
proof -
  have "reads_ns ''a'' (ex_reads ''a'' ''c'')" by code_simp
  moreover have "forest_inv (env_forest (ex_env ex_line))" using ex_line_inv by (simp add: ex_env_def)
  ultimately show ?thesis using Reconcile_hc_returns by blast
qed

text \<open>
  C29: synchronizing a namespace with the forest returns and leaves the namespace registered, existing
  and below the parent that its subnamespace-of annotation names, or else the spec of its
  singleton; an external namespace has no parent. The singleton that is written records that parent, the
  children in the forest and the conditions in the forest.
\<close>

theorem syncWithForest_places:
  assumes "forest_inv (env_forest e)" "nsi_name nsInst \<noteq> ''''"
  shows "\<exists>nsInst' inst' e' ns. syncWithForest now c nsInst inst deletingCRD anms pa e = Some (nsInst', inst', e') \<and>
    forest_inv (env_forest e') \<and> registered (env_forest e') ns \<and> nm_of (env_forest e') ns = nsi_name nsInst \<and>
    ns_exists (deref (env_forest e') ns) \<and> hc_parent inst' = spec_parent nsInst inst \<and>
    (case ns_parent (deref (env_forest e') ns) of
       None \<Rightarrow> external_inst nsInst \<or> hc_parent inst' = ''''
     | Some q \<Rightarrow> \<not> external_inst nsInst \<and> nm_of (env_forest e') q = hc_parent inst') \<and>
    hc_children inst' = ChildNames (env_forest e') ns \<and> Conditions (env_forest e') ns = Some (hc_conditions inst')"
  using syncWithForest_ok [OF assms, of now c inst deletingCRD anms pa]
  by (force simp: placed_def settled_def parent_named_def split: option.splits if_splits)

theorem syncWithForest_places_witness:
  "\<exists>nsInst' inst' e' ns. syncWithForest 7 ex_config (ex_ns ''c'') (blank_hc\<lparr>hc_parent := ''a''\<rparr>) False [] None
       (ex_env ex_line) = Some (nsInst', inst', e') \<and> nm_of (env_forest e') ns = ''c'' \<and> hc_parent inst' = ''a'' \<and>
     hc_children inst' = ChildNames (env_forest e') ns"
proof -
  have "nsi_name (ex_ns ''c'') \<noteq> ''''" "nsi_name (ex_ns ''c'') = ''c''"
    "spec_parent (ex_ns ''c'') (blank_hc\<lparr>hc_parent := ''a''\<rparr>) = ''a''" by code_simp+
  moreover have "forest_inv (env_forest (ex_env ex_line))" using ex_line_inv by (simp add: ex_env_def)
  ultimately show ?thesis
    using syncWithForest_places [of "ex_env ex_line" "ex_ns ''c''" 7 ex_config "blank_hc\<lparr>hc_parent := ''a''\<rparr>" False "[]" None]
    by auto
qed

text \<open>
  C30: \<^verbatim>\<open>syncLabels\<close> returns, and when no namespace from the given one to its root is
  halted, external or sets a tree label of its own as a managed label, the tree labels of the
  namespace that is written are exactly one per ancestor, the namespace itself included, whose value
  is the distance to that ancestor. Labels left from earlier parents are gone.
\<close>

theorem syncLabels_writes_tree:
  assumes "forest_inv (env_forest e)" "registered (env_forest e) ns"
  shows "\<exists>i e'. syncLabels now c inst nsInst ns e = Some (i, e') \<and>
    (acyclic_ns (env_forest e') ns \<and> (\<forall>b. (ns, b) \<in> (parent_rel (env_forest e'))\<^sup>* \<longrightarrow> tree_safe (env_forest e') b) \<longrightarrow>
     (\<forall>k v. HasSuffix k LabelTreeDepthSuffix \<longrightarrow>
        (map_of (nil_map (nsi_labels i)) k = Some v \<longleftrightarrow>
         (\<exists>d < length (AncestryNames (env_forest e') (Some ns)).
            k = rev (AncestryNames (env_forest e') (Some ns)) ! d @ LabelTreeDepthSuffix \<and> v = Itoa (int d)))))"
proof -
  have s: "settled ns e" using assms by (simp add: settled_def)
  obtain i e' where r: "syncLabels now c inst nsInst ns e = Some (i, e')" using syncLabels_ok [OF s] by blast
  then show ?thesis using syncLabels_tree [OF s r] by (intro exI [of _ i] exI [of _ e']) blast
qed

lemma all_ancestors_check:
  assumes "wf_forest f" "registered f a" "list_all P (ancestry_ptrs f (Some a) {})"
  shows "\<forall>b. (a, b) \<in> (parent_rel f)\<^sup>* \<longrightarrow> P b"
  using assms set_ancestry_ptrs [OF assms(1,2)] by (auto simp: list_all_iff)

definition ex_synced :: Forest where
  "ex_synced = env_forest (snd (the (syncLabels 7 ex_config blank_hc (ex_ns ''c'') 2 (ex_env ex_line))))"

lemma ex_synced_facts:
  "wf_forest ex_synced" "registered ex_synced 2" "acyclic_ns ex_synced 2"
  "\<forall>b. (2, b) \<in> (parent_rel ex_synced)\<^sup>* \<longrightarrow> tree_safe ex_synced b"
  "AncestryNames ex_synced (Some 2) = [''a'', ''b'', ''c'']"
proof -
  show w: "wf_forest ex_synced" and r: "registered ex_synced 2" by code_simp+
  have "acyclic_forest ex_synced" by (rule acyclic_forest_check [OF w]) code_simp
  then show "acyclic_ns ex_synced 2" using acyclic_forest_ns w r by blast
  show "\<forall>b. (2, b) \<in> (parent_rel ex_synced)\<^sup>* \<longrightarrow> tree_safe ex_synced b"
    by (rule all_ancestors_check [OF w r]) code_simp
  show "AncestryNames ex_synced (Some 2) = [''a'', ''b'', ''c'']" by code_simp
qed

theorem syncLabels_writes_tree_witness:
  "\<exists>i e'. syncLabels 7 ex_config blank_hc (ex_ns ''c'') 2 (ex_env ex_line) = Some (i, e') \<and>
     map_of (nil_map (nsi_labels i)) (''a'' @ LabelTreeDepthSuffix) = Some (Itoa 2)"
proof -
  have "forest_inv (env_forest (ex_env ex_line))" "registered (env_forest (ex_env ex_line)) 2"
    using ex_line_inv ex_line_facts(4) by (simp_all add: ex_env_def)
  from syncLabels_writes_tree [OF this, of 7 ex_config blank_hc "ex_ns ''c''"]
  obtain i e' where r: "syncLabels 7 ex_config blank_hc (ex_ns ''c'') 2 (ex_env ex_line) = Some (i, e')"
    and t: "acyclic_ns (env_forest e') 2 \<and> (\<forall>b. (2, b) \<in> (parent_rel (env_forest e'))\<^sup>* \<longrightarrow> tree_safe (env_forest e') b) \<longrightarrow>
     (\<forall>k v. HasSuffix k LabelTreeDepthSuffix \<longrightarrow> (map_of (nil_map (nsi_labels i)) k = Some v \<longleftrightarrow>
         (\<exists>d < length (AncestryNames (env_forest e') (Some 2)).
            k = rev (AncestryNames (env_forest e') (Some 2)) ! d @ LabelTreeDepthSuffix \<and> v = Itoa (int d))))"
    by blast
  have e: "env_forest e' = ex_synced" by (simp add: ex_synced_def r)
  have "HasSuffix (''a'' @ LabelTreeDepthSuffix) LabelTreeDepthSuffix" by code_simp
  moreover have "\<exists>d < length (AncestryNames ex_synced (Some 2)). ''a'' @ LabelTreeDepthSuffix =
      rev (AncestryNames ex_synced (Some 2)) ! d @ LabelTreeDepthSuffix \<and> Itoa 2 = Itoa (int d)"
    by (intro exI [of _ 2]) (simp add: ex_synced_facts(5))
  ultimately show ?thesis using r t ex_synced_facts(3,4) unfolding e by blast
qed

text \<open>
  Tree labels are read back as they are written: after \<^verbatim>\<open>SetLabels\<close>,
  \<^verbatim>\<open>GetTreeLabels\<close> has an entry for exactly the keys that contain the tree suffix, and the
  depth of a label that \<^verbatim>\<open>strconv.Itoa\<close> printed is the number that was printed, for the
  whole range of a 64-bit \<^verbatim>\<open>int\<close>. Any other text gives a number in that range.
\<close>

theorem tree_labels_roundtrip:
  assumes "valid f ns" "distinct_keys labels"
  shows "(map_of (GetTreeLabels (snd (SetLabels ns (Some labels) f)) ns) k \<noteq> None \<longleftrightarrow>
      Contains k LabelTreeDepthSuffix \<and> map_of labels k \<noteq> None) \<and>
    (- (2 ^ 63) \<le> d \<and> d < 2 ^ 63 \<and> Contains k LabelTreeDepthSuffix \<and> map_of labels k = Some (Itoa d) \<longrightarrow>
      map_of (GetTreeLabels (snd (SetLabels ns (Some labels) f)) ns) k = Some d) \<and>
    (\<forall>v. map_of (GetTreeLabels (snd (SetLabels ns (Some labels) f)) ns) k = Some v \<longrightarrow> - (2 ^ 63) \<le> v \<and> v < 2 ^ 63)"
  using GetTreeLabels_SetLabels [OF assms(1), of "Some labels" k] assms(2) Atoi_bounds Atoi_Itoa [of d]
  by (auto simp: simp del: map_of_eq_None_iff)

theorem tree_labels_roundtrip_witness:
  "map_of (GetTreeLabels (snd (SetLabels 2 (Some [(''a'' @ LabelTreeDepthSuffix, Itoa 12)]) ex_line)) 2)
     (''a'' @ LabelTreeDepthSuffix) = Some 12"
proof -
  have "valid ex_line 2" "distinct_keys [(''a'' @ LabelTreeDepthSuffix, Itoa 12)]"
    "Contains (''a'' @ LabelTreeDepthSuffix) LabelTreeDepthSuffix" by code_simp+
  then show ?thesis
    using tree_labels_roundtrip [of ex_line 2 "[(''a'' @ LabelTreeDepthSuffix, Itoa 12)]" "''a'' @ LabelTreeDepthSuffix" 12]
    by simp
qed

text \<open>
  C31: the walk of \<^verbatim>\<open>GetHaltedRoot\<close> has no guard against cycles: it returns exactly when
  the ancestry reaches a root or a halted namespace, which the invariant of the forest ensures because
  each cycle has a halted member. It then returns the name of the nearest halted ancestor, or the
  empty name when no ancestor is halted.
\<close>

theorem GetHaltedRoot_terminates:
  assumes "wf_forest f" "registered f a"
  shows "(GetHaltedRoot f (Some a) \<noteq> None \<longleftrightarrow>
      acyclic_ns f a \<or> (\<exists>b. (a, b) \<in> (parent_rel f)\<^sup>* \<and> IsHalted f (Some b))) \<and>
    (cycles_halted f \<longrightarrow> GetHaltedRoot f (Some a) \<noteq> None) \<and>
    (\<forall>r. GetHaltedRoot f (Some a) = Some r \<longrightarrow>
       (if \<exists>b. (a, b) \<in> (parent_rel f)\<^sup>* \<and> IsHalted f (Some b)
        then \<exists>c xs. r = nm_of f c \<and> IsHalted f (Some c) \<and> chain f (xs @ [c]) \<and> hd (xs @ [c]) = a \<and>
               (\<forall>x \<in> set xs. \<not> IsHalted f (Some x))
        else r = ''''))"
proof -
  note iff = GetHaltedRoot_returns_iff [OF assms]
  have "\<exists>c xs. r = nm_of f c \<and> IsHalted f (Some c) \<and> chain f (xs @ [c]) \<and> hd (xs @ [c]) = a \<and>
       (\<forall>x \<in> set xs. \<not> IsHalted f (Some x))"
    if "GetHaltedRoot f (Some a) = Some r" "(a, b) \<in> (parent_rel f)\<^sup>*" "IsHalted f (Some b)" for r b
    using GetHaltedRoot_found [OF that(2,3)] that(1) by auto
  moreover have "r = ''''" if "GetHaltedRoot f (Some a) = Some r" "\<nexists>b. (a, b) \<in> (parent_rel f)\<^sup>* \<and> IsHalted f (Some b)" for r
    using that iff GetHaltedRoot_clear [OF assms] by auto
  ultimately show ?thesis
    using iff cycles_halted_returns [OF assms] by (auto split: if_splits)
qed

theorem GetHaltedRoot_terminates_witness:
  "GetHaltedRoot ex_line (Some 2) = Some '''' \<and> GetHaltedRoot ex_cycle (Some 0) = None"
proof
  have "GetHaltedRoot ex_line (Some 2) \<noteq> None"
    using GetHaltedRoot_terminates [OF ex_line_facts(1,4)] ex_line_acyclic_ns by blast
  moreover have "\<forall>b. (2, b) \<in> (parent_rel ex_line)\<^sup>* \<longrightarrow> \<not> IsHalted ex_line (Some b)"
    by (rule all_ancestors_check [OF ex_line_facts(1,4)]) code_simp
  ultimately show "GetHaltedRoot ex_line (Some 2) = Some ''''"
    using GetHaltedRoot_terminates [OF ex_line_facts(1,4)] by (auto split: if_splits)
  have "in_cycle ex_cycle 0"
    using CycleNames_in_cycle [OF ex_cycle_facts(1,2)] ex_cycle_loop by simp
  then have "\<not> acyclic_ns ex_cycle 0" by (auto simp: acyclic_ns_def)
  moreover have "\<forall>b. (0, b) \<in> (parent_rel ex_cycle)\<^sup>* \<longrightarrow> \<not> IsHalted ex_cycle (Some b)"
    by (rule all_ancestors_check [OF ex_cycle_facts(1,2)]) code_simp
  ultimately show "GetHaltedRoot ex_cycle (Some 0) = None"
    using GetHaltedRoot_terminates [OF ex_cycle_facts(1,2)] by blast
qed

end
