(* ===== verification/Selectors.thy ===== *)
theory Selectors
  imports Config
begin

text \<open>
  Propagation exceptions, \<^verbatim>\<open>internal/selectors/selectors.go\<close>.

  The parser of label selectors and the check of DNS labels are code of the Kubernetes API machinery,
  so they are the fields of \<open>SelectorLib\<close>. A parsed selector is what the code asks of it: whether
  it is empty and which label sets it matches. A function that can fail returns a sum, with the error
  text on the left; \<open>None\<close> is an index out of range, which is a panic.
\<close>

section \<open>Library functions\<close>

text \<open>\<^verbatim>\<open>strings.TrimSpace\<close> on ASCII text.\<close>

definition is_space :: "char \<Rightarrow> bool" where
  "is_space c = (c \<in> set [CHR '' '', CHR 0x09, CHR 0x0A, CHR 0x0B, CHR 0x0C, CHR 0x0D])"

definition TrimSpace :: "string \<Rightarrow> string" where
  "TrimSpace s = rev (dropWhile is_space (rev (dropWhile is_space s)))"

text \<open>\<^verbatim>\<open>strconv.ParseBool\<close>\<close>

definition ParseBool :: "string \<Rightarrow> string + bool" where
  "ParseBool s =
     (if s \<in> set [''1'', ''t'', ''T'', ''true'', ''TRUE'', ''True''] then Inr True
      else if s \<in> set [''0'', ''f'', ''F'', ''false'', ''FALSE'', ''False''] then Inr False
      else Inl (''strconv.ParseBool: parsing '' @ quote s @ '': invalid syntax''))"

record LabelSelectorRequirement =
  lsr_key :: string
  lsr_operator :: string
  lsr_values :: "string list"

record LabelSelector =
  ls_matchLabels :: "(string, string) gomap"
  ls_matchExpressions :: "LabelSelectorRequirement list"

record Selector =
  sel_Empty :: bool
  sel_Matches :: "(string, string) gomap \<Rightarrow> bool"

record SelectorLib =
  sl_ParseToLabelSelector :: "string \<Rightarrow> string + LabelSelector"
  sl_LabelSelectorAsSelector :: "LabelSelector \<Rightarrow> string + Selector"
  sl_IsDNS1123Label :: "string \<Rightarrow> string list"

section \<open>Annotations\<close>

definition annotation :: "Unstructured \<Rightarrow> string \<Rightarrow> string" where
  "annotation inst k = get_str (nil_map (obj_annotations inst)) k"

definition GetSelectorAnnotation :: "Unstructured \<Rightarrow> string" where
  "GetSelectorAnnotation inst = annotation inst AnnotationSelector"

definition GetTreeSelectorAnnotation :: "Unstructured \<Rightarrow> string" where
  "GetTreeSelectorAnnotation inst = annotation inst AnnotationTreeSelector"

definition GetNoneSelectorAnnotation :: "Unstructured \<Rightarrow> string" where
  "GetNoneSelectorAnnotation inst = annotation inst AnnotationNoneSelector"

definition GetAllSelectorAnnotation :: "Unstructured \<Rightarrow> string" where
  "GetAllSelectorAnnotation inst = annotation inst AnnotationAllSelector"

section \<open>Selectors\<close>

definition getSelectorFromString :: "SelectorLib \<Rightarrow> string \<Rightarrow> string + Selector" where
  "getSelectorFromString lib str =
     (case sl_ParseToLabelSelector lib str of
        Inl err \<Rightarrow> Inl err
      | Inr labelSelector \<Rightarrow> sl_LabelSelectorAsSelector lib labelSelector)"

definition GetSelector :: "SelectorLib \<Rightarrow> Unstructured \<Rightarrow> string + Selector" where
  "GetSelector lib inst =
     (case getSelectorFromString lib (GetSelectorAnnotation inst) of
        Inl err \<Rightarrow> Inl (''while parsing '' @ quote AnnotationSelector @ '': '' @ err)
      | Inr selector \<Rightarrow> Inr selector)"

text \<open>
  \<^verbatim>\<open>seg[0]\<close> panics when the segment is empty; the inner option is the error.
\<close>

definition validateTreeSelectorSegment :: "SelectorLib \<Rightarrow> string \<Rightarrow> string option option" where
  "validateTreeSelectorSegment lib seg =
     (case TrimSpace seg of
        [] \<Rightarrow> None
      | c # rest \<Rightarrow>
          (let ns = (if c = CHR ''!'' then rest else c # rest);
               errStrs = sl_IsDNS1123Label lib ns
           in Some (if length errStrs \<noteq> 0
                then Some (quote ns @ '' is not a valid namespace name: '' @ Join errStrs ''; '') else None)))"

text \<open>The loop of \<open>GetTreeSelector\<close>, with the selector string and the names without \<^verbatim>\<open>!\<close> so far.\<close>

fun tree_segments ::
  "SelectorLib \<Rightarrow> string list \<Rightarrow> string \<Rightarrow> string list \<Rightarrow> (string + string \<times> string list) option" where
  "tree_segments lib [] selectorStr nonNegatedNses = Some (Inr (selectorStr, nonNegatedNses))"
| "tree_segments lib (seg # segs) selectorStr nonNegatedNses = do {
     let seg = TrimSpace seg;
     err \<leftarrow> validateTreeSelectorSegment lib seg;
     case err of
       Some e \<Rightarrow> Some (Inl e)
     | None \<Rightarrow>
         (case seg of
            [] \<Rightarrow> None
          | c # rest \<Rightarrow>
              (let nonNegatedNses = (if c \<noteq> CHR ''!'' then nonNegatedNses @ [seg] else nonNegatedNses);
                   selectorStr = selectorStr @ seg @ LabelTreeDepthSuffix;
                   selectorStr = (if segs \<noteq> [] then selectorStr @ '', '' else selectorStr)
               in tree_segments lib segs selectorStr nonNegatedNses)) }"

definition GetTreeSelector :: "SelectorLib \<Rightarrow> Unstructured \<Rightarrow> (string + Selector option) option" where
  "GetTreeSelector lib inst =
     (let treeSelectorStr = GetTreeSelectorAnnotation inst in
      if treeSelectorStr = '''' then Some (Inr None)
      else do {
        r \<leftarrow> tree_segments lib (Split treeSelectorStr (CHR '','')) '''' [];
        Some (case r of
            Inl e \<Rightarrow> Inl e
          | Inr (selectorStr, nonNegatedNses) \<Rightarrow>
              (case getSelectorFromString lib selectorStr of
                 Inl err \<Rightarrow> Inl (''internal error while parsing '' @ quote AnnotationTreeSelector @ '': '' @ err)
               | Inr treeSelector \<Rightarrow>
                   if length nonNegatedNses > 1
                   then Inl (''should only have one non-negated namespace, but got multiple: ['' @
                               Join nonNegatedNses '' '' @ '']'')
                   else Inr (Some treeSelector))) })"

definition GetNoneSelector :: "Unstructured \<Rightarrow> bool \<times> string option" where
  "GetNoneSelector inst =
     (let noneSelectorStr = GetNoneSelectorAnnotation inst in
      if noneSelectorStr = '''' then (False, None)
      else (case ParseBool noneSelectorStr of
          Inl err \<Rightarrow> (False, Some (''invalid '' @ AnnotationNoneSelector @ '' value: '' @ err))
        | Inr b \<Rightarrow> (b, None)))"

definition GetAllSelector :: "Unstructured \<Rightarrow> bool \<times> string option" where
  "GetAllSelector inst =
     (let allSelectorStr = GetAllSelectorAnnotation inst in
      if allSelectorStr = '''' then (False, None)
      else (case ParseBool allSelectorStr of
          Inl err \<Rightarrow> (False, Some (''invalid '' @ AnnotationAllSelector @ '' value: '' @ err))
        | Inr b \<Rightarrow> (b, None)))"

section \<open>Exclusions\<close>

definition cmExclusionsByName :: "string list" where
  "cmExclusionsByName = [''istio-ca-root-cert'', ''kube-root-ca.crt'']"

record ExclusionByAnnotationsSpec =
  eba_Key :: string
  eba_Value :: string

definition exclusionByAnnotations :: "ExclusionByAnnotationsSpec list" where
  "exclusionByAnnotations = [\<lparr>eba_Key = ''openshift.io/description'', eba_Value = ''''\<rparr>]"

definition scExclusionsByType :: "string list" where
  "scExclusionsByType = [''helm.sh/release.v1'']"

text \<open>The error of \<open>isExcluded\<close> is always nil.\<close>

definition isExcluded :: "Config \<Rightarrow> Unstructured \<Rightarrow> bool" where
  "isExcluded c inst =
     (let nm = obj_name inst; kind = gvk_kind (obj_gvk inst); group = gvk_group (obj_gvk inst) in
      list_ex (\<lambda>t. group = '''' \<and> kind = ''Secret'' \<and> map_of (obj_content inst) ''type'' = Some (JStr t))
        scExclusionsByType \<or>
      list_ex (\<lambda>n. group = '''' \<and> kind = ''ConfigMap'' \<and> nm = n) cmExclusionsByName \<or>
      list_ex (\<lambda>res. has_key (nil_map (obj_labels inst)) (npl_Key res) \<and>
          get_str (nil_map (obj_labels inst)) (npl_Key res) = npl_Value res) (NoPropagationLabels c) \<or>
      list_ex (\<lambda>res. has_key (nil_map (obj_annotations inst)) (eba_Key res) \<and>
          (get_str (nil_map (obj_annotations inst)) (eba_Key res) = eba_Value res \<or> eba_Value res = ''''))
        exclusionByAnnotations)"

section \<open>ShouldPropagate\<close>

definition ShouldPropagate ::
  "SelectorLib \<Rightarrow> Config \<Rightarrow> Unstructured \<Rightarrow> (string, string) gomap \<Rightarrow> SynchronizationMode \<Rightarrow>
   (bool \<times> string option) option" where
  "ShouldPropagate lib c inst nsLabels mode =
     (let propIfNotExcluded = (mode = Propagate) in
      case GetSelector lib inst of
        Inl err \<Rightarrow> Some (False, Some err)
      | Inr sel \<Rightarrow>
          if \<not> sel_Empty sel \<and> \<not> sel_Matches sel nsLabels then Some (False, None)
          else (let propIfNotExcluded = (propIfNotExcluded \<or> \<not> sel_Empty sel) in do {
            tree \<leftarrow> GetTreeSelector lib inst;
            case tree of
              Inl err \<Rightarrow> Some (False, Some err)
            | Inr tsel \<Rightarrow>
                (let active = (case tsel of None \<Rightarrow> False | Some s \<Rightarrow> \<not> sel_Empty s) in
                 if active \<and> \<not> sel_Matches (the tsel) nsLabels then Some (False, None)
                 else (let propIfNotExcluded = (propIfNotExcluded \<or> active); (none, err) = GetNoneSelector inst in
                   if err \<noteq> None \<or> none then Some (False, err)
                   else (let (all, err) = GetAllSelector inst in
                     if err \<noteq> None then Some (False, err)
                     else (let propIfNotExcluded = (propIfNotExcluded \<or> all) in
                       if isExcluded c inst then Some (False, None)
                       else Some (propIfNotExcluded, None)))))}))"

section \<open>Lemmas\<close>

lemma dropWhile_rev_idem: "dropWhile P (rev (dropWhile P (rev (dropWhile P xs)))) = rev (dropWhile P (rev (dropWhile P xs)))"
proof (cases "rev (dropWhile P (rev (dropWhile P xs)))")
  case (Cons y ys)
  have "dropWhile P xs = rev (dropWhile P (rev (dropWhile P xs))) @ rev (takeWhile P (rev (dropWhile P xs)))"
    by (metis rev_append rev_rev_ident takeWhile_dropWhile_id)
  then have "\<exists>zs. dropWhile P xs = y # zs" using Cons by (metis append_Cons)
  then have "\<not> P y" using hd_dropWhile [of P xs] by (metis list.discI list.sel(1))
  then show ?thesis using Cons by simp
next
  case Nil
  then show ?thesis by (simp only: dropWhile.simps)
qed

lemma TrimSpace_idem [simp]: "TrimSpace (TrimSpace s) = TrimSpace s"
  unfolding TrimSpace_def dropWhile_rev_idem by (simp add: dropWhile_idem)

lemma TrimSpace_Nil [simp]: "TrimSpace [] = []"
  by (simp add: TrimSpace_def)

lemma TrimSpace_blank: "TrimSpace s = [] \<longleftrightarrow> list_all is_space s"
proof -
  have "TrimSpace s = [] \<longleftrightarrow> (\<forall>c \<in> set (dropWhile is_space s). is_space c)"
    by (simp add: TrimSpace_def)
  also have "\<dots> \<longleftrightarrow> dropWhile is_space s = []"
    using hd_dropWhile [of is_space s] by (cases "dropWhile is_space s") (simp_all del: dropWhile_eq_Nil_conv)
  finally show ?thesis by (simp add: list_all_iff)
qed

definition valid_segment :: "SelectorLib \<Rightarrow> string \<Rightarrow> bool" where
  "valid_segment lib seg = (validateTreeSelectorSegment lib (TrimSpace seg) = Some None)"

lemma validate_panics: "validateTreeSelectorSegment lib seg = None \<longleftrightarrow> TrimSpace seg = []"
  by (simp add: validateTreeSelectorSegment_def Let_def split: list.split)

lemma tree_segments_panics:
  "tree_segments lib segs s nn = None \<longleftrightarrow>
     (\<exists>pre seg post. segs = pre @ seg # post \<and> list_all (valid_segment lib) pre \<and> TrimSpace seg = [])"
proof (induction segs arbitrary: s nn)
  case (Cons seg segs)
  have cons: "(\<exists>pre x post. seg # segs = pre @ x # post \<and> list_all (valid_segment lib) pre \<and> TrimSpace x = []) \<longleftrightarrow>
    TrimSpace seg = [] \<or> valid_segment lib seg \<and>
      (\<exists>pre x post. segs = pre @ x # post \<and> list_all (valid_segment lib) pre \<and> TrimSpace x = [])"
  proof
    assume "\<exists>pre x post. seg # segs = pre @ x # post \<and> list_all (valid_segment lib) pre \<and> TrimSpace x = []"
    then obtain pre x post where p: "seg # segs = pre @ x # post" "list_all (valid_segment lib) pre" "TrimSpace x = []"
      by blast
    then show "TrimSpace seg = [] \<or> valid_segment lib seg \<and>
      (\<exists>pre x post. segs = pre @ x # post \<and> list_all (valid_segment lib) pre \<and> TrimSpace x = [])"
      by (cases pre) fastforce+
  next
    assume "TrimSpace seg = [] \<or> valid_segment lib seg \<and>
      (\<exists>pre x post. segs = pre @ x # post \<and> list_all (valid_segment lib) pre \<and> TrimSpace x = [])"
    then show "\<exists>pre x post. seg # segs = pre @ x # post \<and> list_all (valid_segment lib) pre \<and> TrimSpace x = []"
      by (metis append_Cons append_Nil list.pred_inject)
  qed
  show ?case
  proof (cases "validateTreeSelectorSegment lib (TrimSpace seg)")
    case None
    then show ?thesis unfolding cons using validate_panics [of lib "TrimSpace seg"] by simp
  next
    case (Some err)
    then have ne: "TrimSpace seg \<noteq> []" using validate_panics [of lib "TrimSpace seg"] by auto
    show ?thesis
    proof (cases err)
      case None
      then have "valid_segment lib seg" using Some by (simp add: valid_segment_def)
      then show ?thesis
        unfolding cons using Some None ne by (cases "TrimSpace seg") (simp_all add: Cons.IH Let_def)
    next
      case e: (Some a)
      then have "\<not> valid_segment lib seg" using Some by (simp add: valid_segment_def)
      then show ?thesis unfolding cons using Some e ne by simp
    qed
  qed
qed simp

lemma GetTreeSelector_panic_iff:
  "GetTreeSelector lib inst = None \<longleftrightarrow> GetTreeSelectorAnnotation inst \<noteq> '''' \<and>
     (\<exists>pre seg post. Split (GetTreeSelectorAnnotation inst) (CHR '','') = pre @ seg # post \<and>
        list_all (valid_segment lib) pre \<and> list_all is_space seg)"
  by (simp add: GetTreeSelector_def Let_def bind_eq_None_conv tree_segments_panics TrimSpace_blank)

lemma ShouldPropagate_iff:
  "ShouldPropagate lib c inst nsLabels mode = Some (True, err) \<longleftrightarrow> err = None \<and>
     (\<exists>sel tsel. GetSelector lib inst = Inr sel \<and> (sel_Empty sel \<or> sel_Matches sel nsLabels) \<and>
        GetTreeSelector lib inst = Some (Inr tsel) \<and>
        (\<forall>s. tsel = Some s \<longrightarrow> sel_Empty s \<or> sel_Matches s nsLabels) \<and>
        GetNoneSelector inst = (False, None) \<and> snd (GetAllSelector inst) = None \<and> \<not> isExcluded c inst \<and>
        (mode = Propagate \<or> \<not> sel_Empty sel \<or> (\<exists>s. tsel = Some s \<and> \<not> sel_Empty s) \<or> fst (GetAllSelector inst)))"
  by (cases "GetSelector lib inst"; cases "GetTreeSelector lib inst"; cases "GetNoneSelector inst";
      cases "GetAllSelector inst")
    (auto simp: ShouldPropagate_def Let_def split: sum.splits option.splits if_splits)

end
