(* ===== verification/ObjectsReconciler.thy ===== *)
theory ObjectsReconciler
  imports Selectors Conditions Quotas
begin

text \<open>
  The object reconciler, \<^verbatim>\<open>internal/objects/reconciler.go\<close> and
  \<^verbatim>\<open>common.go\<close>: one reconciler for each kind that HNC propagates.

  A reconciler is a type syncer of the forest, so it is a pointer \<open>r\<close>, an index into
  \<open>f_types\<close>; its fields \<^verbatim>\<open>GVK\<close>, \<^verbatim>\<open>Mode\<close> and
  \<^verbatim>\<open>propagatedObjects\<close> are the fields of that entry. The environment holds the
  forest, the objects put on the \<^verbatim>\<open>Affected\<close> channel and the events that were recorded.
  Reads from the API server are arguments; writes go through \<open>wr\<close>, which gives the error of a write.
  \<open>None\<close> is a panic or a walk that never ends. Log messages, statistics and the locks are left out.
\<close>

type_synonym tsptr = nat

record ObjEvent =
  ev_object :: Unstructured
  ev_reason :: string
  ev_message :: string

record ObjEnv =
  oe_forest :: Forest
  oe_affected :: "Unstructured list"
  oe_events :: "ObjEvent list"

definition EventCannotPropagate :: string where "EventCannotPropagate = ''CannotPropagateObject''"
definition EventCannotUpdate :: string where "EventCannotUpdate = ''CannotUpdateObject''"
definition EventCannotParseSelector :: string where "EventCannotParseSelector = ''CannotParseSelector''"

datatype syncAction = actionUnknown | actionRemove | actionWrite | actionNop

fun show_action :: "syncAction \<Rightarrow> string" where
  "show_action actionUnknown = ''<hnc internal error - unknown action>''"
| "show_action actionRemove = ''remove''"
| "show_action actionWrite = ''write''"
| "show_action actionNop = ''no-op''"

definition unknownSourceNamespace :: string where
  "unknownSourceNamespace = ''<unknown-source-namespace>''"

definition ts_deref :: "Forest \<Rightarrow> tsptr \<Rightarrow> TypeSyncer" where
  "ts_deref f r = (if r < length (f_types f) then f_types f ! r
     else \<lparr>ts_GVK = \<lparr>gvk_group = '''', gvk_version = '''', gvk_kind = ''''\<rparr>, ts_Mode = UnsetMode, ts_propagatedObjects = []\<rparr>)"

definition ts_modify :: "tsptr \<Rightarrow> (TypeSyncer \<Rightarrow> TypeSyncer) \<Rightarrow> Forest \<Rightarrow> Forest" where
  "ts_modify r g f = f\<lparr>f_types := (f_types f)[r := g (ts_deref f r)]\<rparr>"

section \<open>Canonical objects (common.go)\<close>

definition metaPrefix :: "string \<Rightarrow> string" where
  "metaPrefix s = (let p = Split s (CHR ''/'') in if length p = 1 then '''' else hd p)"

text \<open>A map rebuilt from the entries that are kept is a filter, because keys are distinct.\<close>

definition nonHNC :: "(string, string) gomap option \<Rightarrow> (string, string) gomap" where
  "nonHNC m = filter (\<lambda>(k, v). \<not> HasSuffix (metaPrefix k) MetaGroup) (nil_map m)"

definition canonical :: "Unstructured \<Rightarrow> Unstructured" where
  "canonical inst =
     \<lparr>obj_gvk = obj_gvk inst, obj_name = obj_name inst, obj_namespace = '''',
      obj_labels = Some (nonHNC (obj_labels inst)), obj_annotations = Some (nonHNC (obj_annotations inst)),
      obj_finalizers = [], obj_creationTimestamp = 0, obj_deletionTimestamp = 0, obj_resourceVersion = '''',
      obj_content = AList.delete ''status'' (obj_content inst)\<rparr>"

text \<open>\<^verbatim>\<open>reflect.DeepEqual\<close> of two objects; the content holds JSON objects in key order.\<close>

definition DeepEqual_obj :: "Unstructured \<Rightarrow> Unstructured \<Rightarrow> bool" where
  "DeepEqual_obj a b = (obj_gvk a = obj_gvk b \<and> obj_name a = obj_name b \<and> obj_namespace a = obj_namespace b \<and>
     DeepEqual_map (obj_labels a) (obj_labels b) \<and> DeepEqual_map (obj_annotations a) (obj_annotations b) \<and>
     obj_finalizers a = obj_finalizers b \<and> obj_creationTimestamp a = obj_creationTimestamp b \<and>
     obj_deletionTimestamp a = obj_deletionTimestamp b \<and> obj_resourceVersion a = obj_resourceVersion b \<and>
     map_equal (obj_content a) (obj_content b))"

section \<open>Modes\<close>

definition GetMode :: "Forest \<Rightarrow> tsptr \<Rightarrow> SynchronizationMode" where
  "GetMode f r = ts_Mode (ts_deref f r)"

definition GetGVK :: "Forest \<Rightarrow> tsptr \<Rightarrow> GroupVersionKind" where
  "GetGVK f r = ts_GVK (ts_deref f r)"

fun GetValidateMode :: "SynchronizationMode \<Rightarrow> SynchronizationMode" where
  "GetValidateMode UnsetMode = Propagate"
| "GetValidateMode (OtherMode m) = Ignore"
| "GetValidateMode mode = mode"

definition CanPropagate :: "Forest \<Rightarrow> tsptr \<Rightarrow> bool" where
  "CanPropagate f r = (GetMode f r = Propagate \<or> GetMode f r = AllowPropagate)"

definition GetNumPropagatedObjects :: "Forest \<Rightarrow> tsptr \<Rightarrow> nat" where
  "GetNumPropagatedObjects f r = length (ts_propagatedObjects (ts_deref f r))"

section \<open>Enqueueing\<close>

text \<open>\<open>lst\<close> lists the objects of the kind in a namespace, or gives the error of the listing.\<close>

definition enqueueExistingObjects :: "(string \<Rightarrow> string + Unstructured list) \<Rightarrow> string \<Rightarrow> ObjEnv \<Rightarrow> string option \<times> ObjEnv" where
  "enqueueExistingObjects lst nsnm e =
     (case lst nsnm of
        Inl err \<Rightarrow> (Some err, e)
      | Inr items \<Rightarrow> (None, fold (\<lambda>inst e.
          e\<lparr>oe_affected := oe_affected e @ [(canonical inst)\<lparr>obj_namespace := obj_namespace inst\<rparr>]\<rparr>) items e))"

fun enqueue_in_namespaces :: "(string \<Rightarrow> string + Unstructured list) \<Rightarrow> string list \<Rightarrow> ObjEnv \<Rightarrow> string option \<times> ObjEnv" where
  "enqueue_in_namespaces lst [] e = (None, e)"
| "enqueue_in_namespaces lst (ns # nss) e =
     (case enqueueExistingObjects lst ns e of
        (Some err, e) \<Rightarrow> (Some err, e)
      | (None, e) \<Rightarrow> enqueue_in_namespaces lst nss e)"

definition enqueueAllObjects :: "(string \<Rightarrow> string + Unstructured list) \<Rightarrow> ObjEnv \<Rightarrow> string option \<times> ObjEnv" where
  "enqueueAllObjects lst e = enqueue_in_namespaces lst (GetNamespaceNames (oe_forest e)) e"

definition SetMode ::
  "(string \<Rightarrow> string + Unstructured list) \<Rightarrow> tsptr \<Rightarrow> SynchronizationMode \<Rightarrow> ObjEnv \<Rightarrow> string option \<times> ObjEnv" where
  "SetMode lst r mode e =
     (let newMode = GetValidateMode mode; oldMode = GetMode (oe_forest e) r in
      if newMode = oldMode then (None, e)
      else (let e = e\<lparr>oe_forest := ts_modify r (\<lambda>t. t\<lparr>ts_Mode := newMode\<rparr>) (oe_forest e)\<rparr> in
        if newMode \<noteq> Ignore then enqueueAllObjects lst e else (None, e)))"

text \<open>
  \<^verbatim>\<open>OnChangeNamespace\<close> of the syncer: at most six listings, of which attempt \<open>i\<close> is
  \<open>lst i\<close>, and the sources of the proper ancestors.
\<close>

fun list_attempts :: "(nat \<Rightarrow> string \<Rightarrow> string + Unstructured list) \<Rightarrow> nat \<Rightarrow> nat \<Rightarrow> string \<Rightarrow> ObjEnv \<Rightarrow> ObjEnv" where
  "list_attempts lst attempts 0 nsnm e = e"
| "list_attempts lst attempts (Suc left) nsnm e =
     (case enqueueExistingObjects (lst attempts) nsnm e of
        (None, e) \<Rightarrow> e
      | (Some err, e) \<Rightarrow> list_attempts lst (Suc attempts) left nsnm e)"

definition source_ref :: "GroupVersionKind \<Rightarrow> NamespacedName \<Rightarrow> Unstructured" where
  "source_ref gvk nnm = \<lparr>obj_gvk = gvk, obj_name = nnm_name nnm, obj_namespace = nnm_namespace nnm, obj_labels = None,
     obj_annotations = None, obj_finalizers = [], obj_creationTimestamp = 0, obj_deletionTimestamp = 0,
     obj_resourceVersion = '''', obj_content = []\<rparr>"

definition OnChangeNamespace_obj ::
  "(nat \<Rightarrow> string \<Rightarrow> string + Unstructured list) \<Rightarrow> tsptr \<Rightarrow> nsptr \<Rightarrow> ObjEnv \<Rightarrow> ObjEnv option" where
  "OnChangeNamespace_obj lst r ns e = do {
     let nsnm = ns_name (deref (oe_forest e) ns);
     (srcnms, f) \<leftarrow> GetAncestorSourceNames (ns_parent (deref (oe_forest e) ns)) (GetGVK (oe_forest e) r) '''' (oe_forest e);
     let e = list_attempts lst 0 6 nsnm (e\<lparr>oe_forest := f\<rparr>);
     Some (e\<lparr>oe_affected := oe_affected e @ map (source_ref (GetGVK f r)) srcnms\<rparr>) }"

definition enqueueDescendants :: "Unstructured \<Rightarrow> ObjEnv \<Rightarrow> ObjEnv option" where
  "enqueueDescendants src e = do {
     (sns, f) \<leftarrow> GetP (obj_namespace src) (oe_forest e);
     halted \<leftarrow> GetHaltedRoot f (Some sns);
     if halted \<noteq> '''' then Some (e\<lparr>oe_forest := f\<rparr>)
     else do {
       (ds, f) \<leftarrow> DescendantNames sns f;
       Some (e\<lparr>oe_forest := f,
         oe_affected := oe_affected e @ map (\<lambda>ns. (canonical src)\<lparr>obj_namespace := ns\<rparr>) ds\<rparr>) } }"

section \<open>Sources\<close>

definition hasPropagatedLabel :: "Unstructured \<Rightarrow> bool" where
  "hasPropagatedLabel inst = (case obj_labels inst of
       None \<Rightarrow> False | Some labels \<Rightarrow> has_key labels LabelInheritedFrom)"

definition hasFinalizers :: "Unstructured \<Rightarrow> bool" where
  "hasFinalizers inst = (length (obj_finalizers inst) \<noteq> 0)"

definition cleanSource :: "Config \<Rightarrow> Unstructured \<Rightarrow> Unstructured" where
  "cleanSource c src =
     (let annot = fold AList.delete (UnpropagatedAnnotations c) (nil_map (obj_annotations src));
          src = src\<lparr>obj_annotations := Some annot\<rparr>;
          labels = AList.update LabelManagedByApps MetaGroup (nil_map (obj_labels src));
          labels = fold AList.delete (UnpropagatedLabels c) labels
      in src\<lparr>obj_labels := Some labels\<rparr>)"

definition shouldPropagateSource ::
  "SelectorLib \<Rightarrow> Config \<Rightarrow> tsptr \<Rightarrow> Unstructured \<Rightarrow> string \<Rightarrow> ObjEnv \<Rightarrow> (bool \<times> ObjEnv) option" where
  "shouldPropagateSource lib c r inst dst e = do {
     (ns, f) \<leftarrow> GetP dst (oe_forest e);
     let e = e\<lparr>oe_forest := f\<rparr>;
     let nsLabels = GetLabels f ns;
     (ok, err) \<leftarrow> ShouldPropagate lib c inst nsLabels (GetMode f r);
     case err of
       Some msg \<Rightarrow> Some (False, e\<lparr>oe_events := oe_events e @
         [\<lparr>ev_object = inst, ev_reason = EventCannotParseSelector, ev_message = msg\<rparr>]\<rparr>)
     | None \<Rightarrow>
         if \<not> ok then Some (False, e)
         else if GetMode f r = Remove then Some (False, e)
         else if hasFinalizers inst then Some (False, e)
         else if gvk_group (GetGVK f r) = '''' \<and> gvk_kind (GetGVK f r) = ''Secret''
         then Some (map_of (obj_content inst) ''type'' \<noteq> Some (JStr ''kubernetes.io/service-account-token''), e)
         else Some (True, e) }"

text \<open>
  A source name whose object is not there would be a nil object, whose methods panic.
\<close>

fun top_source_loop ::
  "SelectorLib \<Rightarrow> Config \<Rightarrow> tsptr \<Rightarrow> string \<Rightarrow> NamespacedName list \<Rightarrow> ObjEnv \<Rightarrow> (Unstructured option \<times> ObjEnv) option" where
  "top_source_loop lib c r dst [] e = Some (None, e)"
| "top_source_loop lib c r dst (nnm # nnms) e = do {
     (ns, f) \<leftarrow> GetP (nnm_namespace nnm) (oe_forest e);
     let e = e\<lparr>oe_forest := f\<rparr>;
     obj \<leftarrow> GetSourceObject f ns (GetGVK f r) (nnm_name nnm);
     (ok, e) \<leftarrow> shouldPropagateSource lib c r obj dst e;
     if \<not> ok then top_source_loop lib c r dst nnms e else Some (Some obj, e) }"

definition getTopSourceToPropagate ::
  "SelectorLib \<Rightarrow> Config \<Rightarrow> tsptr \<Rightarrow> Unstructured \<Rightarrow> ObjEnv \<Rightarrow> (Unstructured option \<times> ObjEnv) option" where
  "getTopSourceToPropagate lib c r inst e = do {
     let (ns, f) = Get (obj_namespace inst) (oe_forest e);
     (nnms, f) \<leftarrow> GetAncestorSourceNames (Parent f ns) (GetGVK f r) (obj_name inst) f;
     top_source_loop lib c r (obj_namespace inst) nnms (e\<lparr>oe_forest := f\<rparr>) }"

definition shouldSyncAsPropagated ::
  "SelectorLib \<Rightarrow> Config \<Rightarrow> tsptr \<Rightarrow> Unstructured \<Rightarrow> ObjEnv \<Rightarrow> (bool \<times> Unstructured option \<times> ObjEnv) option" where
  "shouldSyncAsPropagated lib c r inst e = do {
     (srcInst, e) \<leftarrow> getTopSourceToPropagate lib c r inst e;
     if hasPropagatedLabel inst then Some (True, srcInst, e)
     else do {
       ts \<leftarrow> GetTypeSyncer (oe_forest e) (GetGVK (oe_forest e) r);
       if (ts_Mode ts = Propagate \<or> ts_Mode ts = AllowPropagate) \<and> srcInst \<noteq> None
       then Some (True, srcInst, e)
       else Some (False, None, e) } }"

section \<open>Synchronization with the forest\<close>

definition recordPropagatedObject :: "tsptr \<Rightarrow> string \<Rightarrow> string \<Rightarrow> Forest \<Rightarrow> Forest" where
  "recordPropagatedObject r namespace nm f =
     (let nnm = \<lparr>nnm_namespace = namespace, nnm_name = nm\<rparr> in
      if nnm \<notin> set (ts_propagatedObjects (ts_deref f r))
      then ts_modify r (\<lambda>t. t\<lparr>ts_propagatedObjects := ts_propagatedObjects t @ [nnm]\<rparr>) f
      else f)"

definition recordRemovedObject :: "tsptr \<Rightarrow> string \<Rightarrow> string \<Rightarrow> Forest \<Rightarrow> Forest" where
  "recordRemovedObject r namespace nm f =
     (let nnm = \<lparr>nnm_namespace = namespace, nnm_name = nm\<rparr> in
      if nnm \<in> set (ts_propagatedObjects (ts_deref f r))
      then ts_modify r (\<lambda>t. t\<lparr>ts_propagatedObjects := removeAll nnm (ts_propagatedObjects t)\<rparr>) f
      else f)"

text \<open>The functions that change the object they are given return it too.\<close>

definition syncPropagated ::
  "tsptr \<Rightarrow> Unstructured \<Rightarrow> Unstructured option \<Rightarrow> ObjEnv \<Rightarrow> (syncAction \<times> Unstructured option \<times> Unstructured \<times> ObjEnv) option" where
  "syncPropagated r inst srcInst e = do {
     (ns, f) \<leftarrow> GetP (obj_namespace inst) (oe_forest e);
     let f = DeleteSourceObject ns (GetGVK f r) (obj_name inst) f;
     let e = e\<lparr>oe_forest := f\<rparr>;
     Some (case srcInst of
         None \<Rightarrow> (actionRemove, None, inst, e)
       | Some src \<Rightarrow>
           (let exists_obj = (obj_creationTimestamp inst \<noteq> 0) in
            if \<not> exists_obj \<or> \<not> DeepEqual_obj (canonical inst) (canonical src) \<or>
               get_str (nil_map (obj_labels inst)) LabelInheritedFrom \<noteq> obj_namespace src
            then (actionWrite, Some src, SetLabel inst LabelInheritedFrom (obj_namespace src), e)
            else (actionNop, None, inst,
              e\<lparr>oe_forest := recordPropagatedObject r (obj_namespace inst) (obj_name inst) f\<rparr>))) }"

definition syncSource :: "Config \<Rightarrow> Unstructured \<Rightarrow> ObjEnv \<Rightarrow> ObjEnv option" where
  "syncSource c src e = do {
     (ns, f) \<leftarrow> GetP (obj_namespace src) (oe_forest e);
     enqueueDescendants src (e\<lparr>oe_forest := SetSourceObject ns (cleanSource c src) f\<rparr>) }"

definition syncObject ::
  "SelectorLib \<Rightarrow> Config \<Rightarrow> tsptr \<Rightarrow> Unstructured \<Rightarrow> ObjEnv \<Rightarrow>
   (syncAction \<times> Unstructured option \<times> Unstructured \<times> ObjEnv) option" where
  "syncObject lib c r inst e =
     (if obj_namespace inst = '''' then Some (actionNop, None, inst, e)
      else do {
        (yes, srcInst, e) \<leftarrow> shouldSyncAsPropagated lib c r inst e;
        if yes then syncPropagated r inst srcInst e
        else do {
          e \<leftarrow> syncSource c inst e;
          Some (actionNop, None, inst, e) } })"

definition syncMissingObject :: "tsptr \<Rightarrow> Unstructured \<Rightarrow> ObjEnv \<Rightarrow> (syncAction \<times> Unstructured \<times> ObjEnv) option" where
  "syncMissingObject r inst e =
     (if obj_creationTimestamp inst \<noteq> 0 then Some (actionUnknown, inst, e)
      else do {
        (ns, f) \<leftarrow> GetP (obj_namespace inst) (oe_forest e);
        if HasSourceObject f ns (GetGVK f r) (obj_name inst)
        then do {
          e \<leftarrow> enqueueDescendants inst (e\<lparr>oe_forest := DeleteSourceObject ns (GetGVK f r) (obj_name inst) f\<rparr>);
          Some (actionNop, inst, e) }
        else Some (actionUnknown, SetLabel inst LabelInheritedFrom unknownSourceNamespace, e\<lparr>oe_forest := f\<rparr>) })"

definition skipNamespace :: "Unstructured \<Rightarrow> ObjEnv \<Rightarrow> (bool \<times> ObjEnv) option" where
  "skipNamespace inst e =
     (if \<not> IsZero (obj_deletionTimestamp inst) then Some (True, e)
      else do {
        (ns, f) \<leftarrow> GetP (obj_namespace inst) (oe_forest e);
        Some (\<not> Exists f ns, e\<lparr>oe_forest := f\<rparr>) })"

definition syncWithForest_obj ::
  "SelectorLib \<Rightarrow> Config \<Rightarrow> tsptr \<Rightarrow> Unstructured \<Rightarrow> ObjEnv \<Rightarrow>
   (syncAction \<times> Unstructured option \<times> Unstructured \<times> ObjEnv) option" where
  "syncWithForest_obj lib c r inst e = do {
     (skip, e) \<leftarrow> skipNamespace inst e;
     if skip then Some (actionNop, None, inst, e)
     else do {
       (missingAction, inst, e) \<leftarrow> syncMissingObject r inst e;
       if missingAction \<noteq> actionUnknown then Some (missingAction, None, inst, e)
       else do {
         (act, srcInst, inst, e) \<leftarrow> syncObject lib c r inst e;
         (ns, f) \<leftarrow> GetP (obj_namespace inst) (oe_forest e);
         let e = e\<lparr>oe_forest := f\<rparr>;
         halted \<leftarrow> GetHaltedRoot f (Some ns);
         if halted \<noteq> '''' then Some (actionNop, None, inst, e)
         else Some (act, srcInst, inst, e) } } }"

section \<open>Writing\<close>

datatype ObjWrite = CreateObj Unstructured | UpdateObj Unstructured | DeleteObj Unstructured

datatype APIError = ErrNotFound string | ErrInvalid string | ErrAlreadyExists string | ErrOther string

fun err_text :: "APIError \<Rightarrow> string" where
  "err_text (ErrNotFound m) = m" | "err_text (ErrInvalid m) = m"
| "err_text (ErrAlreadyExists m) = m" | "err_text (ErrOther m) = m"

fun IsNotFound :: "APIError \<Rightarrow> bool" where
  "IsNotFound (ErrNotFound m) = True" | "IsNotFound e = False"

fun IsInvalid :: "APIError \<Rightarrow> bool" where
  "IsInvalid (ErrInvalid m) = True" | "IsInvalid e = False"

fun IsAlreadyExists :: "APIError \<Rightarrow> bool" where
  "IsAlreadyExists (ErrAlreadyExists m) = True" | "IsAlreadyExists e = False"

definition deleteObject ::
  "(ObjWrite \<Rightarrow> APIError option) \<Rightarrow> tsptr \<Rightarrow> Unstructured \<Rightarrow> Forest \<Rightarrow> ObjWrite list \<times> APIError option \<times> Forest" where
  "deleteObject wr r inst f =
     (case wr (DeleteObj inst) of
        None \<Rightarrow> ([DeleteObj inst], None, recordRemovedObject r (obj_namespace inst) (obj_name inst) f)
      | Some err \<Rightarrow> ([DeleteObj inst], if IsNotFound err then None else Some err, f))"

text \<open>The object that is written for a source.\<close>

definition written_copy :: "Unstructured \<Rightarrow> Unstructured \<Rightarrow> Unstructured" where
  "written_copy inst srcInst =
     SetLabel ((canonical srcInst)\<lparr>obj_namespace := obj_namespace inst, obj_resourceVersion := obj_resourceVersion inst\<rparr>)
       LabelInheritedFrom (obj_namespace srcInst)"

definition writeObject ::
  "(ObjWrite \<Rightarrow> APIError option) \<Rightarrow> tsptr \<Rightarrow> Unstructured \<Rightarrow> Unstructured \<Rightarrow> Forest \<Rightarrow> ObjWrite list \<times> APIError option \<times> Forest" where
  "writeObject wr r inst srcInst f =
     (let exist = (obj_creationTimestamp inst \<noteq> 0);
          inst = written_copy inst srcInst;
          (ws, err) =
            (if exist then
               (case wr (UpdateObj inst) of
                  None \<Rightarrow> ([UpdateObj inst], None)
                | Some err \<Rightarrow>
                    if IsInvalid err \<and> gvk_kind (obj_gvk inst) = ''RoleBinding'' \<and>
                       gvk_group (obj_gvk inst) = ''rbac.authorization.k8s.io''
                    then (case wr (DeleteObj inst) of
                        None \<Rightarrow> ([UpdateObj inst, DeleteObj inst, CreateObj inst], wr (CreateObj inst))
                      | Some err \<Rightarrow> ([UpdateObj inst, DeleteObj inst], Some err))
                    else ([UpdateObj inst], Some err))
             else ([CreateObj inst], wr (CreateObj inst)))
      in (ws, err, if err \<noteq> None then f else recordPropagatedObject r (obj_namespace inst) (obj_name inst) f))"

definition generateEvents ::
  "Unstructured option \<Rightarrow> Unstructured \<Rightarrow> syncAction \<Rightarrow> APIError option \<Rightarrow> ObjEvent list" where
  "generateEvents srcInst inst act err =
     (if hasFinalizers inst then
        [\<lparr>ev_object = inst, ev_reason = EventCannotPropagate, ev_message = ''Objects with finalizers cannot be propagated''\<rparr>]
      else (case err of
          None \<Rightarrow> []
        | Some er \<Rightarrow>
            if IsAlreadyExists er then []
            else [\<lparr>ev_object = inst, ev_reason = EventCannotUpdate,
                   ev_message = ''Could not '' @ show_action act @ '' from source namespace '' @
                     quote (get_str (nil_map (obj_labels inst)) LabelInheritedFrom) @ '': '' @ err_text er @ ''.''\<rparr>] @
                 (case srcInst of
                    None \<Rightarrow> []
                  | Some src \<Rightarrow> [\<lparr>ev_object = src, ev_reason = EventCannotPropagate,
                      ev_message = ''Could not '' @ show_action act @ '' to destination namespace '' @
                        quote (obj_namespace inst) @ '': '' @ err_text er @ ''.''\<rparr>])))"

text \<open>A write without a source is a nil dereference.\<close>

definition operate ::
  "(ObjWrite \<Rightarrow> APIError option) \<Rightarrow> tsptr \<Rightarrow> syncAction \<Rightarrow> Unstructured \<Rightarrow> Unstructured option \<Rightarrow> ObjEnv \<Rightarrow>
   (ObjWrite list \<times> APIError option \<times> ObjEnv) option" where
  "operate wr r act inst srcInst e = do {
     (ws, err, f) \<leftarrow> (case act of
         actionNop \<Rightarrow> Some ([], None, oe_forest e)
       | actionRemove \<Rightarrow> Some (deleteObject wr r inst (oe_forest e))
       | actionWrite \<Rightarrow> map_option (\<lambda>src. writeObject wr r inst src (oe_forest e)) srcInst
       | actionUnknown \<Rightarrow> Some ([], Some (ErrOther (''HNC couldn't determine how to update this object (desired action: '' @
           show_action act @ '')'')), oe_forest e));
     Some (ws, err, e\<lparr>oe_forest := f, oe_events := oe_events e @ generateEvents srcInst inst act err\<rparr>) }"

section \<open>The reconciliation\<close>

definition Reconcile_obj ::
  "SelectorLib \<Rightarrow> Config \<Rightarrow> (ObjWrite \<Rightarrow> APIError option) \<Rightarrow> tsptr \<Rightarrow> NamespacedName \<Rightarrow> Unstructured read \<Rightarrow> ObjEnv \<Rightarrow>
   (ObjWrite list \<times> APIError option \<times> ObjEnv) option" where
  "Reconcile_obj lib c wr r req rd e =
     (if \<not> IsManagedNamespace c (nnm_namespace req) then Some ([], None, e)
      else if GetMode (oe_forest e) r = Ignore then Some ([], None, e)
      else (case rd of
          ReadError err \<Rightarrow> Some ([], Some (ErrOther err), e)
        | _ \<Rightarrow> do {
            let inst = (case rd of Found i \<Rightarrow> i | _ \<Rightarrow> source_ref (GetGVK (oe_forest e) r) req);
            (act, srcInst, inst, e) \<leftarrow> syncWithForest_obj lib c r inst e;
            operate wr r act inst srcInst e }))"

end
