(* ===== verification/Propagation.thy ===== *)
theory Propagation
  imports Tree_Labels ObjectsReconciler
begin

text \<open>
  What the object reconciler (internal/objects/reconciler.go) does, in terms of the forest: the source
  that it propagates to a namespace is the one of the topmost proper ancestor whose source may be
  propagated, a copy that was written is stable, and a source object of a user is never removed.
\<close>

section \<open>Source objects of the forest\<close>

text \<open>A property of every namespace of the heap, registered or not.\<close>

definition heap_all :: "(Namespace \<Rightarrow> bool) \<Rightarrow> Forest \<Rightarrow> bool" where
  "heap_all P f = list_all P (f_heap f)"

lemma heap_all_deref: "heap_all P f \<Longrightarrow> P (newNamespace '''') \<Longrightarrow> P (deref f a)"
  by (auto simp: heap_all_def deref_def list_all_length)

lemma heap_all_modify:
  assumes "heap_all P f" "P (newNamespace '''')" "\<And>n. P n \<Longrightarrow> P (g n)"
  shows "heap_all P (modify a g f)"
proof -
  have "P (g (deref f a))" by (rule assms(3) [OF heap_all_deref [OF assms(1,2)]])
  then show ?thesis
    using assms(1) set_update_subset_insert [of "f_heap f" a "g (deref f a)"]
    by (auto simp: heap_all_def modify_def list_all_iff)
qed

lemma heap_all_Get: "heap_all P f \<Longrightarrow> (\<And>nm. P (newNamespace nm)) \<Longrightarrow> heap_all P (snd (Get nm f))"
  by (cases nm f rule: Get_cases) (simp_all add: heap_all_def alloc_def)

text \<open>
  Every namespace stores its source objects under their kind and their name, they are objects of
  that namespace, and their tree selectors can be read: a blank segment in one makes the code that
  reads it panic, see \<open>GetTreeSelector_panic_iff\<close>.
\<close>

definition src_ok :: "SelectorLib \<Rightarrow> Namespace \<Rightarrow> bool" where
  "src_ok lib n \<longleftrightarrow> distinct_keys (ns_sourceObjects n) \<and> list_all (\<lambda>(gvk, m). distinct_keys m \<and>
     list_all (\<lambda>(nm, obj). obj_gvk obj = gvk \<and> obj_name obj = nm \<and> obj_namespace obj = ns_name n \<and>
       GetTreeSelector lib obj \<noteq> None) m) (ns_sourceObjects n)"

abbreviation sources_ok :: "SelectorLib \<Rightarrow> Forest \<Rightarrow> bool" where
  "sources_ok lib \<equiv> heap_all (src_ok lib)"

lemma src_ok_new [simp]: "src_ok lib (newNamespace nm)"
  by (simp add: src_ok_def newNamespace_def)

lemma src_ok_deref: "sources_ok lib f \<Longrightarrow> src_ok lib (deref f a)"
  by (simp add: heap_all_deref)

lemma sources_ok_modify:
  assumes "sources_ok lib f" "\<And>n. ns_sourceObjects (g n) = ns_sourceObjects n \<and> ns_name (g n) = ns_name n"
  shows "sources_ok lib (modify a g f)"
  using assms by (auto intro!: heap_all_modify simp: src_ok_def)

lemma sources_ok_Get: "sources_ok lib f \<Longrightarrow> sources_ok lib (snd (Get nm f))"
  by (simp add: heap_all_Get)

lemma objs_of_ok:
  assumes "sources_ok lib f" "map_of (objs_of f a gvk) nm = Some obj"
  shows "obj_gvk obj = gvk" "obj_name obj = nm" "obj_namespace obj = nm_of f a"
    "GetTreeSelector lib obj \<noteq> None"
proof -
  obtain m where m: "(gvk, m) \<in> set (ns_sourceObjects (deref f a))" "map_of m nm = Some obj"
    using assms(2) by (auto simp: objs_of_def split: option.splits dest: map_of_SomeD)
  then show "obj_gvk obj = gvk" "obj_name obj = nm" "obj_namespace obj = nm_of f a"
    "GetTreeSelector lib obj \<noteq> None"
    using src_ok_deref [OF assms(1), of a] map_of_SomeD [OF m(2)] by (auto simp: src_ok_def list_all_iff)
qed

lemma objs_of_distinct: "sources_ok lib f \<Longrightarrow> distinct_keys (objs_of f a gvk)"
  using src_ok_deref [of lib f a] by (auto simp: objs_of_def src_ok_def list_all_iff split: option.splits dest: map_of_SomeD)

section \<open>Sources of the ancestors\<close>

lemma GetSourceNames_eq:
  assumes "sources_ok lib f"
  shows "GetSourceNames f a gvk = map (\<lambda>nm. \<lparr>nnm_namespace = nm_of f a, nnm_name = nm\<rparr>) (keys (objs_of f a gvk))"
proof -
  have "\<forall>(nm, obj) \<in> set (objs_of f a gvk). obj_namespace obj = nm_of f a \<and> obj_name obj = nm"
    using objs_of_ok [OF assms, of a gvk] objs_of_distinct [OF assms, of a gvk] by auto
  moreover have "fold (\<lambda>(nm, obj) os. os @ [\<lparr>nnm_namespace = obj_namespace obj, nnm_name = obj_name obj\<rparr>]) m acc =
      acc @ map (\<lambda>(nm, obj). \<lparr>nnm_namespace = obj_namespace obj, nnm_name = obj_name obj\<rparr>) m"
    for m :: "(string, Unstructured) gomap" and acc
    by (induction m arbitrary: acc) auto
  ultimately show ?thesis by (auto simp: GetSourceNames_def)
qed

lemma fold_filter_append: "fold (\<lambda>x acc. if P x then acc @ [x] else acc) xs acc = acc @ filter P xs"
  by (induction xs arbitrary: acc) auto

lemma filter_distinct_single:
  "distinct xs \<Longrightarrow> filter (\<lambda>x. x = a) xs = (if a \<in> set xs then [a] else [])"
  by (induction xs) auto

lemma named_sources:
  assumes "sources_ok lib f"
  shows "filter (\<lambda>o1. nnm_name o1 = nm) (GetSourceNames f a gvk) =
    (if HasSourceObject f a gvk nm then [\<lparr>nnm_namespace = nm_of f a, nnm_name = nm\<rparr>] else [])"
proof -
  have "filter (\<lambda>x. x = nm) (keys (objs_of f a gvk)) = (if HasSourceObject f a gvk nm then [nm] else [])"
    using filter_distinct_single [OF objs_of_distinct [OF assms], of nm a gvk]
    by (auto simp: HasSourceObject_def GetSourceObject_def map_of_eq_None_iff)
  then have "map (\<lambda>nm. \<lparr>nnm_namespace = nm_of f a, nnm_name = nm\<rparr>) (filter (\<lambda>x. x = nm) (keys (objs_of f a gvk))) =
    (if HasSourceObject f a gvk nm then [\<lparr>nnm_namespace = nm_of f a, nnm_name = nm\<rparr>] else [])" by simp
  then show ?thesis
    by (simp only: GetSourceNames_eq [OF assms] filter_map comp_def NamespacedName.simps)
qed

text \<open>The namespaces above a namespace, from the root down.\<close>

definition above :: "Forest \<Rightarrow> nsptr option \<Rightarrow> nsptr list" where
  "above f p = rev (ancestry_ptrs f p {})"

lemma AncestryNames_above: "AncestryNames f p = map (nm_of f) (above f p)"
  by (cases p) (simp_all add: AncestryNames_ptrs above_def rev_map)

lemma above_registered:
  assumes "wf_forest f" "registered f a" "b \<in> set (above f (Some a))"
  shows "registered f b"
  using assms set_ancestry_ptrs [OF assms(1,2)] registered_rtrancl by (auto simp: above_def)

lemma ancestor_sources_loop_eq:
  assumes "wf_forest f" "sources_ok lib f" "nm \<noteq> ''''" "\<forall>a \<in> set as. registered f a"
  shows "ancestor_sources_loop gvk nm (map (nm_of f) as) acc f =
    Some (acc @ map (\<lambda>a. \<lparr>nnm_namespace = nm_of f a, nnm_name = nm\<rparr>) (filter (\<lambda>a. HasSourceObject f a gvk nm) as), f)"
  using assms(4)
proof (induction as arbitrary: acc)
  case (Cons a as)
  then show ?case
    using Get_registered [OF assms(1), of a] assms(2,3)
    by (simp add: fold_filter_append named_sources Let_def)
qed simp

lemma GetAncestorSourceNames_eq:
  assumes "wf_forest f" "sources_ok lib f" "nm \<noteq> ''''" "\<And>a. p = Some a \<Longrightarrow> registered f a"
  shows "GetAncestorSourceNames p gvk nm f =
    Some (map (\<lambda>a. \<lparr>nnm_namespace = nm_of f a, nnm_name = nm\<rparr>) (filter (\<lambda>a. HasSourceObject f a gvk nm) (above f p)), f)"
proof (cases p)
  case (Some a)
  have "\<forall>b \<in> set (above f (Some a)). registered f b"
    using above_registered [OF assms(1) assms(4) [OF Some]] by blast
  then show ?thesis
    using ancestor_sources_loop_eq [OF assms(1-3)] Some by (simp add: GetAncestorSourceNames_def AncestryNames_above)
qed (simp add: GetAncestorSourceNames_def above_def)

section \<open>The source to propagate\<close>

definition may_propagate ::
  "SelectorLib \<Rightarrow> Config \<Rightarrow> GroupVersionKind \<Rightarrow> SynchronizationMode \<Rightarrow> (string, string) gomap \<Rightarrow> Unstructured \<Rightarrow> bool" where
  "may_propagate lib c gvk mode labels src \<longleftrightarrow> ShouldPropagate lib c src labels mode = Some (True, None) \<and> mode \<noteq> Remove \<and>
     \<not> hasFinalizers src \<and> \<not> (gvk_group gvk = '''' \<and> gvk_kind gvk = ''Secret'' \<and>
       map_of (obj_content src) ''type'' = Some (JStr ''kubernetes.io/service-account-token''))"

definition top_source :: "SelectorLib \<Rightarrow> Config \<Rightarrow> tsptr \<Rightarrow> Forest \<Rightarrow> nsptr \<Rightarrow> string \<Rightarrow> Unstructured option" where
  "top_source lib c r f dst nm =
     find (may_propagate lib c (GetGVK f r) (GetMode f r) (GetLabels f dst))
       (List.map_filter (\<lambda>a. GetSourceObject f a (GetGVK f r) nm) (above f (ns_parent (deref f dst))))"

lemma ShouldPropagate_returns:
  "GetTreeSelector lib inst \<noteq> None \<Longrightarrow> \<exists>ok err. ShouldPropagate lib c inst labels mode = Some (ok, err) \<and> (err \<noteq> None \<longrightarrow> \<not> ok)"
  by (cases "GetSelector lib inst"; cases "GetNoneSelector inst"; cases "GetAllSelector inst")
    (auto simp: ShouldPropagate_def Let_def split: sum.splits option.splits if_splits)

definition only_events :: "ObjEnv \<Rightarrow> ObjEnv \<Rightarrow> bool" where
  "only_events e e' \<longleftrightarrow> (\<exists>evs. e' = e\<lparr>oe_events := oe_events e @ evs\<rparr>)"

lemma only_events_refl [simp]: "only_events e e"
  by (auto simp: only_events_def intro!: exI [of _ "[]"])

lemma only_events_trans: "only_events e e' \<Longrightarrow> only_events e' e'' \<Longrightarrow> only_events e e''"
  by (auto simp: only_events_def)

lemma only_events_forest: "only_events e e' \<Longrightarrow> oe_forest e' = oe_forest e"
  by (auto simp: only_events_def)

lemma shouldPropagateSource_eq:
  assumes "wf_forest (oe_forest e)" "registered (oe_forest e) dst" "GetTreeSelector lib src \<noteq> None"
  shows "\<exists>e'. shouldPropagateSource lib c r src (nm_of (oe_forest e) dst) e =
    Some (may_propagate lib c (GetGVK (oe_forest e) r) (GetMode (oe_forest e) r) (GetLabels (oe_forest e) dst) src, e') \<and>
    only_events e e'"
proof -
  obtain ok err where sp: "ShouldPropagate lib c src (GetLabels (oe_forest e) dst) (GetMode (oe_forest e) r) = Some (ok, err)"
    "err \<noteq> None \<longrightarrow> \<not> ok"
    using ShouldPropagate_returns [OF assms(3)] by blast
  have ev: "only_events e (e\<lparr>oe_events := oe_events e @ evs\<rparr>)" for evs by (auto simp: only_events_def)
  show ?thesis
    using sp by (cases err)
      (auto simp: shouldPropagateSource_def GetP_registered [OF assms(1,2)] Let_def may_propagate_def ev)
qed

lemma top_source_loop_eq:
  assumes "wf_forest (oe_forest e)" "sources_ok lib (oe_forest e)" "registered (oe_forest e) dst"
    and "\<forall>a \<in> set as. registered (oe_forest e) a"
  shows "\<exists>e'. top_source_loop lib c r (nm_of (oe_forest e) dst) (map (\<lambda>a. \<lparr>nnm_namespace = nm_of (oe_forest e) a, nnm_name = nm\<rparr>)
      (filter (\<lambda>a. HasSourceObject (oe_forest e) a (GetGVK (oe_forest e) r) nm) as)) e =
    Some (find (may_propagate lib c (GetGVK (oe_forest e) r) (GetMode (oe_forest e) r) (GetLabels (oe_forest e) dst))
      (List.map_filter (\<lambda>a. GetSourceObject (oe_forest e) a (GetGVK (oe_forest e) r) nm) as), e') \<and> only_events e e'"
  using assms
proof (induction as arbitrary: e)
  case (Cons a as)
  let ?f = "oe_forest e"
  show ?case
  proof (cases "GetSourceObject ?f a (GetGVK ?f r) nm")
    case None
    then show ?thesis
      using Cons by (simp add: HasSourceObject_def map_filter_simps)
  next
    case (Some src)
    have "GetTreeSelector lib src \<noteq> None"
      using objs_of_ok(4) [OF Cons.prems(2)] Some by (auto simp: GetSourceObject_def)
    then obtain e' where e': "shouldPropagateSource lib c r src (nm_of ?f dst) e =
        Some (may_propagate lib c (GetGVK ?f r) (GetMode ?f r) (GetLabels ?f dst) src, e')" "only_events e e'"
      using shouldPropagateSource_eq [OF Cons.prems(1,3)] by blast
    then have f: "oe_forest e' = ?f" by (simp add: only_events_forest)
    have "registered ?f a" using Cons.prems(4) by simp
    then show ?thesis
      using Cons.IH [of e'] Cons.prems e' f Some only_events_trans [OF e'(2)]
      by (auto simp: HasSourceObject_def map_filter_simps GetP_registered Let_def)
  qed
qed (auto simp: map_filter_simps)

lemma getTopSourceToPropagate_eq:
  assumes "wf_forest (oe_forest e)" "sources_ok lib (oe_forest e)" "registered (oe_forest e) dst"
    and "obj_namespace inst = nm_of (oe_forest e) dst" "obj_name inst \<noteq> ''''"
  shows "\<exists>e'. getTopSourceToPropagate lib c r inst e = Some (top_source lib c r (oe_forest e) dst (obj_name inst), e') \<and>
    only_events e e'"
proof -
  let ?f = "oe_forest e"
  have reg: "registered ?f a" if "ns_parent (deref ?f dst) = Some a" for a
    using registered_parent [OF assms(1,3) that] by simp
  have "\<forall>a \<in> set (above ?f (ns_parent (deref ?f dst))). registered ?f a"
    using above_registered [OF assms(1)] reg by (cases "ns_parent (deref ?f dst)") (auto simp: above_def)
  note tl = top_source_loop_eq [OF assms(1-3) this, of c r "obj_name inst"]
  show ?thesis
    using tl GetAncestorSourceNames_eq [OF assms(1,2,5) reg, of "ns_parent (deref ?f dst)"]
    by (simp add: getTopSourceToPropagate_def assms(4) Get_registered [OF assms(1,3)] Parent_def top_source_def)
qed

section \<open>Steps that keep the tree\<close>

definition calm :: "Forest \<Rightarrow> Forest \<Rightarrow> bool" where
  "calm f g \<longleftrightarrow> quiet f g \<and> quiet g f"

lemma calm_refl [simp]: "calm f f"
  by (simp add: calm_def)

lemma calm_trans: "calm f g \<Longrightarrow> calm g h \<Longrightarrow> calm f h"
  by (auto simp: calm_def intro: quiet_trans)

lemma calm_quiet: "calm f g \<Longrightarrow> quiet f g"
  by (simp add: calm_def)

lemma calm_modify:
  assumes "\<And>n. ns_name (u n) = ns_name n" "\<And>n. ns_parent (u n) = ns_parent n"
    "\<And>n. ns_children (u n) = ns_children n" "\<And>n. ns_exists (u n) = ns_exists n"
    "\<And>n. ns_conditions (u n) = ns_conditions n"
  shows "calm f (modify a u f)"
  using same_shape_modify [of u f a] modify_field [of ns_exists u a f] modify_field [of ns_conditions u a f] assms
  by (simp add: calm_def quiet_def IsHalted_def same_shape_sym)

lemma calm_types: "calm f (f\<lparr>f_types := ts\<rparr>)"
  by (simp add: calm_def quiet_def same_shape_def deref_def IsHalted_def)

lemma calm_ts_modify [simp]: "calm f (ts_modify r g f)"
  by (simp add: ts_modify_def calm_types)

lemma calm_DeleteSourceObject [simp]: "calm f (DeleteSourceObject a gvk nm f)"
  by (auto simp: DeleteSourceObject_def Let_def intro!: calm_modify)

lemma calm_SetSourceObject [simp]: "calm f (SetSourceObject a obj f)"
  by (auto simp: SetSourceObject_def intro!: calm_modify)

lemma calm_halted: "calm f g \<Longrightarrow> IsHalted g (Some a) = IsHalted f (Some a)"
  by (auto simp: calm_def quiet_halted)

lemma GetHaltedRoot_keep:
  assumes "calm f g" "GetHaltedRoot f p = Some x"
  shows "GetHaltedRoot g p = Some x"
proof -
  let ?P = "\<lambda>f' p (x :: string). f' = f \<longrightarrow> GetHaltedRoot g p = Some x"
  have "?P f p x"
  proof (rule GetHaltedRoot.raw_induct [where P = ?P, rotated])
    fix W and f' :: Forest and p and x :: string
    assume IH: "\<And>f' p x. W f' p = Some x \<Longrightarrow> ?P f' p x"
      and eq: "(case p of None \<Rightarrow> Some '''' | Some a \<Rightarrow>
        if IsHalted f' p then Some (ns_name (deref f' a)) else W f' (Parent f' p)) = Some x"
    show "?P f' p x"
    proof
      assume f: "f' = f"
      note sh = calm_quiet [OF assms(1), THEN quiet_shape]
      show "GetHaltedRoot g p = Some x"
      proof (cases p)
        case None
        then show ?thesis using eq by (simp add: GetHaltedRoot_None)
      next
        case (Some a)
        then show ?thesis
          using eq IH [of f "ns_parent (deref f a)" x] f calm_halted [OF assms(1)] sh
          by (auto simp: GetHaltedRoot_Some Parent_def same_shape_def split: if_splits)
      qed
    qed
  qed (rule assms(2))
  then show ?thesis by simp
qed

lemma GetHaltedRoot_calm: "calm f g \<Longrightarrow> GetHaltedRoot g p = GetHaltedRoot f p"
proof -
  assume c: "calm f g"
  then have "calm g f" by (simp add: calm_def)
  then show ?thesis
    using c GetHaltedRoot_keep [of f g p] GetHaltedRoot_keep [of g f p]
    by (cases "GetHaltedRoot f p"; cases "GetHaltedRoot g p") auto
qed

section \<open>The synchronization of an object\<close>

lemma enqueueDescendants_eq:
  assumes "forest_inv (oe_forest e)" "registered (oe_forest e) a" "obj_namespace src = nm_of (oe_forest e) a"
  shows "\<exists>as. enqueueDescendants src e = Some (e\<lparr>oe_affected := as\<rparr>)"
proof -
  let ?f = "oe_forest e"
  have wf: "wf_forest ?f" using assms(1) by (simp add: forest_inv_def)
  obtain h where "GetHaltedRoot ?f (Some a) = Some h"
    using hr.returns [OF wf assms(2) inv_halts [OF assms(1,2)]] by auto
  moreover obtain ds where "DescendantNames a ?f = Some (ds, ?f)"
    using DescendantNames_eq [OF wf assms(2)] by auto
  ultimately have "enqueueDescendants src e = Some (e\<lparr>oe_affected := (if h \<noteq> '''' then oe_affected e
      else oe_affected e @ map (\<lambda>ns. (canonical src)\<lparr>obj_namespace := ns\<rparr>) ds)\<rparr>)"
    by (simp add: enqueueDescendants_def assms(3) GetP_registered [OF wf assms(2)])
  then show ?thesis by blast
qed

text \<open>The decision of the reconciler, and the source it writes.\<close>

definition up_to_date :: "Unstructured \<Rightarrow> Unstructured \<Rightarrow> bool" where
  "up_to_date inst src \<longleftrightarrow> obj_creationTimestamp inst \<noteq> 0 \<and> DeepEqual_obj (canonical inst) (canonical src) \<and>
     get_str (nil_map (obj_labels inst)) LabelInheritedFrom = obj_namespace src"

definition propagated_action :: "Unstructured \<Rightarrow> Unstructured option \<Rightarrow> syncAction \<times> Unstructured option" where
  "propagated_action inst tsrc = (case tsrc of
       None \<Rightarrow> (actionRemove, None)
     | Some src \<Rightarrow> if up_to_date inst src then (actionNop, None) else (actionWrite, Some src))"

definition is_copy :: "Forest \<Rightarrow> tsptr \<Rightarrow> Unstructured option \<Rightarrow> Unstructured \<Rightarrow> bool" where
  "is_copy f r tsrc inst \<longleftrightarrow> hasPropagatedLabel inst \<or>
     (GetMode f r = Propagate \<or> GetMode f r = AllowPropagate) \<and> tsrc \<noteq> None"

definition object_action ::
  "SelectorLib \<Rightarrow> Config \<Rightarrow> tsptr \<Rightarrow> Forest \<Rightarrow> nsptr \<Rightarrow> Unstructured \<Rightarrow> syncAction \<times> Unstructured option" where
  "object_action lib c r f a inst =
     (let tsrc = top_source lib c r f a (obj_name inst) in
      if obj_deletionTimestamp inst \<noteq> 0 \<or> \<not> ns_exists (deref f a) then (actionNop, None)
      else if obj_creationTimestamp inst = 0 \<and> HasSourceObject f a (GetGVK f r) (obj_name inst) then (actionNop, None)
      else if GetHaltedRoot f (Some a) \<noteq> Some '''' then (actionNop, None)
      else if obj_creationTimestamp inst = 0 \<or> is_copy f r tsrc inst then propagated_action inst tsrc
      else (actionNop, None))"

definition types_ok :: "Forest \<Rightarrow> bool" where
  "types_ok f = distinct (map ts_GVK (f_types f))"

lemma GetTypeSyncer_own:
  assumes "types_ok f" "r < length (f_types f)"
  shows "GetTypeSyncer f (GetGVK f r) = Some (ts_deref f r)"
proof -
  have "find (\<lambda>t. ts_GVK t = ts_GVK (ts ! r)) ts = Some (ts ! r)" if "distinct (map ts_GVK ts)" "r < length ts"
    for ts :: "TypeSyncer list"
    using that
  proof (induction ts arbitrary: r)
    case (Cons t ts)
    then show ?case
      by (cases r) (auto dest: nth_mem intro: imageI)
  qed simp
  then show ?thesis
    using assms by (simp add: GetTypeSyncer_def GetGVK_def ts_deref_def types_ok_def)
qed

lemma shouldSyncAsPropagated_eq:
  assumes "wf_forest (oe_forest e)" "sources_ok lib (oe_forest e)" "registered (oe_forest e) a"
    and "obj_namespace inst = nm_of (oe_forest e) a" "obj_name inst \<noteq> ''''"
    and "types_ok (oe_forest e)" "r < length (f_types (oe_forest e))"
  shows "\<exists>e' src. shouldSyncAsPropagated lib c r inst e =
      Some (is_copy (oe_forest e) r (top_source lib c r (oe_forest e) a (obj_name inst)) inst, src, e') \<and> only_events e e' \<and>
    (is_copy (oe_forest e) r (top_source lib c r (oe_forest e) a (obj_name inst)) inst \<longrightarrow>
       src = top_source lib c r (oe_forest e) a (obj_name inst))"
proof -
  obtain e' where e': "getTopSourceToPropagate lib c r inst e = Some (top_source lib c r (oe_forest e) a (obj_name inst), e')"
    "only_events e e'"
    using getTopSourceToPropagate_eq [OF assms(1-5)] by blast
  then show ?thesis
    using GetTypeSyncer_own [OF assms(6,7)] only_events_forest [OF e'(2)]
    by (auto simp: shouldSyncAsPropagated_def is_copy_def GetMode_def)
qed

lemma heap_all_set:
  assumes "heap_all P f" "P (g (deref f a))"
  shows "heap_all P (modify a g f)"
  using assms set_update_subset_insert [of "f_heap f" a "g (deref f a)"]
  by (auto simp: heap_all_def modify_def list_all_iff)

lemma src_ok_iff:
  "src_ok lib n \<longleftrightarrow> distinct_keys (ns_sourceObjects n) \<and>
     (\<forall>gvk m. map_of (ns_sourceObjects n) gvk = Some m \<longrightarrow> distinct_keys m \<and>
        (\<forall>nm obj. map_of m nm = Some obj \<longrightarrow> obj_gvk obj = gvk \<and> obj_name obj = nm \<and> obj_namespace obj = ns_name n \<and>
           GetTreeSelector lib obj \<noteq> None))" (is "_ \<longleftrightarrow> ?R")
proof
  assume "src_ok lib n"
  then show ?R unfolding src_ok_def list_all_iff by (fastforce dest!: map_of_SomeD)
next
  assume ?R
  then show "src_ok lib n"
    unfolding src_ok_def list_all_iff by (auto simp: map_of_eq_Some_iff)
qed

lemma sources_ok_Delete:
  assumes "sources_ok lib f"
  shows "sources_ok lib (DeleteSourceObject a gvk nm f)"
  unfolding DeleteSourceObject_def Let_def
  using src_ok_deref [OF assms, of a] assms
  by (intro heap_all_set)
    (auto simp: src_ok_iff objs_of_def gomap_simps map_of_delete' update_conv' simp del: map_of_eq_Some_iff
      split: if_splits option.splits)

lemma sources_ok_Set:
  assumes "sources_ok lib f" "obj_namespace obj = nm_of f a" "GetTreeSelector lib obj \<noteq> None"
  shows "sources_ok lib (SetSourceObject a obj f)"
  unfolding SetSourceObject_def
  using src_ok_deref [OF assms(1), of a] assms
  by (intro heap_all_set)
    (auto simp: src_ok_iff objs_of_def gomap_simps map_of_delete' update_conv' simp del: map_of_eq_Some_iff
      split: if_splits option.splits)

lemma sources_ok_types: "sources_ok lib (f\<lparr>f_types := ts\<rparr>) = sources_ok lib f"
  by (simp add: heap_all_def)

lemma cleanSource_fields [simp]:
  "obj_namespace (cleanSource c src) = obj_namespace src" "obj_name (cleanSource c src) = obj_name src"
  "obj_gvk (cleanSource c src) = obj_gvk src"
  by (simp_all add: cleanSource_def Let_def)

lemma map_of_fold_delete: "map_of (fold AList.delete ks m) k = (if k \<in> set ks then None else map_of m k)"
  by (induction ks arbitrary: m) (auto simp: map_of_delete')

lemma cleanSource_selector:
  "GetTreeSelector lib src \<noteq> None \<Longrightarrow> GetTreeSelector lib (cleanSource c src) \<noteq> None"
proof -
  have "GetTreeSelectorAnnotation (cleanSource c src) = '''' \<or>
      GetTreeSelectorAnnotation (cleanSource c src) = GetTreeSelectorAnnotation src"
    by (auto simp: GetTreeSelectorAnnotation_def annotation_def cleanSource_def Let_def get_str_def map_of_fold_delete)
  then show "GetTreeSelector lib src \<noteq> None \<Longrightarrow> ?thesis"
    by (auto simp: GetTreeSelector_def)
qed

definition same_types :: "Forest \<Rightarrow> Forest \<Rightarrow> bool" where
  "same_types f g \<longleftrightarrow> map (\<lambda>t. (ts_GVK t, ts_Mode t)) (f_types g) = map (\<lambda>t. (ts_GVK t, ts_Mode t)) (f_types f)"

lemma same_types_length: "same_types f g \<Longrightarrow> length (f_types g) = length (f_types f)"
  unfolding same_types_def by (metis length_map)

lemma same_types_ok:
  assumes "same_types f g"
  shows "types_ok g = types_ok f"
proof -
  have "map fst (map (\<lambda>t. (ts_GVK t, ts_Mode t)) (f_types g)) = map fst (map (\<lambda>t. (ts_GVK t, ts_Mode t)) (f_types f))"
    using assms by (simp only: same_types_def)
  then show ?thesis by (simp add: types_ok_def comp_def)
qed

lemma same_types_refl [simp]: "same_types f f"
  by (simp add: same_types_def)

lemma same_types_trans: "same_types f g \<Longrightarrow> same_types g h \<Longrightarrow> same_types f h"
  by (simp add: same_types_def)

lemma same_types_eq: "f_types g = f_types f \<Longrightarrow> same_types f g"
  by (simp add: same_types_def)

lemma f_types_sources [simp]:
  "f_types (DeleteSourceObject a gvk nm f) = f_types f" "f_types (SetSourceObject a obj f) = f_types f"
  by (simp_all add: DeleteSourceObject_def SetSourceObject_def Let_def modify_def)

text \<open>What the reconciliation of an object of namespace \<open>a\<close> may change: the sources of that namespace.\<close>

definition obj_frame :: "SelectorLib \<Rightarrow> nsptr \<Rightarrow> Forest \<Rightarrow> Forest \<Rightarrow> bool" where
  "obj_frame lib a f g \<longleftrightarrow> calm f g \<and> same_types f g \<and> (sources_ok lib f \<longrightarrow> sources_ok lib g) \<and>
     (\<forall>b. ns_labels (deref g b) = ns_labels (deref f b)) \<and>
     (\<forall>b. b \<noteq> a \<longrightarrow> ns_sourceObjects (deref g b) = ns_sourceObjects (deref f b))"

lemma modify_labels: "(\<And>n. ns_labels (g n) = ns_labels n) \<Longrightarrow> ns_labels (deref (modify a g f) b) = ns_labels (deref f b)"
  by (rule modify_field)

lemma deref_ts_modify [simp]: "deref (ts_modify r g f) b = deref f b"
  by (simp add: ts_modify_def deref_def)

lemma obj_frame_refl [simp]: "obj_frame lib a f f"
  by (simp add: obj_frame_def)

lemma obj_frame_trans: "obj_frame lib a f g \<Longrightarrow> obj_frame lib a g h \<Longrightarrow> obj_frame lib a f h"
  by (auto simp: obj_frame_def intro: calm_trans same_types_trans)

lemma obj_frame_Delete: "obj_frame lib a f (DeleteSourceObject a gvk nm f)"
  by (simp add: obj_frame_def same_types_eq sources_ok_Delete) (simp add: DeleteSourceObject_def Let_def modify_labels deref_modify_other)

lemma obj_frame_Set:
  "obj_namespace obj = nm_of f a \<Longrightarrow> GetTreeSelector lib obj \<noteq> None \<Longrightarrow> obj_frame lib a f (SetSourceObject a obj f)"
  by (simp add: obj_frame_def same_types_eq sources_ok_Set) (simp add: SetSourceObject_def modify_labels deref_modify_other)

lemma obj_frame_ts_modify:
  assumes "\<And>t. ts_GVK (g t) = ts_GVK t \<and> ts_Mode (g t) = ts_Mode t"
  shows "obj_frame lib a f (ts_modify r g f)"
proof (cases "r < length (f_types f)")
  case True
  have "map h (xs[r := g (xs ! r)]) = map h xs" if "\<And>t. h (g t) = h t"
    for h :: "TypeSyncer \<Rightarrow> GroupVersionKind \<times> SynchronizationMode" and xs
    by (simp add: map_update that) (metis list_update_id map_update)
  then show ?thesis
    using True assms
    by (simp add: obj_frame_def, simp add: same_types_def ts_modify_def sources_ok_types ts_deref_def)
next
  case False
  then show ?thesis by (simp add: ts_modify_def list_update_beyond)
qed

lemma obj_frame_recordPropagated: "obj_frame lib a f (recordPropagatedObject r ns nm f)"
  by (auto simp: recordPropagatedObject_def Let_def intro!: obj_frame_ts_modify)

lemma obj_frame_recordRemoved: "obj_frame lib a f (recordRemovedObject r ns nm f)"
  by (auto simp: recordRemovedObject_def Let_def intro!: obj_frame_ts_modify)

definition obj_ready :: "SelectorLib \<Rightarrow> tsptr \<Rightarrow> Forest \<Rightarrow> nsptr \<Rightarrow> Unstructured \<Rightarrow> bool" where
  "obj_ready lib r f a inst \<longleftrightarrow> forest_inv f \<and> sources_ok lib f \<and> types_ok f \<and> r < length (f_types f) \<and> registered f a \<and>
     obj_namespace inst = nm_of f a \<and> obj_name inst \<noteq> '''' \<and> GetTreeSelector lib inst \<noteq> None"

lemma obj_ready_frame:
  assumes "obj_ready lib r f a inst" "obj_frame lib a f g"
  shows "obj_ready lib r g a inst"
proof -
  have sh: "same_shape f g" using assms(2) by (simp add: obj_frame_def calm_quiet quiet_shape)
  then show ?thesis
    using assms calm_quiet [of f g] quiet_inv [of f g] same_types_length [of f g] same_types_ok [of f g]
    by (simp add: obj_ready_def obj_frame_def shape_simps [OF sh])
qed

lemma SetLabel_fields [simp]:
  "obj_namespace (SetLabel inst k v) = obj_namespace inst" "obj_name (SetLabel inst k v) = obj_name inst"
  "obj_gvk (SetLabel inst k v) = obj_gvk inst" "obj_creationTimestamp (SetLabel inst k v) = obj_creationTimestamp inst"
  "GetTreeSelector lib (SetLabel inst k v) = GetTreeSelector lib inst"
  by (simp_all add: SetLabel_def GetTreeSelector_def GetTreeSelectorAnnotation_def annotation_def)

lemma hasPropagatedLabel_SetLabel [simp]: "hasPropagatedLabel (SetLabel inst LabelInheritedFrom v)"
  by (simp add: hasPropagatedLabel_def SetLabel_def has_key_def update_conv')

lemma syncPropagated_eq:
  assumes "obj_ready lib r (oe_forest e) a inst"
  shows "\<exists>inst' e'. syncPropagated r inst tsrc e =
      Some (fst (propagated_action inst tsrc), snd (propagated_action inst tsrc), inst', e') \<and>
    obj_frame lib a (oe_forest e) (oe_forest e') \<and> obj_namespace inst' = obj_namespace inst \<and> (obj_name inst' = obj_name inst \<and> obj_creationTimestamp inst' = obj_creationTimestamp inst)"
proof -
  let ?f = "oe_forest e"
  let ?g = "DeleteSourceObject a (GetGVK ?f r) (obj_name inst) ?f"
  have gp: "GetP (obj_namespace inst) ?f = Some (a, ?f)"
    using assms by (simp add: obj_ready_def forest_inv_def GetP_registered)
  have fr: "obj_frame lib a ?f ?g" by (rule obj_frame_Delete)
  show ?thesis
    by (cases tsrc) (auto simp: syncPropagated_def gp Let_def propagated_action_def up_to_date_def fr
        intro: obj_frame_trans [OF fr obj_frame_recordPropagated])
qed

lemma syncSource_eq:
  assumes "obj_ready lib r (oe_forest e) a inst"
  shows "\<exists>e'. syncSource c inst e = Some e' \<and> obj_frame lib a (oe_forest e) (oe_forest e') \<and>
    oe_forest e' = SetSourceObject a (cleanSource c inst) (oe_forest e)"
proof -
  let ?f = "oe_forest e"
  let ?g = "SetSourceObject a (cleanSource c inst) ?f"
  have gp: "GetP (obj_namespace inst) ?f = Some (a, ?f)"
    using assms by (simp add: obj_ready_def forest_inv_def GetP_registered)
  have fr: "obj_frame lib a ?f ?g"
    using assms by (intro obj_frame_Set) (simp_all add: obj_ready_def cleanSource_selector)
  then have "obj_ready lib r ?g a inst" by (rule obj_ready_frame [OF assms])
  then obtain as where "enqueueDescendants inst (e\<lparr>oe_forest := ?g\<rparr>) = Some (e\<lparr>oe_forest := ?g, oe_affected := as\<rparr>)"
    using enqueueDescendants_eq [of "e\<lparr>oe_forest := ?g\<rparr>" a inst] by (auto simp: obj_ready_def)
  then show ?thesis
    using fr by (simp add: syncSource_def gp)
qed

lemma syncObject_eq:
  assumes "obj_ready lib r (oe_forest e) a inst"
  shows "\<exists>act src inst' e'. syncObject lib c r inst e = Some (act, src, inst', e') \<and>
    (act, src) = (let tsrc = top_source lib c r (oe_forest e) a (obj_name inst) in
       if is_copy (oe_forest e) r tsrc inst then propagated_action inst tsrc else (actionNop, None)) \<and>
    obj_frame lib a (oe_forest e) (oe_forest e') \<and> obj_namespace inst' = obj_namespace inst \<and> (obj_name inst' = obj_name inst \<and> obj_creationTimestamp inst' = obj_creationTimestamp inst)"
proof -
  let ?f = "oe_forest e"
  define tsrc where "tsrc = top_source lib c r ?f a (obj_name inst)"
  have "obj_namespace inst \<noteq> ''''"
    using assms registered_name [of ?f a] by (simp add: obj_ready_def forest_inv_def)
  moreover obtain e' src where e': "shouldSyncAsPropagated lib c r inst e = Some (is_copy ?f r tsrc inst, src, e')"
    "only_events e e'" "is_copy ?f r tsrc inst \<longrightarrow> src = tsrc"
    using shouldSyncAsPropagated_eq [of e lib a inst r c] assms by (auto simp: obj_ready_def forest_inv_def tsrc_def)
  have "obj_ready lib r (oe_forest e') a inst" using assms only_events_forest [OF e'(2)] by simp
  note sp = syncPropagated_eq [OF this, of tsrc] and ss = syncSource_eq [OF this, of c]
  ultimately show ?thesis
    using e' sp ss only_events_forest [OF e'(2)]
    by (cases "is_copy ?f r tsrc inst") (auto simp: syncObject_def tsrc_def [symmetric] Let_def)
qed

lemma syncMissingObject_eq:
  assumes "obj_ready lib r (oe_forest e) a inst"
  shows "\<exists>inst' e'. syncMissingObject r inst e = Some (if obj_creationTimestamp inst = 0 \<and>
        HasSourceObject (oe_forest e) a (GetGVK (oe_forest e) r) (obj_name inst) then actionNop else actionUnknown, inst', e') \<and>
    obj_frame lib a (oe_forest e) (oe_forest e') \<and> obj_namespace inst' = obj_namespace inst \<and> (obj_name inst' = obj_name inst \<and> obj_creationTimestamp inst' = obj_creationTimestamp inst) \<and>
    (\<not> (obj_creationTimestamp inst = 0 \<and> HasSourceObject (oe_forest e) a (GetGVK (oe_forest e) r) (obj_name inst)) \<longrightarrow>
       oe_forest e' = oe_forest e \<and> inst' = (if obj_creationTimestamp inst = 0
         then SetLabel inst LabelInheritedFrom unknownSourceNamespace else inst))"
proof -
  let ?f = "oe_forest e"
  let ?g = "DeleteSourceObject a (GetGVK ?f r) (obj_name inst) ?f"
  have gp: "GetP (obj_namespace inst) ?f = Some (a, ?f)"
    using assms by (simp add: obj_ready_def forest_inv_def GetP_registered)
  have fr: "obj_frame lib a ?f ?g" by (rule obj_frame_Delete)
  then have "obj_ready lib r ?g a inst" by (rule obj_ready_frame [OF assms])
  then obtain as where "enqueueDescendants inst (e\<lparr>oe_forest := ?g\<rparr>) = Some (e\<lparr>oe_forest := ?g, oe_affected := as\<rparr>)"
    using enqueueDescendants_eq [of "e\<lparr>oe_forest := ?g\<rparr>" a inst] by (auto simp: obj_ready_def)
  then show ?thesis
    using fr by (auto simp: syncMissingObject_def gp)
qed

lemma propagated_action_missing:
  "obj_creationTimestamp inst = 0 \<Longrightarrow> propagated_action (SetLabel inst k v) tsrc = propagated_action inst tsrc"
  by (auto simp: propagated_action_def up_to_date_def split: option.split)

lemma obj_frame_halted:
  assumes "obj_ready lib r f a inst" "obj_frame lib a f g"
  shows "\<exists>h. GetHaltedRoot g (Some a) = Some h \<and> GetHaltedRoot f (Some a) = Some h"
proof -
  have "forest_inv f" "registered f a" using assms(1) by (simp_all add: obj_ready_def)
  then obtain h where "GetHaltedRoot f (Some a) = Some h"
    using hr.returns [of f a] inv_halts [of f a] by (auto simp: forest_inv_def)
  then show ?thesis
    using assms(2) GetHaltedRoot_calm [of f g] by (simp add: obj_frame_def)
qed

lemma syncWithForest_obj_eq:
  assumes "obj_ready lib r (oe_forest e) a inst"
  shows "\<exists>inst' e'. syncWithForest_obj lib c r inst e =
      Some (fst (object_action lib c r (oe_forest e) a inst), snd (object_action lib c r (oe_forest e) a inst), inst', e') \<and>
    obj_frame lib a (oe_forest e) (oe_forest e') \<and> obj_namespace inst' = obj_namespace inst \<and> (obj_name inst' = obj_name inst \<and> obj_creationTimestamp inst' = obj_creationTimestamp inst)"
proof -
  let ?f = "oe_forest e"
  let ?here = "obj_creationTimestamp inst = 0 \<and> HasSourceObject ?f a (GetGVK ?f r) (obj_name inst)"
  have gp: "GetP (obj_namespace inst) ?f = Some (a, ?f)"
    using assms by (simp add: obj_ready_def forest_inv_def GetP_registered)
  obtain i1 e1 where m: "syncMissingObject r inst e = Some (if ?here then actionNop else actionUnknown, i1, e1)"
    "obj_frame lib a ?f (oe_forest e1)" "obj_namespace i1 = obj_namespace inst" "(obj_name i1 = obj_name inst \<and> obj_creationTimestamp i1 = obj_creationTimestamp inst)"
    "\<not> ?here \<longrightarrow> oe_forest e1 = ?f \<and> i1 = (if obj_creationTimestamp inst = 0
         then SetLabel inst LabelInheritedFrom unknownSourceNamespace else inst)"
    using syncMissingObject_eq [OF assms] by blast
  consider "obj_deletionTimestamp inst \<noteq> 0 \<or> \<not> ns_exists (deref ?f a)"
    | "obj_deletionTimestamp inst = 0" "ns_exists (deref ?f a)" ?here
    | "obj_deletionTimestamp inst = 0" "ns_exists (deref ?f a)" "\<not> ?here" by blast
  then show ?thesis
  proof cases
    case 3
    have i1: "obj_ready lib r (oe_forest e1) a i1"
      using assms m(5) 3(3) by (auto simp: obj_ready_def)
    obtain act src i2 e2 where o: "syncObject lib c r i1 e1 = Some (act, src, i2, e2)"
      "(act, src) = (let tsrc = top_source lib c r (oe_forest e1) a (obj_name i1) in
         if is_copy (oe_forest e1) r tsrc i1 then propagated_action i1 tsrc else (actionNop, None))"
      "obj_frame lib a (oe_forest e1) (oe_forest e2)" "obj_namespace i2 = obj_namespace i1" "(obj_name i2 = obj_name i1 \<and> obj_creationTimestamp i2 = obj_creationTimestamp i1)"
      using syncObject_eq [OF i1, of c] by blast
    have f1: "oe_forest e1 = ?f" using m(5) 3(3) by blast
    obtain h where h: "GetHaltedRoot (oe_forest e2) (Some a) = Some h" "GetHaltedRoot ?f (Some a) = Some h"
      using obj_frame_halted [OF i1 o(3)] f1 by auto
    have gp2: "GetP (obj_namespace i2) (oe_forest e2) = Some (a, oe_forest e2)"
      using obj_ready_frame [OF i1 o(3)] o(4) by (simp add: obj_ready_def forest_inv_def GetP_registered)
    define P where "P = (let tsrc = top_source lib c r ?f a (obj_name inst) in
       if obj_creationTimestamp inst = 0 \<or> is_copy ?f r tsrc inst then propagated_action inst tsrc else (actionNop, None))"
    have "(act, src) = P"
      using o(2) m(4,5) 3(3) f1 by (auto simp: is_copy_def propagated_action_missing Let_def P_def)
    then have P: "act = fst P" "src = snd P" by (metis fst_conv, metis snd_conv)
    have "object_action lib c r ?f a inst = (if h \<noteq> '''' then (actionNop, None) else P)"
      using 3 h(2) by (auto simp: object_action_def P_def Let_def)
    moreover have "syncWithForest_obj lib c r inst e = Some (if h \<noteq> '''' then actionNop else act,
        if h \<noteq> '''' then None else src, i2, e2)"
      using 3(1,2) m(1) [unfolded if_not_P [OF 3(3)]] o(1) h(1) gp2
      by (simp add: syncWithForest_obj_def skipNamespace_def gp Exists_def)
    ultimately show ?thesis
      using P m(3,4) o(3-5) f1 by simp
  qed (use gp m in \<open>auto simp: syncWithForest_obj_def skipNamespace_def object_action_def Let_def Exists_def\<close>)
qed

section \<open>Reconciliation\<close>

text \<open>The objects of a list of writes.\<close>

fun write_obj :: "ObjWrite \<Rightarrow> Unstructured" where
  "write_obj (CreateObj obj) = obj" | "write_obj (UpdateObj obj) = obj" | "write_obj (DeleteObj obj) = obj"

lemma writeObject_eq:
  "\<exists>ws err g. writeObject wr r inst src f = (ws, err, g) \<and> obj_frame lib a f g \<and> ws \<noteq> [] \<and>
     (\<forall>w \<in> set ws. write_obj w = written_copy inst src) \<and>
     hd ws = (if obj_creationTimestamp inst = 0 then CreateObj (written_copy inst src) else UpdateObj (written_copy inst src)) \<and>
     (err = None \<longrightarrow> last ws = CreateObj (written_copy inst src) \<or> last ws = UpdateObj (written_copy inst src)) \<and>
     (err = None \<longrightarrow> g = recordPropagatedObject r (obj_namespace (written_copy inst src)) (obj_name (written_copy inst src)) f)"
  using obj_frame_recordPropagated [of lib a f r] by (auto simp: writeObject_def Let_def split: option.splits if_splits)

lemma deleteObject_eq:
  "\<exists>err g. deleteObject wr r inst f = ([DeleteObj inst], err, g) \<and> obj_frame lib a f g"
  using obj_frame_recordRemoved [of lib a f r] by (auto simp: deleteObject_def split: option.split)

text \<open>The object that is reconciled for a request.\<close>

definition read_obj :: "Forest \<Rightarrow> tsptr \<Rightarrow> NamespacedName \<Rightarrow> Unstructured read \<Rightarrow> Unstructured" where
  "read_obj f r req rd = (case rd of Found i \<Rightarrow> i | _ \<Rightarrow> source_ref (GetGVK f r) req)"

definition writes_for :: "syncAction \<times> Unstructured option \<Rightarrow> Unstructured \<Rightarrow> ObjWrite list \<Rightarrow> bool" where
  "writes_for act inst ws = (case act of
       (actionWrite, Some src) \<Rightarrow> ws \<noteq> [] \<and> list_all (\<lambda>w. write_obj w = written_copy inst src) ws \<and>
         hd ws = (if obj_creationTimestamp inst = 0 then CreateObj (written_copy inst src) else UpdateObj (written_copy inst src))
     | (actionRemove, _) \<Rightarrow> ws = [DeleteObj inst]
     | _ \<Rightarrow> ws = [])"

lemma object_action_cases:
  obtains "object_action lib c r f a inst = (actionNop, None)"
  | "object_action lib c r f a inst = (actionRemove, None)"
  | src where "object_action lib c r f a inst = (actionWrite, Some src)"
proof -
  have "propagated_action inst tsrc = (actionNop, None) \<or> propagated_action inst tsrc = (actionRemove, None) \<or>
      (\<exists>src. propagated_action inst tsrc = (actionWrite, Some src))" for tsrc
    by (simp add: propagated_action_def split: option.split)
  then have "object_action lib c r f a inst = (actionNop, None) \<or> object_action lib c r f a inst = (actionRemove, None) \<or>
      (\<exists>src. object_action lib c r f a inst = (actionWrite, Some src))"
    by (simp add: object_action_def Let_def)
  then show ?thesis using that by blast
qed

lemma Reconcile_obj_eq:
  assumes "IsManagedNamespace c (nnm_namespace req)" "GetMode (oe_forest e) r \<noteq> Ignore" "\<forall>err. rd \<noteq> ReadError err"
    and "obj_ready lib r (oe_forest e) a (read_obj (oe_forest e) r req rd)"
  shows "\<exists>ws err inst' e'. Reconcile_obj lib c wr r req rd e = Some (ws, err, e') \<and>
    writes_for (object_action lib c r (oe_forest e) a (read_obj (oe_forest e) r req rd)) inst' ws \<and>
    (fst (object_action lib c r (oe_forest e) a (read_obj (oe_forest e) r req rd)) = actionNop \<longrightarrow> err = None) \<and>
    obj_frame lib a (oe_forest e) (oe_forest e') \<and>
    obj_namespace inst' = obj_namespace (read_obj (oe_forest e) r req rd) \<and> (obj_name inst' = obj_name (read_obj (oe_forest e) r req rd) \<and> obj_creationTimestamp inst' = obj_creationTimestamp (read_obj (oe_forest e) r req rd))"
proof -
  define inst where "inst = read_obj (oe_forest e) r req rd"
  obtain i1 e1 where s: "syncWithForest_obj lib c r inst e = Some (fst (object_action lib c r (oe_forest e) a inst),
      snd (object_action lib c r (oe_forest e) a inst), i1, e1)" "obj_frame lib a (oe_forest e) (oe_forest e1)"
      "obj_namespace i1 = obj_namespace inst" "(obj_name i1 = obj_name inst \<and> obj_creationTimestamp i1 = obj_creationTimestamp inst)"
    using syncWithForest_obj_eq [OF assms(4) [folded inst_def]] by blast
  have rec: "Reconcile_obj lib c wr r req rd e = operate wr r (fst (object_action lib c r (oe_forest e) a inst)) i1
      (snd (object_action lib c r (oe_forest e) a inst)) e1"
    using assms(1-3) s(1) by (cases rd) (simp_all add: Reconcile_obj_def inst_def read_obj_def)
  note rec = rec inst_def [symmetric]
  show ?thesis
  proof (cases rule: object_action_cases [of lib c r "oe_forest e" a inst])
    case 1
    then show ?thesis using s by (auto simp: rec operate_def writes_for_def)
  next
    case 2
    obtain err g where "deleteObject wr r i1 (oe_forest e1) = ([DeleteObj i1], err, g)" "obj_frame lib a (oe_forest e1) g"
      using deleteObject_eq by blast
    then show ?thesis using 2 s obj_frame_trans [OF s(2)] by (auto simp: rec operate_def writes_for_def)
  next
    case (3 src)
    obtain ws err g where "writeObject wr r i1 src (oe_forest e1) = (ws, err, g)" "obj_frame lib a (oe_forest e1) g" "ws \<noteq> []"
      "\<forall>w \<in> set ws. write_obj w = written_copy i1 src"
      "hd ws = (if obj_creationTimestamp i1 = 0 then CreateObj (written_copy i1 src) else UpdateObj (written_copy i1 src))"
      using writeObject_eq by metis
    then have "writes_for (object_action lib c r (oe_forest e) a inst) i1 ws" "Reconcile_obj lib c wr r req rd e =
        Some (ws, err, e1\<lparr>oe_forest := g, oe_events := oe_events e1 @ generateEvents (Some src) i1 actionWrite err\<rparr>)"
        "obj_frame lib a (oe_forest e) g"
      using 3 s obj_frame_trans [OF s(2)] by (simp_all add: rec operate_def writes_for_def list_all_iff)
    then show ?thesis using 3 s(3,4) by (auto simp: rec)
  qed
qed

section \<open>Stability of copies\<close>

text \<open>
  What the API server keeps of an object that is written: it sets the creation time and the resource
  version, and a status may appear.
\<close>

definition stored_as :: "Unstructured \<Rightarrow> Unstructured \<Rightarrow> bool" where
  "stored_as obj obj' \<longleftrightarrow> obj_gvk obj' = obj_gvk obj \<and> obj_name obj' = obj_name obj \<and> obj_namespace obj' = obj_namespace obj \<and>
     obj_labels obj' = obj_labels obj \<and> obj_annotations obj' = obj_annotations obj \<and>
     obj_finalizers obj' = obj_finalizers obj \<and> obj_deletionTimestamp obj' = obj_deletionTimestamp obj \<and>
     AList.delete ''status'' (obj_content obj') = AList.delete ''status'' (obj_content obj) \<and> obj_creationTimestamp obj' \<noteq> 0"

lemma filter_update_dropped:
  "(\<And>v. \<not> P (k, v)) \<Longrightarrow> filter P (AList.update k v m) = filter P m"
  by (induction m) auto

lemma inherited_is_HNC: "HasSuffix (metaPrefix LabelInheritedFrom) MetaGroup"
  by code_simp

lemma nonHNC_copy:
  "nonHNC (Some (AList.update LabelInheritedFrom v (nonHNC m))) = nonHNC m"
  by (simp add: nonHNC_def filter_update_dropped inherited_is_HNC)

lemma nonHNC_idem [simp]: "nonHNC (Some (nonHNC m)) = nonHNC m"
  by (simp add: nonHNC_def)

lemma map_equal_refl: "distinct_keys m \<Longrightarrow> map_equal m m"
  by (simp add: map_equal_iff)

definition obj_maps_ok :: "Unstructured \<Rightarrow> bool" where
  "obj_maps_ok obj \<longleftrightarrow> distinct_keys (nil_map (obj_labels obj)) \<and> distinct_keys (nil_map (obj_annotations obj)) \<and>
     distinct_keys (obj_content obj)"

lemma distinct_keys_filter: "distinct_keys m \<Longrightarrow> distinct_keys (filter P m)"
  by (rule distinct_map_filter)

lemma written_copy_up_to_date:
  assumes "stored_as (written_copy inst src) obj" "obj_maps_ok src"
  shows "up_to_date obj src"
proof -
  have "obj_labels obj = Some (AList.update LabelInheritedFrom (obj_namespace src) (nonHNC (obj_labels src)))"
    "obj_annotations obj = Some (nonHNC (obj_annotations src))"
    using assms(1) by (simp_all add: stored_as_def written_copy_def SetLabel_def canonical_def)
  moreover have "canonical obj = canonical src"
    using assms(1) calculation
    by (simp add: canonical_def stored_as_def written_copy_def SetLabel_def nonHNC_copy AList.delete_idem)
  moreover have "DeepEqual_obj (canonical src) (canonical src)"
    using assms(2)
    by (simp add: DeepEqual_obj_def DeepEqual_map_def canonical_def obj_maps_ok_def map_equal_refl gomap_simps
        distinct_keys_filter nonHNC_def)
  moreover have "obj_creationTimestamp obj \<noteq> 0" using assms(1) by (simp add: stored_as_def)
  ultimately show ?thesis
    by (simp add: up_to_date_def get_str_def update_conv')
qed

lemma unhalted_acyclic:
  assumes "wf_forest f" "registered f a" "GetHaltedRoot f (Some a) = Some ''''"
  shows "acyclic_ns f a"
proof -
  have "\<not> (\<exists>b. (a, b) \<in> (parent_rel f)\<^sup>* \<and> IsHalted f (Some b))"
  proof
    assume "\<exists>b. (a, b) \<in> (parent_rel f)\<^sup>* \<and> IsHalted f (Some b)"
    then obtain b xs where h: "GetHaltedRoot f (Some a) = Some (nm_of f b)" "chain f (xs @ [b])" "hd (xs @ [b]) = a"
      using GetHaltedRoot_found by blast
    then have "(a, b) \<in> (parent_rel f)\<^sup>*"
      using chain_rtrancl [of f a "tl (xs @ [b])" b] by (cases xs) auto
    then have "registered f b" by (rule registered_rtrancl [OF _ assms(1,2)])
    then have "nm_of f b \<noteq> ''''" by (rule registered_name [OF assms(1)])
    then show False using h(1) assms(3) by simp
  qed
  then show ?thesis
    using GetHaltedRoot_returns_iff [OF assms(1,2)] assms(3) by auto
qed

lemma above_proper:
  assumes "wf_forest f" "registered f a" "acyclic_ns f a"
  shows "a \<notin> set (above f (ns_parent (deref f a)))"
proof (cases "ns_parent (deref f a)")
  case (Some p)
  have "registered f p" using registered_parent [OF assms(1,2) Some] by simp
  then have "set (above f (Some p)) = {b. (p, b) \<in> (parent_rel f)\<^sup>*}"
    using set_ancestry_ptrs [OF assms(1)] by (simp add: above_def)
  moreover have "\<not> in_cycle f a" by (rule acyclic_ns_self [OF assms(3)])
  ultimately show ?thesis
    using Some by (auto simp: in_cycle_def trancl_parent)
qed (simp add: above_def)

lemma same_types_mode:
  assumes "same_types f g" "r < length (f_types f)"
  shows "GetGVK g r = GetGVK f r" "GetMode g r = GetMode f r"
proof -
  have "(ts_GVK (f_types g ! r), ts_Mode (f_types g ! r)) = (ts_GVK (f_types f ! r), ts_Mode (f_types f ! r))"
    using arg_cong [OF assms(1) [unfolded same_types_def], of "\<lambda>xs. xs ! r"] assms(2) same_types_length [OF assms(1)] by simp
  then show "GetGVK g r = GetGVK f r" "GetMode g r = GetMode f r"
    using assms(2) same_types_length [OF assms(1)] by (simp_all add: GetGVK_def GetMode_def ts_deref_def)
qed

lemma map_filter_cong: "(\<And>x. x \<in> set xs \<Longrightarrow> f x = g x) \<Longrightarrow> List.map_filter f xs = List.map_filter g xs"
  by (induction xs) (auto simp: map_filter_simps split: option.split)

lemma top_source_Some:
  assumes "top_source lib c r f a nm = Some src"
  shows "\<exists>b \<in> set (above f (ns_parent (deref f a))). GetSourceObject f b (GetGVK f r) nm = Some src"
    "may_propagate lib c (GetGVK f r) (GetMode f r) (GetLabels f a) src"
proof -
  have "src \<in> set (List.map_filter (\<lambda>a. GetSourceObject f a (GetGVK f r) nm) (above f (ns_parent (deref f a))))"
    and mp: "may_propagate lib c (GetGVK f r) (GetMode f r) (GetLabels f a) src"
    using assms unfolding top_source_def by (auto simp: find_Some_iff)
  then show "\<exists>b \<in> set (above f (ns_parent (deref f a))). GetSourceObject f b (GetGVK f r) nm = Some src"
    by (auto simp: List.map_filter_def)
  show "may_propagate lib c (GetGVK f r) (GetMode f r) (GetLabels f a) src" by (rule mp)
qed

lemma top_source_frame:
  assumes "obj_frame lib a f g" "obj_ready lib r f a inst" "GetHaltedRoot f (Some a) = Some ''''"
  shows "top_source lib c r g a nm = top_source lib c r f a nm"
proof -
  have wf: "wf_forest f" "registered f a" using assms(2) by (simp_all add: obj_ready_def forest_inv_def)
  have sh: "same_shape f g" using assms(1) by (simp add: obj_frame_def calm_quiet quiet_shape)
  have tp: "same_types f g" "r < length (f_types f)" using assms(1,2) by (simp_all add: obj_frame_def obj_ready_def)
  note gm = same_types_mode [OF tp]
  have p: "ns_parent (deref g a) = ns_parent (deref f a)" using sh by (simp add: same_shape_def)
  have ab: "above g q = above f q" for q
    unfolding above_def by (cases q) (simp_all add: same_shape_ptrs [OF sh])
  have no: "a \<notin> set (above f (ns_parent (deref f a)))"
    by (rule above_proper [OF wf unhalted_acyclic [OF wf assms(3)]])
  have "GetSourceObject g b gvk nm = GetSourceObject f b gvk nm" if "b \<in> set (above f (ns_parent (deref f a)))" for b gvk
    using that no assms(1) by (auto simp: GetSourceObject_def objs_of_def obj_frame_def)
  then have "List.map_filter (\<lambda>b. GetSourceObject g b gvk nm) (above f (ns_parent (deref f a))) =
      List.map_filter (\<lambda>b. GetSourceObject f b gvk nm) (above f (ns_parent (deref f a)))" for gvk
    by (intro map_filter_cong) blast
  moreover have "GetLabels g a = GetLabels f a"
    using assms(1) by (simp add: GetLabels_def obj_frame_def)
  ultimately show ?thesis
    by (simp add: top_source_def gm p ab)
qed

lemma selector_is_HNC: "HasSuffix (metaPrefix AnnotationTreeSelector) MetaGroup"
  by code_simp

lemma copy_selector: "obj_annotations obj = Some (nonHNC m) \<Longrightarrow> GetTreeSelector lib obj \<noteq> None"
proof -
  assume "obj_annotations obj = Some (nonHNC m)"
  moreover have "map_of (nonHNC m) AnnotationTreeSelector = None"
    by (auto simp: nonHNC_def map_of_eq_None_iff selector_is_HNC)
  ultimately show ?thesis
    by (simp add: GetTreeSelector_def GetTreeSelectorAnnotation_def annotation_def get_str_def del: map_of_eq_None_iff)
qed

lemma action_write_only:
  assumes "object_action lib c r f a inst = (actionWrite, Some src)"
  shows "top_source lib c r f a (obj_name inst) = Some src" "GetHaltedRoot f (Some a) = Some ''''"
    "ns_exists (deref f a)"
  using assms by (auto simp: object_action_def propagated_action_def Let_def split: if_splits option.splits)

lemma Reconcile_obj_converges:
  assumes "IsManagedNamespace c (nnm_namespace req)" "GetMode (oe_forest e) r \<noteq> Ignore" "\<forall>err. rd \<noteq> ReadError err"
    and "obj_ready lib r (oe_forest e) a (read_obj (oe_forest e) r req rd)"
    and "Reconcile_obj lib c wr r req rd e = Some (ws, err, e')" "last ws = CreateObj obj \<or> last ws = UpdateObj obj" "ws \<noteq> []"
    and "stored_as obj obj'" "\<And>src. top_source lib c r (oe_forest e) a (nnm_name req) = Some src \<Longrightarrow> obj_maps_ok src"
    and "obj_name (read_obj (oe_forest e) r req rd) = nnm_name req"
  shows "\<exists>e''. Reconcile_obj lib c wr r req (Found obj') e' = Some ([], None, e'')"
proof -
  let ?f = "oe_forest e" and ?g = "oe_forest e'"
  define inst where "inst = read_obj ?f r req rd"
  obtain inst' where w: "writes_for (object_action lib c r ?f a inst) inst' ws" "obj_frame lib a ?f ?g"
    "obj_namespace inst' = obj_namespace inst" "(obj_name inst' = obj_name inst \<and> obj_creationTimestamp inst' = obj_creationTimestamp inst)"
    using Reconcile_obj_eq [OF assms(1-4), of wr] assms(5) by (auto simp: inst_def)
  obtain src where src: "object_action lib c r ?f a inst = (actionWrite, Some src)"
    using w(1) assms(6,7) by (cases rule: object_action_cases [of lib c r ?f a inst]) (auto simp: writes_for_def)
  have last: "write_obj (last ws) = written_copy inst' src"
    using w(1) assms(7) last_in_set [OF assms(7)] by (auto simp: src writes_for_def list_all_iff)
  have "obj = written_copy inst' src" using assms(6)
  proof
    assume "last ws = CreateObj obj" then show ?thesis using last by simp
  next
    assume "last ws = UpdateObj obj" then show ?thesis using last by simp
  qed
  note st = assms(8) [unfolded this]
  have nm: "obj_name inst = nnm_name req" using assms(10) by (simp add: inst_def)
  note aw = action_write_only [OF src]
  have rd: "obj_ready lib r ?f a inst" using assms(4) by (simp add: inst_def)
  then have rdg: "obj_ready lib r ?g a inst" by (rule obj_ready_frame [OF _ w(2)])
  have "obj_name src = obj_name inst"
    using top_source_Some(1) [OF aw(1)] rd objs_of_ok(2) [of lib ?f] by (auto simp: obj_ready_def GetSourceObject_def)
  then have o: "obj_namespace obj' = obj_namespace inst" "obj_name obj' = obj_name inst"
    "obj_annotations obj' = Some (nonHNC (obj_annotations src))" "hasPropagatedLabel obj'"
    "obj_creationTimestamp obj' \<noteq> 0" "obj_deletionTimestamp obj' = 0"
    using st w(3,4) hasPropagatedLabel_SetLabel [of "(canonical src)\<lparr>obj_namespace := obj_namespace inst',
        obj_resourceVersion := obj_resourceVersion inst'\<rparr>" "obj_namespace src"]
    by (simp_all add: stored_as_def written_copy_def canonical_def hasPropagatedLabel_def) (simp_all add: SetLabel_def)
  then have rd': "obj_ready lib r ?g a (read_obj ?g r req (Found obj'))"
    using rdg copy_selector [OF o(3), of lib] by (simp add: obj_ready_def read_obj_def)
  have calm: "calm ?f ?g" and md: "GetMode ?g r = GetMode ?f r"
    using w(2) rd same_types_mode by (auto simp: obj_frame_def obj_ready_def)
  have "up_to_date obj' src"
    by (rule written_copy_up_to_date [OF st]) (use assms(9) aw(1) nm in simp)
  moreover have "top_source lib c r ?g a (obj_name obj') = Some src"
    using top_source_frame [OF w(2) rd aw(2)] aw(1) o(2) by simp
  ultimately have "object_action lib c r ?g a (read_obj ?g r req (Found obj')) = (actionNop, None)"
    using o by (simp add: object_action_def read_obj_def propagated_action_def Let_def)
  moreover have "GetMode ?g r \<noteq> Ignore" using md assms(2) by simp
  note Reconcile_obj_eq [OF assms(1) this _ rd', of wr]
  ultimately show ?thesis by (auto simp: writes_for_def)
qed

end
