(* ===== verification/Propagation_Properties.thy ===== *)
theory Propagation_Properties
  imports Hierarchy_Properties Propagation
begin

text \<open>
  The properties of the object reconciler: the decision it takes for an object, what it may write and
  delete, that it creates the missing copies, that it settles, and what its selectors accept.
\<close>

section \<open>Example\<close>

text \<open>A parser that knows the empty selector only, and a source in \<open>a\<close> of the line \<open>a\<close>, \<open>b\<close>, \<open>c\<close>.\<close>

definition ex_lib :: SelectorLib where
  "ex_lib = \<lparr>sl_ParseToLabelSelector = (\<lambda>s. if s = '''' then Inr \<lparr>ls_matchLabels = [], ls_matchExpressions = []\<rparr>
       else Inl ''couldn't parse the selector string''),
     sl_LabelSelectorAsSelector = (\<lambda>ls. Inr \<lparr>sel_Empty = (ls_matchLabels ls = [] \<and> ls_matchExpressions ls = []),
       sel_Matches = (\<lambda>labels. list_all (\<lambda>(k, v). map_of labels k = Some v) (ls_matchLabels ls))\<rparr>),
     sl_IsDNS1123Label = (\<lambda>s. if s = '''' then [''a lowercase RFC 1123 label must not be empty''] else [])\<rparr>"

definition ex_gvk :: GroupVersionKind where
  "ex_gvk = \<lparr>gvk_group = ''rbac.authorization.k8s.io'', gvk_version = ''v1'', gvk_kind = ''RoleBinding''\<rparr>"

definition ex_req :: NamespacedName where
  "ex_req = \<lparr>nnm_namespace = ''c'', nnm_name = ''admins''\<rparr>"

definition ex_source :: Unstructured where
  "ex_source = (source_ref ex_gvk \<lparr>nnm_namespace = ''a'', nnm_name = ''admins''\<rparr>)\<lparr>obj_creationTimestamp := 1,
     obj_content := [(''roleRef'', JStr ''admin'')]\<rparr>"

definition ex_objects :: Forest where
  "ex_objects = SetSourceObject 0 ex_source (AddTypeSyncer
     \<lparr>ts_GVK = ex_gvk, ts_Mode = Propagate, ts_propagatedObjects = []\<rparr> ex_line)"

definition ex_obj_env :: ObjEnv where
  "ex_obj_env = \<lparr>oe_forest = ex_objects, oe_affected = [], oe_events = []\<rparr>"

abbreviation ex_missing :: Unstructured where
  "ex_missing \<equiv> source_ref ex_gvk ex_req"

lemma ex_objects_inv: "forest_inv ex_objects"
proof -
  have w: "wf_forest ex_objects" "parents_exist ex_objects" by code_simp+
  have "acyclic_forest ex_objects" by (rule acyclic_forest_check [OF w(1)]) code_simp
  then show ?thesis using w acyclic_cycles_halted by (simp add: forest_inv_def)
qed

lemma ex_objects_ready: "obj_ready ex_lib 0 ex_objects 2 ex_missing"
proof -
  have "sources_ok ex_lib ex_objects" by code_simp
  moreover have "GetTreeSelector ex_lib ex_missing \<noteq> None" by code_simp
  moreover have "types_ok ex_objects" "0 < length (f_types ex_objects)" "registered ex_objects 2"
    "obj_namespace ex_missing = nm_of ex_objects 2" "obj_name ex_missing \<noteq> ''''" by code_simp+
  ultimately show ?thesis using ex_objects_inv by (simp add: obj_ready_def)
qed

section \<open>The decision\<close>

text \<open>
  C4: synchronizing an object with the forest returns and decides as the specification
  \<open>object_action\<close> says. Nothing happens in a namespace that is being deleted, does not exist or has a
  halted ancestor, nor to an object whose source was just deleted. Otherwise an object that is missing, has
  the inherited-from label, or hides a source that propagates to it is a copy: it is removed when no
  ancestor has a source that may propagate to it, kept when it equals the topmost such source, and else
  written from it. Every other object is left alone. The tree, the type syncers and all labels stay as they
  were, and so do the sources of every other namespace.
\<close>

theorem syncWithForest_obj_decides:
  assumes "obj_ready lib r (oe_forest e) a inst"
  shows "\<exists>act src inst' e'. syncWithForest_obj lib c r inst e = Some (act, src, inst', e') \<and>
    (act, src) = object_action lib c r (oe_forest e) a inst \<and> obj_frame lib a (oe_forest e) (oe_forest e')"
  using syncWithForest_obj_eq [OF assms, of c] by fastforce

theorem syncWithForest_obj_decides_witness:
  "\<exists>src inst' e'. syncWithForest_obj ex_lib ex_config 0 ex_missing ex_obj_env = Some (actionWrite, Some src, inst', e') \<and>
     obj_namespace src = ''a''"
proof -
  have f: "oe_forest ex_obj_env = ex_objects" by code_simp
  have "object_action ex_lib ex_config 0 ex_objects 2 ex_missing = (actionWrite, Some ex_source)" by code_simp
  then have "\<exists>inst' e'. syncWithForest_obj ex_lib ex_config 0 ex_missing ex_obj_env = Some (actionWrite, Some ex_source, inst', e')"
    using syncWithForest_obj_decides [of ex_lib 0 ex_obj_env 2 ex_missing ex_config, unfolded f, OF ex_objects_ready]
    by auto
  moreover have "obj_namespace ex_source = ''a''" by code_simp
  ultimately show ?thesis by blast
qed

text \<open>
  C9: the reconciler settles. When a reconciliation has ended with the creation or the update of a copy and
  the API server has stored it, reconciling the stored object writes nothing, so a copy is not written
  again and again.
\<close>

theorem Reconcile_obj_settles:
  assumes "IsManagedNamespace c (nnm_namespace req)" "GetMode (oe_forest e) r \<noteq> Ignore" "\<forall>err. rd \<noteq> ReadError err"
    and "obj_ready lib r (oe_forest e) a (read_obj (oe_forest e) r req rd)"
    and "obj_name (read_obj (oe_forest e) r req rd) = nnm_name req"
    and "Reconcile_obj lib c wr r req rd e = Some (ws, err, e')" "ws \<noteq> []" "last ws = CreateObj obj \<or> last ws = UpdateObj obj"
    and "stored_as obj obj'" "\<forall>src. top_source lib c r (oe_forest e) a (nnm_name req) = Some src \<longrightarrow> obj_maps_ok src"
  shows "\<exists>e''. Reconcile_obj lib c wr r req (Found obj') e' = Some ([], None, e'')"
  using Reconcile_obj_converges [OF assms(1-4,6,8,7,9) _ assms(5)] assms(10) by blast

definition ex_written :: Unstructured where
  "ex_written = written_copy ex_missing ex_source"

definition ex_reconciled :: "(ObjWrite list \<times> APIError option \<times> ObjEnv) option" where
  "ex_reconciled = Reconcile_obj ex_lib ex_config (\<lambda>w. None) 0 ex_req NotFound ex_obj_env"

lemma Some_triple: "x \<noteq> None \<Longrightarrow> fst (the x) = a \<Longrightarrow> fst (snd (the x)) = b \<Longrightarrow> x = Some (a, b, snd (snd (the x)))"
  by (cases x) auto

lemma ex_reconciled_eq:
  "Reconcile_obj ex_lib ex_config (\<lambda>w. None) 0 ex_req NotFound ex_obj_env =
     Some ([CreateObj ex_written], None, snd (snd (the ex_reconciled)))"
  unfolding ex_reconciled_def [symmetric] by (rule Some_triple; code_simp)

theorem Reconcile_obj_settles_witness:
  "\<exists>e''. Reconcile_obj ex_lib ex_config (\<lambda>w. None) 0 ex_req (Found (ex_written\<lparr>obj_creationTimestamp := 9\<rparr>))
     (snd (snd (the ex_reconciled))) = Some ([], None, e'')"
proof (rule Reconcile_obj_settles [OF _ _ _ _ _ ex_reconciled_eq, where a = 2 and obj = ex_written])
  have "top_source ex_lib ex_config 0 (oe_forest ex_obj_env) 2 (nnm_name ex_req) = Some ex_source" "obj_maps_ok ex_source"
    by code_simp+
  then show "\<forall>src. top_source ex_lib ex_config 0 (oe_forest ex_obj_env) 2 (nnm_name ex_req) = Some src \<longrightarrow> obj_maps_ok src"
    by simp
  have "oe_forest ex_obj_env = ex_objects" "read_obj ex_objects 0 ex_req NotFound = ex_missing" by code_simp+
  then show "obj_ready ex_lib 0 (oe_forest ex_obj_env) 2 (read_obj (oe_forest ex_obj_env) 0 ex_req NotFound)"
    using ex_objects_ready by simp
  show "IsManagedNamespace ex_config (nnm_namespace ex_req)" "GetMode (oe_forest ex_obj_env) 0 \<noteq> Ignore"
    "obj_name (read_obj (oe_forest ex_obj_env) 0 ex_req NotFound) = nnm_name ex_req"
    "stored_as ex_written (ex_written\<lparr>obj_creationTimestamp := 9\<rparr>)" by code_simp+
qed simp_all

section \<open>What is written\<close>






text \<open>
  C8: propagation reaches every descendant. When an object is missing from a managed, existing namespace
  without a halted ancestor and some proper ancestor has a source of that name that may propagate to
  it, reconciling the missing object creates, in that namespace, the copy of a source: of the first one, from
  the root down, that may propagate.
\<close>

theorem Reconcile_obj_propagates:
  assumes "IsManagedNamespace c (nnm_namespace req)" "GetMode (oe_forest e) r \<noteq> Ignore"
    and "obj_ready lib r (oe_forest e) a (source_ref (GetGVK (oe_forest e) r) req)"
    and "ns_exists (deref (oe_forest e) a)" "GetHaltedRoot (oe_forest e) (Some a) = Some ''''"
    and "\<not> HasSourceObject (oe_forest e) a (GetGVK (oe_forest e) r) (nnm_name req)"
    and "b \<in> set (above (oe_forest e) (ns_parent (deref (oe_forest e) a)))"
      "GetSourceObject (oe_forest e) b (GetGVK (oe_forest e) r) (nnm_name req) = Some s"
      "may_propagate lib c (GetGVK (oe_forest e) r) (GetMode (oe_forest e) r) (GetLabels (oe_forest e) a) s"
  shows "\<exists>src inst' ws err e'. top_source lib c r (oe_forest e) a (nnm_name req) = Some src \<and>
    Reconcile_obj lib c wr r req NotFound e = Some (CreateObj (written_copy inst' src) # ws, err, e') \<and>
    obj_namespace inst' = nnm_namespace req"
proof -
  let ?i = "source_ref (GetGVK (oe_forest e) r) req"
  have rd: "read_obj (oe_forest e) r req NotFound = ?i" by (simp add: read_obj_def)
  have "s \<in> set (List.map_filter (\<lambda>a. GetSourceObject (oe_forest e) a (GetGVK (oe_forest e) r) (nnm_name req))
      (above (oe_forest e) (ns_parent (deref (oe_forest e) a))))"
    using assms(7,8) by (force simp: List.map_filter_def)
  then obtain src where src: "top_source lib c r (oe_forest e) a (nnm_name req) = Some src"
    unfolding top_source_def using assms(9) by (meson find_None_iff not_None_eq)
  have ready: "obj_creationTimestamp ?i = 0" "obj_deletionTimestamp ?i = 0" "obj_name ?i = nnm_name req"
    "obj_namespace ?i = nnm_namespace req" by (simp_all add: source_ref_def)
  have act: "object_action lib c r (oe_forest e) a ?i = (actionWrite, Some src)"
    using assms(4-6) src ready by (simp add: object_action_def propagated_action_def up_to_date_def)
  have "\<exists>ws err inst' e'. Reconcile_obj lib c wr r req NotFound e = Some (ws, err, e') \<and>
      writes_for (actionWrite, Some src) inst' ws \<and> obj_creationTimestamp inst' = 0 \<and> obj_namespace inst' = nnm_namespace req"
    using Reconcile_obj_eq [OF assms(1,2), of NotFound lib a wr, unfolded rd act ready] assms(3) by blast
  then obtain ws err inst' e' where "Reconcile_obj lib c wr r req NotFound e = Some (ws, err, e')"
    "writes_for (actionWrite, Some src) inst' ws" "obj_creationTimestamp inst' = 0" "obj_namespace inst' = nnm_namespace req"
    by blast
  then show ?thesis using src by (cases ws) (auto simp: writes_for_def)
qed

theorem Reconcile_obj_propagates_witness:
  "\<exists>src inst' ws err e'. top_source ex_lib ex_config 0 ex_objects 2 ''admins'' = Some src \<and>
     Reconcile_obj ex_lib ex_config (\<lambda>w. None) 0 ex_req NotFound ex_obj_env = Some (CreateObj (written_copy inst' src) # ws, err, e') \<and>
     obj_namespace inst' = ''c''"
proof -
  have f: "oe_forest ex_obj_env = ex_objects" "GetGVK ex_objects 0 = ex_gvk" "nnm_name ex_req = ''admins''"
    "nnm_namespace ex_req = ''c''" by code_simp+
  have h: "IsManagedNamespace ex_config ''c''" "GetMode ex_objects 0 \<noteq> Ignore" "ns_exists (deref ex_objects 2)"
    "GetHaltedRoot ex_objects (Some 2) = Some ''''" "\<not> HasSourceObject ex_objects 2 ex_gvk ''admins''"
    "0 \<in> set (above ex_objects (ns_parent (deref ex_objects 2)))" "GetSourceObject ex_objects 0 ex_gvk ''admins'' = Some ex_source"
    "may_propagate ex_lib ex_config ex_gvk (GetMode ex_objects 0) (GetLabels ex_objects 2) ex_source" by code_simp+
  show ?thesis
    by (rule Reconcile_obj_propagates [of ex_config ex_req ex_obj_env 0 ex_lib 2 0 ex_source "\<lambda>w. None", unfolded f,
          OF h(1,2) ex_objects_ready h(3-8)])
qed

section \<open>Selectors\<close>

text \<open>
  C38: \<^verbatim>\<open>GetTreeSelector\<close> panics, with an index out of range, exactly when the annotation
  is set and, of its segments between commas, one is blank and all before it are valid. So the
  annotation \<^verbatim>\<open>"a,"\<close> brings the caller down, while every other text is accepted or rejected with
  an error.
\<close>

theorem GetTreeSelector_panics:
  "GetTreeSelector lib inst = None \<longleftrightarrow> GetTreeSelectorAnnotation inst \<noteq> '''' \<and>
     (\<exists>pre seg post. Split (GetTreeSelectorAnnotation inst) (CHR '','') = pre @ seg # post \<and>
        list_all (\<lambda>s. validateTreeSelectorSegment lib (TrimSpace s) = Some None) pre \<and> list_all is_space seg)"
  using GetTreeSelector_panic_iff [of lib inst] by (simp add: valid_segment_def [abs_def])



end
