(* ===== verification/HNCConfig.thy ===== *)
theory HNCConfig
  imports ObjectsReconciler
begin

text \<open>
  The configuration reconciler, \<^verbatim>\<open>internal/hncconfig/reconciler.go\<close>, and the mapper
  \<^verbatim>\<open>internal/apimeta/mapper.go\<close>.

  The mapper of the API machinery is the record \<open>RESTMapper\<close>. The environment holds that of the object
  reconcilers and the two maps that the reconciler rebuilds each time. A map is ranged over in the order
  of its list. \<open>lst\<close> lists the objects of a kind in a namespace, and \<open>setup\<close> is the error of
  starting a reconciler.
\<close>

record GroupResource =
  gr_group :: string
  gr_resource :: string

definition show_gr :: "GroupResource \<Rightarrow> string" where
  "show_gr gr = (if gr_group gr = '''' then gr_resource gr else gr_resource gr @ ''.'' @ gr_group gr)"

fun show_mode :: "SynchronizationMode \<Rightarrow> string" where
  "show_mode Propagate = ''Propagate''" | "show_mode Ignore = ''Ignore''" | "show_mode Remove = ''Remove''"
| "show_mode AllowPropagate = ''AllowPropagate''" | "show_mode UnsetMode = ''''" | "show_mode (OtherMode m) = m"

record ResourceSpec =
  rs_group :: string
  rs_resource :: string
  rs_mode :: SynchronizationMode

record ResourceStatus =
  rst_group :: string
  rst_version :: string
  rst_resource :: string
  rst_mode :: SynchronizationMode
  rst_numPropagated :: "nat option"
  rst_numSource :: "nat option"

record HNCConfiguration =
  cfg_name :: string
  cfg_creationTimestamp :: Time
  cfg_resources :: "ResourceSpec list"
  cfg_status :: "ResourceStatus list"
  cfg_conditions :: "Condition list"

definition HNCConfigSingleton :: string where "HNCConfigSingleton = ''config''"
definition RBACGroup :: string where "RBACGroup = ''rbac.authorization.k8s.io''"

definition EnforcedTypes :: "ResourceSpec list" where
  "EnforcedTypes = [\<lparr>rs_group = RBACGroup, rs_resource = ''roles'', rs_mode = Propagate\<rparr>,
     \<lparr>rs_group = RBACGroup, rs_resource = ''rolebindings'', rs_mode = Propagate\<rparr>]"

definition IsEnforcedType :: "ResourceSpec \<Rightarrow> bool" where
  "IsEnforcedType grm = list_ex (\<lambda>tp. rs_group tp = rs_group grm \<and> rs_resource tp = rs_resource grm) EnforcedTypes"

definition ConditionBadTypeConfiguration :: string where "ConditionBadTypeConfiguration = ''BadConfiguration''"
definition ConditionOutOfSync :: string where "ConditionOutOfSync = ''OutOfSync''"
definition ConditionNamespace :: string where "ConditionNamespace = ''NamespaceCondition''"
definition ReasonMultipleConfigsForType :: string where "ReasonMultipleConfigsForType = ''MultipleConfigurationsForType''"
definition ReasonResourceNotFound :: string where "ReasonResourceNotFound = ''ResourceNotFound''"
definition ReasonResourceNotNamespaced :: string where "ReasonResourceNotNamespaced = ''ResourceNotNamespaced''"
definition ReasonUnknown :: string where "ReasonUnknown = ''Unknown''"

section \<open>The mapper\<close>

datatype MapError = NoMatchError string | NotNamespacedError GroupResource | OtherMapError string

fun map_err_text :: "MapError \<Rightarrow> string" where
  "map_err_text (NoMatchError m) = m"
| "map_err_text (NotNamespacedError gr) = ''resource '' @ quote (show_gr gr) @ '' is not namespaced''"
| "map_err_text (OtherMapError m) = m"

record RESTMapper =
  rm_KindsFor :: "GroupResource \<Rightarrow> MapError + GroupVersionKind list"
  rm_Namespaced :: "GroupKind \<Rightarrow> string + bool"

definition NamespacedKindFor :: "RESTMapper \<Rightarrow> GroupResource \<Rightarrow> MapError + GroupVersionKind" where
  "NamespacedKindFor m gr =
     (case rm_KindsFor m gr of
        Inl err \<Rightarrow> Inl err
      | Inr [] \<Rightarrow> Inl (NoMatchError (''no matches for '' @ show_gr gr))
      | Inr (gvk # kinds) \<Rightarrow>
          (case rm_Namespaced m (GroupKind_of gvk) of
             Inl err \<Rightarrow> Inl (OtherMapError (''while attempting to determine if kind is namespaced: '' @ err))
           | Inr namespaced \<Rightarrow> if \<not> namespaced then Inl (NotNamespacedError gr) else Inr gvk))"

fun reasonForGVKError :: "MapError \<Rightarrow> string" where
  "reasonForGVKError (NoMatchError m) = ReasonResourceNotFound"
| "reasonForGVKError (NotNamespacedError gr) = ReasonResourceNotNamespaced"
| "reasonForGVKError (OtherMapError m) = ReasonUnknown"

definition blank_gvk :: GroupVersionKind where
  "blank_gvk = \<lparr>gvk_group = '''', gvk_version = '''', gvk_kind = ''''\<rparr>"

definition newGVKChecker :: "RESTMapper \<Rightarrow> GroupVersionKind list" where
  "newGVKChecker m = map (\<lambda>t. case NamespacedKindFor m \<lparr>gr_group = rs_group t, gr_resource = rs_resource t\<rparr> of
     Inl err \<Rightarrow> blank_gvk | Inr gvk \<Rightarrow> gvk) EnforcedTypes"

definition isEnforced :: "GroupVersionKind list \<Rightarrow> GroupVersionKind \<Rightarrow> bool" where
  "isEnforced enforcedGVKs gvk = list_ex (\<lambda>e. gvk = e) enforcedGVKs"

section \<open>Types\<close>

record ConfigEnv =
  ce_obj :: ObjEnv
  ce_activeGVKMode :: "(GroupResource, GroupVersionKind \<times> SynchronizationMode) gomap"
  ce_activeGR :: "(GroupVersionKind, GroupResource) gomap"

definition writeCondition :: "Time \<Rightarrow> string \<Rightarrow> string \<Rightarrow> string \<Rightarrow> HNCConfiguration \<Rightarrow> HNCConfiguration" where
  "writeCondition now tp reason msg inst = inst\<lparr>cfg_conditions := SetStatusCondition now (cfg_conditions inst)
     \<lparr>cond_type = tp, cond_status = True, cond_lastTransitionTime = 0, cond_reason = reason, cond_message = msg\<rparr>\<rparr>"

definition activate :: "GroupResource \<Rightarrow> GroupVersionKind \<Rightarrow> SynchronizationMode \<Rightarrow> ConfigEnv \<Rightarrow> ConfigEnv" where
  "activate gr gvk mode e = e\<lparr>ce_activeGVKMode := AList.update gr (gvk, mode) (ce_activeGVKMode e),
     ce_activeGR := AList.update gvk gr (ce_activeGR e)\<rparr>"

fun ensureEnforced_loop ::
  "Time \<Rightarrow> RESTMapper \<Rightarrow> ResourceSpec list \<Rightarrow> HNCConfiguration \<Rightarrow> ConfigEnv \<Rightarrow> MapError option \<times> HNCConfiguration \<times> ConfigEnv" where
  "ensureEnforced_loop now m [] inst e = (None, inst, e)"
| "ensureEnforced_loop now m (t # ts) inst e =
     (let gr = \<lparr>gr_group = rs_group t, gr_resource = rs_resource t\<rparr> in
      case NamespacedKindFor m gr of
        Inl err \<Rightarrow> (Some err, writeCondition now ConditionBadTypeConfiguration (reasonForGVKError err) (map_err_text err) inst, e)
      | Inr gvk \<Rightarrow> ensureEnforced_loop now m ts inst (activate gr gvk (rs_mode t) e))"

definition ensureEnforcedTypes ::
  "Time \<Rightarrow> RESTMapper \<Rightarrow> HNCConfiguration \<Rightarrow> ConfigEnv \<Rightarrow> MapError option \<times> HNCConfiguration \<times> ConfigEnv" where
  "ensureEnforcedTypes now m inst e = ensureEnforced_loop now m EnforcedTypes inst e"

fun configTypes_loop ::
  "Time \<Rightarrow> RESTMapper \<Rightarrow> ResourceSpec list \<Rightarrow> HNCConfiguration \<Rightarrow> ConfigEnv \<Rightarrow> HNCConfiguration \<times> ConfigEnv" where
  "configTypes_loop now m [] inst e = (inst, e)"
| "configTypes_loop now m (rsc # rscs) inst e =
     (let gr = \<lparr>gr_group = rs_group rsc, gr_resource = rs_resource rsc\<rparr> in
      case NamespacedKindFor m gr of
        Inl err \<Rightarrow> configTypes_loop now m rscs
          (writeCondition now ConditionBadTypeConfiguration (reasonForGVKError err) (map_err_text err) inst) e
      | Inr gvk \<Rightarrow>
          (case map_of (ce_activeGR e) gvk of
             Some firstGR \<Rightarrow>
               (let msg = (if isEnforced (newGVKChecker m) gvk
                      then ''The sync mode for '' @ quote (show_gr gr) @ '' is enforced by HNC as '' @
                        quote (show_mode Propagate) @ '' and cannot be overridden''
                      else ''Multiple sync mode settings found for '' @ quote (show_gr gr) @ ''; all but one ('' @
                        quote (case map_of (ce_activeGVKMode e) firstGR of None \<Rightarrow> '''' | Some (g, md) \<Rightarrow> show_mode md) @
                        '') will be ignored'')
                in configTypes_loop now m rscs
                     (writeCondition now ConditionBadTypeConfiguration ReasonMultipleConfigsForType msg inst) e)
           | None \<Rightarrow> configTypes_loop now m rscs inst (activate gr gvk (rs_mode rsc) e)))"

definition reconcileConfigTypes :: "Time \<Rightarrow> RESTMapper \<Rightarrow> HNCConfiguration \<Rightarrow> ConfigEnv \<Rightarrow> HNCConfiguration \<times> ConfigEnv" where
  "reconcileConfigTypes now m inst e = configTypes_loop now m (cfg_resources inst) inst e"

definition reconcileTypes ::
  "Time \<Rightarrow> RESTMapper \<Rightarrow> HNCConfiguration \<Rightarrow> ConfigEnv \<Rightarrow> MapError option \<times> HNCConfiguration \<times> ConfigEnv" where
  "reconcileTypes now m inst e =
     (case ensureEnforcedTypes now m inst (e\<lparr>ce_activeGVKMode := [], ce_activeGR := []\<rparr>) of
        (Some err, inst, e) \<Rightarrow> (Some err, inst, e)
      | (None, inst, e) \<Rightarrow> (case reconcileConfigTypes now m inst e of (inst, e) \<Rightarrow> (None, inst, e)))"

section \<open>Webhook rules\<close>

record RuleWithOperations =
  rule_APIGroups :: "string list"
  rule_Resources :: "string list"
  rule_APIVersions :: "string list"
  rule_Operations :: "Operation list"

definition objectWebhookRules ::
  "(GroupResource, GroupVersionKind \<times> SynchronizationMode) gomap \<Rightarrow> RuleWithOperations list" where
  "objectWebhookRules mode =
     (let g2r = fold (\<lambda>(gr, gm) g2r. AList.update (gr_group gr)
            ((case map_of g2r (gr_group gr) of None \<Rightarrow> [] | Some rs \<Rightarrow> rs) @ [gr_resource gr]) g2r) mode []
      in map (\<lambda>(g, r). \<lparr>rule_APIGroups = [g], rule_Resources = r, rule_APIVersions = [''*''],
           rule_Operations = [Create, Update, Delete]\<rparr>) g2r)"

text \<open>A validating webhook configuration is the list of its webhooks: the name and the rules.\<close>

type_synonym VWC = "(string \<times> RuleWithOperations list) list"

fun set_rules :: "string \<Rightarrow> RuleWithOperations list \<Rightarrow> VWC \<Rightarrow> VWC option" where
  "set_rules nm rules [] = None"
| "set_rules nm rules ((n, rs) # whs) =
     (if n = nm then Some ((n, rules) # whs) else map_option (\<lambda>w. (n, rs) # w) (set_rules nm rules whs))"

definition ObjectsWebhookName :: string where "ObjectsWebhookName = ''objects.hnc.x-k8s.io''"
definition ValidatingWebhookConfigurationName :: string where
  "ValidatingWebhookConfigurationName = ''hnc-validating-webhook-configuration''"

definition syncObjectWebhookConfigs ::
  "VWC read \<Rightarrow> (VWC \<Rightarrow> string option) \<Rightarrow> ConfigEnv \<Rightarrow> VWC list \<times> string option" where
  "syncObjectWebhookConfigs rd patch e =
     (case rd of
        ReadError err \<Rightarrow> ([], Some err)
      | NotFound \<Rightarrow> ([], Some ''not found'')
      | Found vwc \<Rightarrow>
          (case set_rules ObjectsWebhookName (objectWebhookRules (ce_activeGVKMode e)) vwc of
             Some vwc \<Rightarrow> ([vwc], patch vwc)
           | None \<Rightarrow> ([], Some (''webhook '' @ quote ObjectsWebhookName @ '' not found in ValidatingWebhookConfiguration '' @
               quote ValidatingWebhookConfigurationName))))"

section \<open>Object reconcilers\<close>

type_synonym objlist = "GroupVersionKind \<Rightarrow> string \<Rightarrow> string + Unstructured list"

text \<open>The position of the type syncer that \<^verbatim>\<open>GetTypeSyncer\<close> returns.\<close>

definition ts_index :: "Forest \<Rightarrow> GroupVersionKind \<Rightarrow> tsptr option" where
  "ts_index f gvk = find (\<lambda>i. ts_GVK (f_types f ! i) = gvk) [0..<length (f_types f)]"

definition createObjectReconciler ::
  "Time \<Rightarrow> (GroupVersionKind \<Rightarrow> string option) \<Rightarrow> GroupVersionKind \<Rightarrow> SynchronizationMode \<Rightarrow> HNCConfiguration \<Rightarrow> ObjEnv \<Rightarrow>
   HNCConfiguration \<times> ObjEnv" where
  "createObjectReconciler now setup gvk mode inst e =
     (case setup gvk of
        Some err \<Rightarrow> (writeCondition now ConditionOutOfSync ReasonUnknown
          (''Cannot sync objects of type '' @ gvk_group gvk @ ''/'' @ gvk_version gvk @ '', Kind='' @ gvk_kind gvk @ '': '' @ err) inst, e)
      | None \<Rightarrow> (inst, e\<lparr>oe_forest := AddTypeSyncer
          \<lparr>ts_GVK = gvk, ts_Mode = GetValidateMode mode, ts_propagatedObjects = []\<rparr> (oe_forest e)\<rparr>))"

fun syncActive_loop ::
  "Time \<Rightarrow> objlist \<Rightarrow> (GroupVersionKind \<Rightarrow> string option) \<Rightarrow> (GroupVersionKind \<times> SynchronizationMode) list \<Rightarrow>
   HNCConfiguration \<Rightarrow> ObjEnv \<Rightarrow> string option \<times> HNCConfiguration \<times> ObjEnv" where
  "syncActive_loop now lst setup [] inst e = (None, inst, e)"
| "syncActive_loop now lst setup ((gvk, mode) # gms) inst e =
     (case ts_index (oe_forest e) gvk of
        Some r \<Rightarrow>
          (case SetMode (lst gvk) r mode e of
             (Some err, e) \<Rightarrow> (Some err, inst, e)
           | (None, e) \<Rightarrow> syncActive_loop now lst setup gms inst e)
      | None \<Rightarrow>
          (case createObjectReconciler now setup gvk mode inst e of
             (inst, e) \<Rightarrow> syncActive_loop now lst setup gms inst e))"

definition syncActiveReconcilers ::
  "Time \<Rightarrow> objlist \<Rightarrow> (GroupVersionKind \<Rightarrow> string option) \<Rightarrow> HNCConfiguration \<Rightarrow> ConfigEnv \<Rightarrow>
   string option \<times> HNCConfiguration \<times> ConfigEnv" where
  "syncActiveReconcilers now lst setup inst e =
     (case syncActive_loop now lst setup (map snd (ce_activeGVKMode e)) inst (ce_obj e) of
        (err, inst, o1) \<Rightarrow> (err, inst, e\<lparr>ce_obj := o1\<rparr>))"

text \<open>The loop runs over a copy of the list of type syncers; setting a mode does not move them.\<close>

fun syncRemoved_loop ::
  "objlist \<Rightarrow> (GroupVersionKind \<times> SynchronizationMode) list \<Rightarrow> tsptr list \<Rightarrow> ObjEnv \<Rightarrow> string option \<times> ObjEnv" where
  "syncRemoved_loop lst active [] e = (None, e)"
| "syncRemoved_loop lst active (r # rs) e =
     (let gvk = GetGVK (oe_forest e) r in
      if list_ex (\<lambda>(g, md). gvk = g) active then syncRemoved_loop lst active rs e
      else (case SetMode (lst gvk) r Ignore e of
          (Some err, e) \<Rightarrow> (Some err, e)
        | (None, e) \<Rightarrow> syncRemoved_loop lst active rs e))"

definition syncRemovedReconcilers :: "objlist \<Rightarrow> ConfigEnv \<Rightarrow> string option \<times> ConfigEnv" where
  "syncRemovedReconcilers lst e =
     (case syncRemoved_loop lst (map snd (ce_activeGVKMode e)) [0..<length (f_types (oe_forest (ce_obj e)))] (ce_obj e) of
        (err, o1) \<Rightarrow> (err, e\<lparr>ce_obj := o1\<rparr>))"

definition syncObjectReconcilers ::
  "Time \<Rightarrow> objlist \<Rightarrow> (GroupVersionKind \<Rightarrow> string option) \<Rightarrow> HNCConfiguration \<Rightarrow> ConfigEnv \<Rightarrow>
   string option \<times> HNCConfiguration \<times> ConfigEnv" where
  "syncObjectReconcilers now lst setup inst e =
     (case syncActiveReconcilers now lst setup inst e of
        (Some err, inst, e) \<Rightarrow> (Some err, inst, e)
      | (None, inst, e) \<Rightarrow> (case syncRemovedReconcilers lst e of (err, e) \<Rightarrow> (err, inst, e)))"

section \<open>Status\<close>

text \<open>The names come from the forest, so looking them up changes nothing.\<close>

definition num_sources :: "Forest \<Rightarrow> GroupVersionKind \<Rightarrow> nat" where
  "num_sources f gvk = fold (\<lambda>nm n. case map_of (f_namespaces f) nm of
     None \<Rightarrow> n | Some a \<Rightarrow> n + GetNumSourceObjects f a gvk) (GetNamespaceNames f) 0"

definition type_status :: "Forest \<Rightarrow> GroupResource \<Rightarrow> tsptr \<Rightarrow> ResourceStatus" where
  "type_status f gr r =
     \<lparr>rst_group = gr_group gr, rst_version = gvk_version (GetGVK f r), rst_resource = gr_resource gr, rst_mode = GetMode f r,
      rst_numPropagated = (if GetMode f r \<noteq> Ignore then Some (GetNumPropagatedObjects f r) else None),
      rst_numSource = (if CanPropagate f r then Some (num_sources f (GetGVK f r)) else None)\<rparr>"

definition setTypeStatuses :: "HNCConfiguration \<Rightarrow> ConfigEnv \<Rightarrow> HNCConfiguration" where
  "setTypeStatuses inst e =
     (let f = oe_forest (ce_obj e);
          statuses = fold (\<lambda>r sts. case map_of (ce_activeGR e) (GetGVK f r) of
              None \<Rightarrow> sts | Some gr \<Rightarrow> sts @ [type_status f gr r]) [0..<length (f_types f)] []
      in inst\<lparr>cfg_status := sort_key (\<lambda>st. [rst_group st, rst_resource st]) statuses\<rparr>)"

fun collect_conditions ::
  "string list \<Rightarrow> (string \<times> string, string list) gomap \<Rightarrow> Forest \<Rightarrow> (string \<times> string, string list) gomap option" where
  "collect_conditions [] conds f = Some conds"
| "collect_conditions (nsnm # nms) conds f = do {
     (ns, f) \<leftarrow> GetP nsnm f;
     cs \<leftarrow> Conditions f ns;
     collect_conditions nms (fold (\<lambda>cond conds. AList.update (cond_type cond, cond_reason cond)
         ((case map_of conds (cond_type cond, cond_reason cond) of None \<Rightarrow> [] | Some ns \<Rightarrow> ns) @ [nsnm]) conds) cs conds) f }"

definition namespace_condition_msg :: "string list \<Rightarrow> string \<Rightarrow> string" where
  "namespace_condition_msg nsnms reason =
     (let l = length nsnms; names = (\<lambda>xs. ''\"'' @ Join xs (''\"'' @ '', '' @ ''\"'') @ ''\"'') in
      if l > 3 then show_nat l @ '' namespaces '' @ names (take 3 nsnms) @ '' ... are affected by '' @ quote reason
      else if l = 1 then ''Namespaces '' @ quote (hd nsnms) @ '' is affected by '' @ quote reason
      else show_nat l @ '' namespaces '' @ names nsnms @ '' are affected by '' @ quote reason)"

definition loadNamespaceConditions :: "Time \<Rightarrow> HNCConfiguration \<Rightarrow> ConfigEnv \<Rightarrow> HNCConfiguration option" where
  "loadNamespaceConditions now inst e = do {
     conds \<leftarrow> collect_conditions (GetNamespaceNames (oe_forest (ce_obj e))) [] (oe_forest (ce_obj e));
     Some (fold (\<lambda>(tp, reasons) inst. fold (\<lambda>reason inst.
         (let nsnms = sort (case map_of conds (tp, reason) of None \<Rightarrow> [] | Some ns \<Rightarrow> ns) in
          if length nsnms = 0 then inst
          else writeCondition now ConditionNamespace tp (namespace_condition_msg nsnms reason) inst)) reasons inst)
       AllConditions inst) }"

section \<open>The reconciliation\<close>

datatype ConfigWrite = CreateConfig HNCConfiguration | UpdateConfig HNCConfiguration | PatchVWC VWC

record ConfigReads =
  crd_config :: "HNCConfiguration read"
  crd_vwc :: "VWC read"
  crd_CRD :: "Time read"

definition getSingleton_config :: "ConfigReads \<Rightarrow> string + HNCConfiguration" where
  "getSingleton_config rd = (case crd_config rd of
       ReadError err \<Rightarrow> Inl err
     | r \<Rightarrow> (let inst = (case r of Found i \<Rightarrow> i | _ \<Rightarrow> \<lparr>cfg_name = '''', cfg_creationTimestamp = 0, cfg_resources = [],
                 cfg_status = [], cfg_conditions = []\<rparr>)
             in Inr (if cfg_name inst = '''' then inst\<lparr>cfg_name := HNCConfigSingleton\<rparr> else inst)))"

definition writeSingleton_config ::
  "ConfigReads \<Rightarrow> (ConfigWrite \<Rightarrow> string option) \<Rightarrow> HNCConfiguration \<Rightarrow> ConfigWrite list \<times> string option" where
  "writeSingleton_config rd wr inst =
     (if IsZero (cfg_creationTimestamp inst) then
        (case IsDeletingCRD (crd_CRD rd) of
           Inl err \<Rightarrow> ([], Some err)
         | Inr True \<Rightarrow> ([], None)
         | Inr False \<Rightarrow> ([CreateConfig inst], wr (CreateConfig inst)))
      else ([UpdateConfig inst], wr (UpdateConfig inst)))"

definition Reconcile_config ::
  "Time \<Rightarrow> RESTMapper \<Rightarrow> objlist \<Rightarrow> (GroupVersionKind \<Rightarrow> string option) \<Rightarrow> ConfigReads \<Rightarrow> (ConfigWrite \<Rightarrow> string option) \<Rightarrow>
   ConfigEnv \<Rightarrow> (ConfigWrite list \<times> string option \<times> ConfigEnv) option" where
  "Reconcile_config now m lst setup rd wr e =
     (case getSingleton_config rd of
        Inl err \<Rightarrow> Some ([], Some err, e)
      | Inr inst \<Rightarrow>
          (case reconcileTypes now m (inst\<lparr>cfg_conditions := []\<rparr>) e of
             (Some err, inst, e) \<Rightarrow> Some ([], Some (map_err_text err), e)
           | (None, inst, e) \<Rightarrow>
               (case syncObjectWebhookConfigs (crd_vwc rd) (\<lambda>w. wr (PatchVWC w)) e of
                  (ws, Some err) \<Rightarrow> Some (map PatchVWC ws, Some err, e)
                | (ws, None) \<Rightarrow>
                    (case syncObjectReconcilers now lst setup inst e of
                       (syncErr, inst, e) \<Rightarrow> do {
                         inst \<leftarrow> loadNamespaceConditions now (setTypeStatuses inst e) e;
                         (case writeSingleton_config rd wr inst of
                            (ws', Some err) \<Rightarrow> Some (map PatchVWC ws @ ws', Some err, e)
                          | (ws', None) \<Rightarrow> Some (map PatchVWC ws @ ws', syncErr, e)) }))))"

end
