(* ===== verification/HNCConfigValidator.thy ===== *)
theory HNCConfigValidator
  imports HNCConfig
begin

text \<open>
  The validator of the configuration, \<^verbatim>\<open>internal/hncconfig/validator.go\<close>.

  The recursion over a tree of namespaces is a loop over a stack of namespaces still to visit, each with
  the objects of its ancestors; the children of a namespace go on top of the stack, which gives the same
  order. \<open>None\<close> is a nil dereference, a panic of a selector or a tree that never ends.
\<close>

section \<open>Types\<close>

type_synonym gvkSet = "(GroupVersionKind, SynchronizationMode) gomap"

fun validateTypes_loop :: "RESTMapper \<Rightarrow> ResourceSpec list \<Rightarrow> nat \<Rightarrow> gvkSet \<Rightarrow> FieldError list \<Rightarrow> gvkSet \<times> FieldError list" where
  "validateTypes_loop m [] i ts allErrs = (ts, allErrs)"
| "validateTypes_loop m (r # rs) i ts allErrs =
     (let gr = \<lparr>gr_group = rs_group r, gr_resource = rs_resource r\<rparr>;
          fldPath = ''spec.resources['' @ show_nat i @ '']'';
          fld = (\<lambda>detail. \<lparr>fe_field = fldPath, fe_value = show_gr gr, fe_detail = detail\<rparr>);
          mapped = NamespacedKindFor m gr;
          gvk = (case mapped of Inl err \<Rightarrow> blank_gvk | Inr g \<Rightarrow> g);
          allErrs = (case mapped of Inl err \<Rightarrow> allErrs @ [fld (map_err_text err)] | Inr g \<Rightarrow> allErrs);
          allErrs = (if isEnforced (newGVKChecker m) gvk
            then allErrs @ [fld ''always uses the 'Propagate' mode and cannot be configured''] else allErrs);
          allErrs = (if has_key ts gvk then allErrs @ [fld ''Duplicate value''] else allErrs)
      in validateTypes_loop m rs (Suc i) (AList.update gvk (rs_mode r) ts) allErrs)"

definition validateTypes :: "RESTMapper \<Rightarrow> HNCConfiguration \<Rightarrow> gvkSet \<times> Response" where
  "validateTypes m inst =
     (case validateTypes_loop m (cfg_resources inst) 0 [] [] of
        (ts, allErrs) \<Rightarrow> (ts, if length allErrs > 0
          then DenyInvalid (Join (map (\<lambda>e. fe_field e @ '': '' @ fe_value e @ '': '' @ fe_detail e) allErrs) '', '')
          else Allow ''''))"

definition getNewPropagateTypes :: "gvkSet \<Rightarrow> Forest \<Rightarrow> gvkSet" where
  "getNewPropagateTypes ts f =
     (let newPts = fold (\<lambda>(gvk, mode) newPts.
            let newPts = (if mode = Propagate then AList.update gvk Propagate newPts else newPts)
            in if mode = AllowPropagate then AList.update gvk AllowPropagate newPts else newPts) ts []
      in fold (\<lambda>t newPts. if (ts_Mode t = Propagate \<or> ts_Mode t = AllowPropagate) \<and> has_key newPts (ts_GVK t)
           then AList.delete (ts_GVK t) newPts else newPts) (GetTypeSyncers f) newPts)"

section \<open>Conflicts\<close>

type_synonym ancestorObjects = "(string, string list) gomap"

definition add_ancestor :: "string \<Rightarrow> string \<Rightarrow> ancestorObjects \<Rightarrow> ancestorObjects" where
  "add_ancestor onm nsnm a = AList.update onm ((case map_of a onm of None \<Rightarrow> [] | Some xs \<Rightarrow> xs) @ [nsnm]) a"

fun object_conflicts ::
  "SelectorLib \<Rightarrow> Config \<Rightarrow> GroupVersionKind \<Rightarrow> SynchronizationMode \<Rightarrow> nsptr \<Rightarrow> string \<Rightarrow> string list \<Rightarrow> string list \<Rightarrow> Forest \<Rightarrow>
   (string list \<times> Forest) option" where
  "object_conflicts lib c gvk mode ns onm [] conflicts f = Some (conflicts, f)"
| "object_conflicts lib c gvk mode ns onm (nnm # nnms) conflicts f = do {
     (a, f) \<leftarrow> GetP nnm f;
     inst \<leftarrow> GetSourceObject f a gvk onm;
     (ok, err) \<leftarrow> ShouldPropagate lib c inst (GetLabels f ns) mode;
     object_conflicts lib c gvk mode ns onm nnms
       (if ok then conflicts @ [''  Object '' @ quote onm @ '' in namespace '' @ quote nnm @ '' would overwrite the one in '' @
          quote (ns_name (deref f ns))] else conflicts) f }"

fun namespace_conflicts ::
  "SelectorLib \<Rightarrow> Config \<Rightarrow> GroupVersionKind \<Rightarrow> SynchronizationMode \<Rightarrow> nsptr \<Rightarrow> NamespacedName list \<Rightarrow> ancestorObjects \<Rightarrow>
   string list \<Rightarrow> Forest \<Rightarrow> (ancestorObjects \<times> string list \<times> Forest) option" where
  "namespace_conflicts lib c gvk mode ns [] objs conflicts f = Some (objs, conflicts, f)"
| "namespace_conflicts lib c gvk mode ns (src # srcs) objs conflicts f = do {
     (conflicts, f) \<leftarrow> object_conflicts lib c gvk mode ns (nnm_name src)
        (case map_of objs (nnm_name src) of None \<Rightarrow> [] | Some xs \<Rightarrow> xs) conflicts f;
     namespace_conflicts lib c gvk mode ns srcs (add_ancestor (nnm_name src) (ns_name (deref f ns)) objs) conflicts f }"

partial_function (option) checkConflictsForTree ::
  "SelectorLib \<Rightarrow> Config \<Rightarrow> GroupVersionKind \<Rightarrow> SynchronizationMode \<Rightarrow> (ancestorObjects \<times> string) list \<Rightarrow> string list \<Rightarrow> Forest \<Rightarrow>
   (string list \<times> Forest) option" where
  "checkConflictsForTree lib c gvk mode stack conflicts f = (case stack of
       [] \<Rightarrow> Some (conflicts, f)
     | (ao, nm) # stack \<Rightarrow>
         Option.bind (GetP nm f) (\<lambda>(ns, f).
           Option.bind (namespace_conflicts lib c gvk mode ns (GetSourceNames f ns gvk) ao conflicts f)
             (\<lambda>(objs, conflicts, f).
                checkConflictsForTree lib c gvk mode (map (Pair objs) (ChildNames f ns) @ stack) conflicts f)))"

declare checkConflictsForTree.simps [code]

definition checkConflictsForGVK ::
  "SelectorLib \<Rightarrow> Config \<Rightarrow> GroupVersionKind \<Rightarrow> SynchronizationMode \<Rightarrow> Forest \<Rightarrow> (string list \<times> Forest) option" where
  "checkConflictsForGVK lib c gvk mode f =
     checkConflictsForTree lib c gvk mode (map (\<lambda>ns. ([], ns_name (deref f ns))) (GetRoots f)) [] f"

fun checkForest_loop :: "SelectorLib \<Rightarrow> Config \<Rightarrow> gvkSet \<Rightarrow> Forest \<Rightarrow> (Response \<times> Forest) option" where
  "checkForest_loop lib c [] f = Some (Allow '''', f)"
| "checkForest_loop lib c ((gvk, mode) # gvks) f = do {
     (conflicts, f) \<leftarrow> checkConflictsForGVK lib c gvk mode f;
     if length conflicts \<noteq> 0
     then Some (DenyConflict (''Cannot update configuration because setting type '' @
            quote (gvk_group gvk @ ''/'' @ gvk_version gvk @ '', Kind='' @ gvk_kind gvk) @
            '' to 'Propagate' mode or 'AllowPropagate' mode would overwrite user-created object(s):'' @ [CHR 0x0A] @
            Join conflicts [CHR 0x0A] @ [CHR 0x0A] @
            ''To fix this, please rename or remove the conflicting objects first.''), f)
     else checkForest_loop lib c gvks f }"

definition checkForest_config :: "SelectorLib \<Rightarrow> Config \<Rightarrow> gvkSet \<Rightarrow> Forest \<Rightarrow> (Response \<times> Forest) option" where
  "checkForest_config lib c ts f = checkForest_loop lib c (getNewPropagateTypes ts f) f"

section \<open>The handler\<close>

definition handle_config :: "SelectorLib \<Rightarrow> Config \<Rightarrow> RESTMapper \<Rightarrow> HNCConfiguration \<Rightarrow> Forest \<Rightarrow> (Response \<times> Forest) option" where
  "handle_config lib c m inst f =
     (case validateTypes m inst of
        (ts, rp) \<Rightarrow> if \<not> Allowed rp then Some (rp, f) else checkForest_config lib c ts f)"

definition Handle_config ::
  "SelectorLib \<Rightarrow> Config \<Rightarrow> RESTMapper \<Rightarrow> string list \<Rightarrow> Operation \<Rightarrow> string \<Rightarrow> string + HNCConfiguration \<Rightarrow> Forest \<Rightarrow>
   (Response \<times> Forest) option" where
  "Handle_config lib c m groups op nm decoded f =
     (if IsHNCServiceAccount c (Some groups) then Some (Allow ''HNC SA'', f)
      else if op = Delete then
        (if nm = HNCConfigSingleton then Some (DenyForbidden ''deleting the 'config' object is forbidden'', f)
         else Some (Allow '''', f))
      else (case decoded of
          Inl err \<Rightarrow> Some (DenyBadRequest err, f)
        | Inr inst \<Rightarrow> handle_config lib c m inst f))"

end
