(* ===== verification/Config_Types.thy ===== *)
theory Config_Types
  imports HNCConfigValidator Hierarchy_Sync
begin

text \<open>
  The types that HNC synchronizes (internal/hncconfig/reconciler.go): after \<^verbatim>\<open>reconcileTypes\<close> the mode of
  a kind is the one of the first entry that maps to it, with the enforced types before the user's, and
  the configurations that the validator accepts are exactly those that the reconciler processes without a
  condition.
\<close>

definition gr_of :: "ResourceSpec \<Rightarrow> GroupResource" where
  "gr_of t = \<lparr>gr_group = rs_group t, gr_resource = rs_resource t\<rparr>"

definition maps_to :: "RESTMapper \<Rightarrow> GroupVersionKind \<Rightarrow> ResourceSpec \<Rightarrow> bool" where
  "maps_to m gvk t \<longleftrightarrow> NamespacedKindFor m (gr_of t) = Inr gvk"

definition active_mode :: "ConfigEnv \<Rightarrow> GroupVersionKind \<Rightarrow> SynchronizationMode option" where
  "active_mode e gvk = (case map_of (ce_activeGR e) gvk of
       None \<Rightarrow> None | Some gr \<Rightarrow> map_option snd (map_of (ce_activeGVKMode e) gr))"

text \<open>The two maps agree: a kind is listed under the resource that maps to it.\<close>

definition active_ok :: "RESTMapper \<Rightarrow> ConfigEnv \<Rightarrow> bool" where
  "active_ok m e \<longleftrightarrow> (\<forall>gvk gr. map_of (ce_activeGR e) gvk = Some gr \<longrightarrow>
     NamespacedKindFor m gr = Inr gvk \<and> (\<exists>mode. map_of (ce_activeGVKMode e) gr = Some (gvk, mode)))"

lemma active_ok_mode: "active_ok m e \<Longrightarrow> map_of (ce_activeGR e) gvk \<noteq> None \<longleftrightarrow> active_mode e gvk \<noteq> None"
  unfolding active_ok_def active_mode_def by (cases "map_of (ce_activeGR e) gvk") fastforce+

lemma activate_ok:
  assumes "active_ok m e" "NamespacedKindFor m gr = Inr gvk"
  shows "active_ok m (activate gr gvk mode e)"
  using assms by (auto simp: active_ok_def activate_def update_conv')

lemma active_mode_activate:
  assumes "active_ok m e" "NamespacedKindFor m gr = Inr gvk"
  shows "active_mode (activate gr gvk mode e) = (active_mode e)(gvk \<mapsto> mode)"
proof
  fix g
  show "active_mode (activate gr gvk mode e) g = ((active_mode e)(gvk \<mapsto> mode)) g"
    using assms by (auto simp: active_mode_def activate_def update_conv' active_ok_def split: option.split)
qed

lemma configTypes_loop_modes:
  assumes "active_ok m e" "configTypes_loop now m ts inst e = (inst', e')"
  shows "active_ok m e' \<and> active_mode e' gvk =
    (if active_mode e gvk \<noteq> None then active_mode e gvk else map_option rs_mode (find (maps_to m gvk) ts))"
  using assms
proof (induction now m ts inst e rule: configTypes_loop.induct)
  case (2 now m t ts inst e)
  show ?case
  proof (cases "NamespacedKindFor m (gr_of t)")
    case (Inl err)
    then show ?thesis using 2 by (simp add: Let_def gr_of_def maps_to_def)
  next
    case (Inr g)
    note kind = Inr [unfolded gr_of_def]
    show ?thesis
    proof (cases "map_of (ce_activeGR e) g")
      case None
      then have g: "active_mode e g = None" using active_ok_mode [OF "2.prems"(1), of g] by auto
      have "active_ok m e' \<and> active_mode e' gvk = (if active_mode (activate (gr_of t) g (rs_mode t) e) gvk \<noteq> None
          then active_mode (activate (gr_of t) g (rs_mode t) e) gvk else map_option rs_mode (find (maps_to m gvk) ts))"
        using 2 kind None activate_ok [OF "2.prems"(1) Inr] by (simp add: Let_def gr_of_def)
      then show ?thesis
        using g Inr active_mode_activate [OF "2.prems"(1) Inr] by (auto simp: maps_to_def)
    next
      case (Some fgr)
      then have "active_mode e g \<noteq> None" using active_ok_mode [OF "2.prems"(1), of g] by auto
      then show ?thesis
        using 2 kind Some by (auto simp: Let_def maps_to_def gr_of_def)
    qed
  qed
qed simp

lemma ensureEnforced_modes:
  assumes "ensureEnforcedTypes now m inst e0 = (None, inst', e)" "ce_activeGR e0 = []"
  shows "active_ok m e \<and> inst' = inst \<and> active_mode e gvk = map_option rs_mode (find (maps_to m gvk) EnforcedTypes) \<and>
    set (newGVKChecker m) = {g. active_mode e g \<noteq> None}"
proof -
  obtain t1 t2 where ts: "EnforcedTypes = [t1, t2]" "rs_mode t1 = Propagate" "rs_mode t2 = Propagate"
    by (simp add: EnforcedTypes_def)
  obtain g1 where g1: "NamespacedKindFor m (gr_of t1) = Inr g1"
    using assms(1) by (cases "NamespacedKindFor m (gr_of t1)")
      (auto simp: ensureEnforcedTypes_def ts(1) gr_of_def Let_def)
  obtain g2 where g2: "NamespacedKindFor m (gr_of t2) = Inr g2"
    using assms(1) g1 by (cases "NamespacedKindFor m (gr_of t2)")
      (auto simp: ensureEnforcedTypes_def ts(1) gr_of_def Let_def)
  define e1 where "e1 = activate (gr_of t1) g1 Propagate e0"
  have e: "e = activate (gr_of t2) g2 Propagate e1" "inst' = inst"
    using assms(1) g1 g2 by (simp_all add: ensureEnforcedTypes_def ts gr_of_def Let_def e1_def)
  have ok0: "active_ok m e0" and none: "active_mode e0 = Map.empty"
    using assms(2) by (auto simp: active_ok_def active_mode_def fun_eq_iff)
  have ok1: "active_ok m e1" unfolding e1_def by (rule activate_ok [OF ok0 g1])
  have "active_mode e = (Map.empty(g1 \<mapsto> Propagate))(g2 \<mapsto> Propagate)"
    unfolding e(1) active_mode_activate [OF ok1 g2] by (simp add: e1_def active_mode_activate [OF ok0 g1] none)
  moreover have "active_ok m e" unfolding e(1) by (rule activate_ok [OF ok1 g2])
  moreover have "newGVKChecker m = [g1, g2]"
    using g1 g2 by (simp add: newGVKChecker_def ts(1) gr_of_def)
  ultimately show ?thesis
    using g1 g2 e(2) by (auto simp: ts maps_to_def)
qed

lemma find_append_case: "find P (xs @ ys) = (case find P xs of None \<Rightarrow> find P ys | Some x \<Rightarrow> Some x)"
  by (induction xs) auto

lemma reconcileTypes_modes:
  assumes "reconcileTypes now m inst e = (None, inst', e')"
  shows "active_mode e' gvk = map_option rs_mode (find (maps_to m gvk) (EnforcedTypes @ cfg_resources inst))"
proof -
  obtain i1 e1 where en: "ensureEnforcedTypes now m inst (e\<lparr>ce_activeGVKMode := [], ce_activeGR := []\<rparr>) = (None, i1, e1)"
    using assms by (auto simp: reconcileTypes_def split: prod.splits option.splits)
  then have en': "active_ok m e1" "i1 = inst" "active_mode e1 gvk = map_option rs_mode (find (maps_to m gvk) EnforcedTypes)"
    using ensureEnforced_modes [OF en] by simp_all
  have "configTypes_loop now m (cfg_resources inst) inst e1 = (inst', e')"
    using assms en en'(2) by (simp add: reconcileTypes_def reconcileConfigTypes_def split: prod.splits)
  then show ?thesis
    using configTypes_loop_modes [OF en'(1)] en'(3) by (auto simp: find_append_case split: option.split)
qed

section \<open>The validator and the reconciler\<close>

text \<open>Every entry maps to a kind that is not in use yet.\<close>

fun clean_types :: "RESTMapper \<Rightarrow> GroupVersionKind set \<Rightarrow> ResourceSpec list \<Rightarrow> bool" where
  "clean_types m seen [] = True"
| "clean_types m seen (t # ts) = (case NamespacedKindFor m (gr_of t) of
     Inl err \<Rightarrow> False | Inr gvk \<Rightarrow> gvk \<notin> seen \<and> clean_types m (insert gvk seen) ts)"

lemma SetStatusCondition_not_Nil [simp]: "SetStatusCondition now cs c \<noteq> []"
  using SetStatusCondition_sets [of c now cs] by (cases "SetStatusCondition now cs c") simp_all

lemma configTypes_loop_dirty:
  "cfg_conditions inst \<noteq> [] \<Longrightarrow> cfg_conditions (fst (configTypes_loop now m ts inst e)) \<noteq> []"
proof (induction ts arbitrary: inst e)
  case (Cons t ts)
  have "cfg_conditions (writeCondition now tp rs msg inst) \<noteq> []" for tp rs msg
    by (simp add: writeCondition_def)
  then show ?case
    using Cons by (simp add: Let_def split: sum.split option.split)
qed simp

lemma configTypes_loop_clean:
  assumes "cfg_conditions inst = []"
  shows "cfg_conditions (fst (configTypes_loop now m ts inst e)) = [] \<longleftrightarrow> clean_types m (dom (map_of (ce_activeGR e))) ts"
proof (induction ts arbitrary: e)
  case (Cons t ts)
  have d: "cfg_conditions (fst (configTypes_loop now m ts (writeCondition now tp rs msg inst) e)) \<noteq> []" for tp rs msg e
    by (rule configTypes_loop_dirty) (simp add: writeCondition_def)
  have "dom (map_of (ce_activeGR (activate gr gvk md e))) = insert gvk (dom (map_of (ce_activeGR e)))" for gr gvk md
    by (auto simp: activate_def update_conv')
  then show ?case
    using Cons d by (auto simp: Let_def gr_of_def split: sum.split option.split)
qed (simp add: assms)

lemma validateTypes_loop_dirty:
  "errs \<noteq> [] \<Longrightarrow> snd (validateTypes_loop m ts i seen errs) \<noteq> []"
proof (induction ts arbitrary: i seen errs)
  case (Cons t ts)
  then show ?case by (simp add: Let_def split: sum.split)
qed simp

lemma validateTypes_loop_clean:
  "snd (validateTypes_loop m ts i seen []) = [] \<longleftrightarrow>
     clean_types m (set (newGVKChecker m) \<union> dom (map_of seen)) ts"
proof (induction ts arbitrary: i seen)
  case (Cons t ts)
  have d: "snd (validateTypes_loop m ts i seen (xs @ [x])) \<noteq> []" for i seen xs x
    by (rule validateTypes_loop_dirty) simp
  have up: "dom (map_of (AList.update g md seen)) = insert g (dom (map_of seen))" for g md
    by (auto simp: update_conv')
  show ?case
  proof (cases "NamespacedKindFor m (gr_of t)")
    case (Inl err)
    then show ?thesis using validateTypes_loop_dirty by (simp add: Let_def gr_of_def)
  next
    case (Inr g)
    have "isEnforced (newGVKChecker m) g \<longleftrightarrow> g \<in> set (newGVKChecker m)"
      by (auto simp: isEnforced_def list_ex_iff)
    moreover have "has_key seen g \<longleftrightarrow> g \<in> dom (map_of seen)" by (auto simp: has_key_def)
    ultimately show ?thesis
      using Inr Cons [of "Suc i" "AList.update g (rs_mode t) seen"] d validateTypes_loop_dirty
      by (auto simp: Let_def gr_of_def up)
  qed
qed simp

lemma validator_agrees:
  assumes "ensureEnforcedTypes now m inst (e\<lparr>ce_activeGVKMode := [], ce_activeGR := []\<rparr>) = (None, inst', e1)"
    and "cfg_conditions inst = []"
  shows "Allowed (snd (validateTypes m inst)) \<longleftrightarrow> cfg_conditions (fst (snd (reconcileTypes now m inst e))) = []"
proof -
  have en: "active_ok m e1" "inst' = inst" "set (newGVKChecker m) = {g. active_mode e1 g \<noteq> None}"
    using ensureEnforced_modes [OF assms(1)] by simp_all
  then have "set (newGVKChecker m) = dom (map_of (ce_activeGR e1))"
    using active_ok_mode [OF en(1)] by (auto simp: dom_def)
  then have "snd (validateTypes_loop m (cfg_resources inst) 0 [] []) = [] \<longleftrightarrow>
      cfg_conditions (fst (configTypes_loop now m (cfg_resources inst) inst e1)) = []"
    by (simp add: validateTypes_loop_clean configTypes_loop_clean [OF assms(2)])
  then show ?thesis
    using assms(1) en(2)
    by (simp add: validateTypes_def reconcileTypes_def reconcileConfigTypes_def DenyInvalid_def split: prod.split) auto
qed

end
