(* ===== verification/Config_Conflicts.thy ===== *)
theory Config_Conflicts
  imports Propagation HNCConfigValidator
begin

text \<open>
  The check of a new mode against the forest (internal/hncconfig/validator.go): the search from the roots
  ends, since no cycle can be reached from a root, and it reports a conflict exactly when some namespace
  outside cycles has a source object that the source of a proper ancestor would overwrite.
\<close>

section \<open>One namespace\<close>

definition overwrites :: "SelectorLib \<Rightarrow> Config \<Rightarrow> GroupVersionKind \<Rightarrow> SynchronizationMode \<Rightarrow> Forest \<Rightarrow> nsptr \<Rightarrow> string \<Rightarrow> nsptr \<Rightarrow> bool" where
  "overwrites lib c gvk mode f b onm d \<longleftrightarrow> (\<exists>src. GetSourceObject f b gvk onm = Some src \<and>
     ShouldPropagate lib c src (GetLabels f d) mode = Some (True, None))"

text \<open>The ancestors' objects as a set of namespaces and names.\<close>

definition ao_is :: "Forest \<Rightarrow> GroupVersionKind \<Rightarrow> ancestorObjects \<Rightarrow> (nsptr \<times> string) set \<Rightarrow> bool" where
  "ao_is f gvk ao S \<longleftrightarrow> (\<forall>(b, onm) \<in> S. registered f b \<and> HasSourceObject f b gvk onm) \<and>
     (\<forall>onm. set (case map_of ao onm of None \<Rightarrow> [] | Some xs \<Rightarrow> xs) = nm_of f ` {b. (b, onm) \<in> S})"

lemma object_conflicts_eq:
  assumes "wf_forest f" "sources_ok lib f"
    and "\<forall>nnm \<in> set nnms. \<exists>b. nnm = nm_of f b \<and> registered f b \<and> HasSourceObject f b gvk onm"
  shows "\<exists>cs. object_conflicts lib c gvk mode d onm nnms conflicts f = Some (conflicts @ cs, f) \<and>
    (cs \<noteq> [] \<longleftrightarrow> (\<exists>b. registered f b \<and> nm_of f b \<in> set nnms \<and> overwrites lib c gvk mode f b onm d))"
  using assms(3)
proof (induction nnms arbitrary: conflicts)
  case (Cons nnm nnms)
  obtain b where b: "nnm = nm_of f b" "registered f b" "HasSourceObject f b gvk onm" using Cons.prems by auto
  obtain src where src: "GetSourceObject f b gvk onm = Some src" using b(3) by (auto simp: HasSourceObject_def)
  then have "GetTreeSelector lib src \<noteq> None"
    using objs_of_ok(4) [OF assms(2)] by (auto simp: GetSourceObject_def)
  then obtain ok err where sp: "ShouldPropagate lib c src (GetLabels f d) mode = Some (ok, err)" "err \<noteq> None \<longrightarrow> \<not> ok"
    using ShouldPropagate_returns by blast
  have gp: "GetP nnm f = Some (b, f)" using GetP_registered [OF assms(1) b(2)] b(1) by simp
  have ow: "overwrites lib c gvk mode f b onm d \<longleftrightarrow> ok" using src sp by (auto simp: overwrites_def)
  have only: "x = b" if "registered f x" "nm_of f x = nm_of f b" for x
    using registered_inj [OF that(1) b(2) that(2)] .
  obtain cs where "object_conflicts lib c gvk mode d onm nnms (if ok then conflicts @ [''  Object '' @ quote onm @
        '' in namespace '' @ quote nnm @ '' would overwrite the one in '' @ quote (ns_name (deref f d))] else conflicts) f =
      Some ((if ok then conflicts @ [''  Object '' @ quote onm @
        '' in namespace '' @ quote nnm @ '' would overwrite the one in '' @ quote (ns_name (deref f d))] else conflicts) @ cs, f)"
    "cs \<noteq> [] \<longleftrightarrow> (\<exists>b. registered f b \<and> nm_of f b \<in> set nnms \<and> overwrites lib c gvk mode f b onm d)"
    using Cons.IH Cons.prems by fastforce
  then show ?case
    using gp src sp(1) ow b only by (cases ok) auto
qed simp

lemma namespace_conflicts_eq:
  assumes "wf_forest f" "sources_ok lib f" "registered f d" "ao_is f gvk ao S" "distinct onms"
    and "\<forall>onm \<in> set onms. HasSourceObject f d gvk onm \<and> (d, onm) \<notin> S"
  shows "\<exists>cs ao'. namespace_conflicts lib c gvk mode d (map (\<lambda>nm. \<lparr>nnm_namespace = nm_of f d, nnm_name = nm\<rparr>) onms) ao conflicts f =
      Some (ao', conflicts @ cs, f) \<and> ao_is f gvk ao' (S \<union> {d} \<times> set onms) \<and>
    (cs \<noteq> [] \<longleftrightarrow> (\<exists>onm \<in> set onms. \<exists>b. (b, onm) \<in> S \<and> overwrites lib c gvk mode f b onm d))"
  using assms(4-)
proof (induction onms arbitrary: ao S conflicts)
  case (Cons onm onms)
  let ?nnms = "case map_of ao onm of None \<Rightarrow> [] | Some xs \<Rightarrow> xs"
  have S: "\<forall>(b, onm) \<in> S. registered f b \<and> HasSourceObject f b gvk onm" "set ?nnms = nm_of f ` {b. (b, onm) \<in> S}"
    using Cons.prems(1) by (auto simp: ao_is_def)
  have "\<forall>nnm \<in> set ?nnms. \<exists>b. nnm = nm_of f b \<and> registered f b \<and> HasSourceObject f b gvk onm"
    using S by fastforce
  then obtain cs1 where cs1: "object_conflicts lib c gvk mode d onm ?nnms conflicts f = Some (conflicts @ cs1, f)"
    "cs1 \<noteq> [] \<longleftrightarrow> (\<exists>b. registered f b \<and> nm_of f b \<in> set ?nnms \<and> overwrites lib c gvk mode f b onm d)"
    using object_conflicts_eq [OF assms(1,2)] by blast
  have own: "cs1 \<noteq> [] \<longleftrightarrow> (\<exists>b. (b, onm) \<in> S \<and> overwrites lib c gvk mode f b onm d)"
    unfolding cs1(2) S(2) using S(1) registered_inj by fastforce
  have ao': "ao_is f gvk (add_ancestor onm (nm_of f d) ao) (insert (d, onm) S)"
    using Cons.prems assms(3) by (auto simp: ao_is_def add_ancestor_def update_conv' split: option.splits)
  have p: "distinct onms" "\<forall>x \<in> set onms. HasSourceObject f d gvk x \<and> (d, x) \<notin> insert (d, onm) S"
    using Cons.prems by auto
  obtain cs2 ao' where rec: "namespace_conflicts lib c gvk mode d (map (\<lambda>nm. \<lparr>nnm_namespace = nm_of f d, nnm_name = nm\<rparr>) onms)
        (add_ancestor onm (nm_of f d) ao) (conflicts @ cs1) f = Some (ao', (conflicts @ cs1) @ cs2, f)"
      "ao_is f gvk ao' (insert (d, onm) S \<union> {d} \<times> set onms)"
      "cs2 \<noteq> [] \<longleftrightarrow> (\<exists>x \<in> set onms. \<exists>b. (b, x) \<in> insert (d, onm) S \<and> overwrites lib c gvk mode f b x d)"
    using Cons.IH [OF ao' p, of "conflicts @ cs1"] by blast
  have "insert (d, onm) S \<union> {d} \<times> set onms = S \<union> {d} \<times> set (onm # onms)" by auto
  moreover have "cs2 \<noteq> [] \<longleftrightarrow> (\<exists>x \<in> set onms. \<exists>b. (b, x) \<in> S \<and> overwrites lib c gvk mode f b x d)"
    unfolding rec(3) using Cons.prems(2) by auto
  ultimately show ?case
    using rec(1,2) cs1(1) own by (auto simp: exI [of _ "cs1 @ cs2"])
qed simp

section \<open>A tree\<close>

lemma parent_rel_finite: "finite (parent_rel f)"
proof (rule finite_subset)
  show "parent_rel f \<subseteq> {..< length (f_heap f)} \<times> the ` (\<lambda>a. ns_parent (deref f a)) ` {..< length (f_heap f)}"
  proof
    fix x assume "x \<in> parent_rel f"
    then obtain a p where x: "x = (a, p)" "ns_parent (deref f a) = Some p" by (cases x) auto
    then have "a < length (f_heap f)" by (cases "a < length (f_heap f)") (simp_all add: deref_def newNamespace_def)
    then show "x \<in> {..< length (f_heap f)} \<times> the ` (\<lambda>a. ns_parent (deref f a)) ` {..< length (f_heap f)}"
      using x by (auto simp: image_image intro!: image_eqI [of _ _ a])
  qed
qed auto

text \<open>The namespaces under a root, with the children before their parents.\<close>

definition under_root :: "Forest \<Rightarrow> nsptr \<Rightarrow> (nsptr \<times> nsptr) set" where
  "under_root f r = {(b, a). ns_parent (deref f b) = Some a \<and> (a, r) \<in> (parent_rel f)\<^sup>*}"

lemma wf_under_root:
  assumes "ns_parent (deref f r) = None"
  shows "wf (under_root f r)"
proof (rule finite_acyclic_wf)
  show "finite (under_root f r)"
    by (rule finite_subset [OF _ parent_rel_finite [of f]]) (auto simp: under_root_def)
  show "acyclic (under_root f r)"
    unfolding acyclic_def
  proof (intro allI notI)
    fix x assume x: "(x, x) \<in> (under_root f r)\<^sup>+"
    have "(x, x) \<in> (parent_rel f)\<^sup>+"
      by (rule trancl_mono [OF x]) (auto simp: under_root_def)
    moreover have "(x, r) \<in> (parent_rel f)\<^sup>*"
      using x by (induction rule: converse_trancl_induct)
        (auto simp: under_root_def intro: converse_rtrancl_into_rtrancl)
    then have "acyclic_ns f x" by (rule root_above_acyclic [OF _ assms])
    ultimately show False using acyclic_ns_self [of f x] by (simp add: in_cycle_def)
  qed
qed

definition tree_conflict ::
  "SelectorLib \<Rightarrow> Config \<Rightarrow> GroupVersionKind \<Rightarrow> SynchronizationMode \<Rightarrow> Forest \<Rightarrow> (nsptr \<times> string) set \<Rightarrow> nsptr \<Rightarrow> bool" where
  "tree_conflict lib c gvk mode f S a \<longleftrightarrow> (\<exists>d b onm. registered f d \<and> (d, a) \<in> (parent_rel f)\<^sup>* \<and>
     HasSourceObject f d gvk onm \<and> overwrites lib c gvk mode f b onm d \<and> ((b, onm) \<in> S \<or> (d, b) \<in> (parent_rel f)\<^sup>+ \<and> (b, a) \<in> (parent_rel f)\<^sup>*))"

lemma tree_conflict_step:
  assumes "wf_forest f" "registered f a" "acyclic_ns f a"
  shows "tree_conflict lib c gvk mode f S a \<longleftrightarrow>
    (\<exists>onm b. HasSourceObject f a gvk onm \<and> (b, onm) \<in> S \<and> overwrites lib c gvk mode f b onm a) \<or>
    (\<exists>x. ns_parent (deref f x) = Some a \<and>
       tree_conflict lib c gvk mode f (S \<union> {(a, onm) | onm. HasSourceObject f a gvk onm}) x)" (is "?L \<longleftrightarrow> ?R")
proof
  assume ?L
  then obtain d b onm where d: "(d, a) \<in> (parent_rel f)\<^sup>*" "registered f d" "HasSourceObject f d gvk onm" "overwrites lib c gvk mode f b onm d"
    "(b, onm) \<in> S \<or> (d, b) \<in> (parent_rel f)\<^sup>+ \<and> (b, a) \<in> (parent_rel f)\<^sup>*"
    by (auto simp: tree_conflict_def)
  have nc: "(a, a) \<notin> (parent_rel f)\<^sup>+" using acyclic_ns_self [OF assms(3)] by (simp add: in_cycle_def)
  show ?R
  proof (cases "d = a")
    case True
    then have "(b, onm) \<in> S" using d(5) nc by (meson trancl_rtrancl_trancl)
    then show ?thesis using True d by blast
  next
    case False
    then obtain x where x: "(d, x) \<in> (parent_rel f)\<^sup>*" "ns_parent (deref f x) = Some a"
      using d(1) by (metis parent_rel_iff rtranclE)
    have "(b, x) \<in> (parent_rel f)\<^sup>* \<or> b = a" if b: "(d, b) \<in> (parent_rel f)\<^sup>+" "(b, a) \<in> (parent_rel f)\<^sup>*"
    proof -
      have "(b, x) \<in> (parent_rel f)\<^sup>* \<or> (x, b) \<in> (parent_rel f)\<^sup>*"
        using single_valued_confluent [OF single_valued_parent trancl_into_rtrancl [OF b(1)] x(1)] by blast
      moreover have "b = a" if "(x, b) \<in> (parent_rel f)\<^sup>+"
      proof -
        have "(a, b) \<in> (parent_rel f)\<^sup>*" using that x(2) by (simp add: trancl_parent)
        then show ?thesis using b(2) nc by (metis rtrancl_eq_or_trancl trancl_rtrancl_trancl)
      qed
      ultimately show ?thesis by (metis rtrancl.rtrancl_refl rtranclD)
    qed
    moreover have "HasSourceObject f b gvk onm" using d(4) by (auto simp: overwrites_def HasSourceObject_def)
    ultimately have "tree_conflict lib c gvk mode f (S \<union> {(a, onm) | onm. HasSourceObject f a gvk onm}) x"
      unfolding tree_conflict_def using d x(1) by blast
    then show ?thesis using x(2) by blast
  qed
next
  assume ?R
  then show ?L
  proof
    assume "\<exists>onm b. HasSourceObject f a gvk onm \<and> (b, onm) \<in> S \<and> overwrites lib c gvk mode f b onm a"
    then show ?L unfolding tree_conflict_def using assms(2) by blast
  next
    assume "\<exists>x. ns_parent (deref f x) = Some a \<and>
       tree_conflict lib c gvk mode f (S \<union> {(a, onm) | onm. HasSourceObject f a gvk onm}) x"
    then obtain x d b onm where x: "ns_parent (deref f x) = Some a" "(d, x) \<in> (parent_rel f)\<^sup>*"
      "registered f d" "HasSourceObject f d gvk onm" "overwrites lib c gvk mode f b onm d"
      "(b, onm) \<in> S \<or> b = a \<or> (d, b) \<in> (parent_rel f)\<^sup>+ \<and> (b, x) \<in> (parent_rel f)\<^sup>*"
      unfolding tree_conflict_def by blast
    have da: "(d, a) \<in> (parent_rel f)\<^sup>+" using x(1,2) by (metis parent_rel_iff rtrancl_into_trancl1)
    moreover have "(b, a) \<in> (parent_rel f)\<^sup>*" if "(b, x) \<in> (parent_rel f)\<^sup>*"
      using that x(1) by (metis parent_rel_iff rtrancl.rtrancl_into_rtrancl)
    ultimately show ?L
      unfolding tree_conflict_def using x(3-6) trancl_into_rtrancl [OF da] by blast
  qed
qed

lemma check_children:
  assumes "\<And>x stack conflicts. x \<in> set xs \<Longrightarrow> \<exists>cs. checkConflictsForTree lib c gvk mode ((ao, nm_of f x) # stack) conflicts f =
      checkConflictsForTree lib c gvk mode stack (conflicts @ cs) f \<and> (cs \<noteq> [] \<longleftrightarrow> P x)"
  shows "\<exists>cs. checkConflictsForTree lib c gvk mode (map (\<lambda>x. (ao, nm_of f x)) xs @ stack) conflicts f =
      checkConflictsForTree lib c gvk mode stack (conflicts @ cs) f \<and> (cs \<noteq> [] \<longleftrightarrow> (\<exists>x \<in> set xs. P x))"
  using assms
proof (induction xs arbitrary: conflicts)
  case (Cons x xs)
  obtain cs1 where cs1: "checkConflictsForTree lib c gvk mode ((ao, nm_of f x) # map (\<lambda>x. (ao, nm_of f x)) xs @ stack) conflicts f =
      checkConflictsForTree lib c gvk mode (map (\<lambda>x. (ao, nm_of f x)) xs @ stack) (conflicts @ cs1) f" "cs1 \<noteq> [] \<longleftrightarrow> P x"
    using Cons.prems [of x] by auto
  obtain cs2 where "checkConflictsForTree lib c gvk mode (map (\<lambda>x. (ao, nm_of f x)) xs @ stack) (conflicts @ cs1) f =
      checkConflictsForTree lib c gvk mode stack ((conflicts @ cs1) @ cs2) f" "cs2 \<noteq> [] \<longleftrightarrow> (\<exists>x \<in> set xs. P x)"
    using Cons.IH [of "conflicts @ cs1"] Cons.prems by auto
  then show ?case
    using cs1 by (intro exI [of _ "cs1 @ cs2"]) auto
qed simp

lemma children_ptrs:
  assumes "wf_forest f" "registered f a"
  shows "\<exists>xs. ChildNames f a = map (nm_of f) xs \<and> set xs = {x. registered f x \<and> ns_parent (deref f x) = Some a}"
proof (intro exI conjI)
  let ?xs = "map (\<lambda>k. the (map_of (ns_children (deref f a)) k)) (ChildNames f a)"
  have k: "\<exists>x. map_of (ns_children (deref f a)) k = Some x \<and> registered f x \<and> nm_of f x = k \<and> ns_parent (deref f x) = Some a"
    if "k \<in> set (ChildNames f a)" for k
  proof (cases "map_of (ns_children (deref f a)) k")
    case None
    then show ?thesis using that by (simp add: set_ChildNames map_of_eq_None_iff)
  next
    case (Some x)
    then show ?thesis using registered_child [OF assms Some] by simp
  qed
  have "nm_of f (the (map_of (ns_children (deref f a)) k)) = k" if "k \<in> set (ChildNames f a)" for k
    using k [OF that] by auto
  then show "ChildNames f a = map (nm_of f) ?xs"
    by (simp add: comp_def map_idI)
  show "set ?xs = {x. registered f x \<and> ns_parent (deref f x) = Some a}"
  proof (intro equalityI subsetI)
    fix x assume "x \<in> {x. registered f x \<and> ns_parent (deref f x) = Some a}"
    then have x: "map_of (ns_children (deref f a)) (nm_of f x) = Some x"
      using registered_parent [OF assms(1)] by auto
    then have "nm_of f x \<in> set (ChildNames f a)"
      using map_of_SomeD [OF x] by (force simp: set_ChildNames)
    then have "the (map_of (ns_children (deref f a)) (nm_of f x)) \<in> set ?xs"
      unfolding set_map by (rule imageI)
    then show "x \<in> set ?xs" using x by simp
  next
    fix x assume "x \<in> set ?xs"
    then obtain y where "y \<in> set (ChildNames f a)" "x = the (map_of (ns_children (deref f a)) y)" by auto
    then show "x \<in> {x. registered f x \<and> ns_parent (deref f x) = Some a}" using k [of y] by auto
  qed
qed

lemma check_subtree:
  assumes "wf_forest f" "sources_ok lib f" "ns_parent (deref f r) = None" "registered f a" "(a, r) \<in> (parent_rel f)\<^sup>*"
    and "ao_is f gvk ao S" "\<forall>(b, onm) \<in> S. (a, b) \<in> (parent_rel f)\<^sup>+"
  shows "\<exists>cs. checkConflictsForTree lib c gvk mode ((ao, nm_of f a) # stack) conflicts f =
      checkConflictsForTree lib c gvk mode stack (conflicts @ cs) f \<and> (cs \<noteq> [] \<longleftrightarrow> tree_conflict lib c gvk mode f S a)"
  using assms(4-)
proof (induction a arbitrary: ao S stack conflicts rule: wf_induct_rule [OF wf_under_root [OF assms(3)]])
  case (1 a)
  have ac: "acyclic_ns f a" by (rule root_above_acyclic [OF 1(3) assms(3)])
  then have new: "(a, onm) \<notin> S" for onm
    using 1(5) acyclic_ns_self [of f a] by (auto simp: in_cycle_def)
  let ?onms = "keys (objs_of f a gvk)"
  have onms: "set ?onms = {onm. HasSourceObject f a gvk onm}"
    by (auto simp: HasSourceObject_def GetSourceObject_def map_of_eq_None_iff)
  have pre: "\<forall>onm \<in> set ?onms. HasSourceObject f a gvk onm \<and> (a, onm) \<notin> S"
    using onms new by blast
  obtain cs1 ao' where ns: "namespace_conflicts lib c gvk mode a (GetSourceNames f a gvk) ao conflicts f =
      Some (ao', conflicts @ cs1, f)" "ao_is f gvk ao' (S \<union> {a} \<times> set ?onms)"
      "cs1 \<noteq> [] \<longleftrightarrow> (\<exists>onm \<in> set ?onms. \<exists>b. (b, onm) \<in> S \<and> overwrites lib c gvk mode f b onm a)"
    using namespace_conflicts_eq [OF assms(1,2) 1(2,4) objs_of_distinct [OF assms(2), of a gvk] pre, of c mode conflicts]
    unfolding GetSourceNames_eq [OF assms(2)] by blast
  obtain xs where xs: "ChildNames f a = map (nm_of f) xs" "set xs = {x. registered f x \<and> ns_parent (deref f x) = Some a}"
    using children_ptrs [OF assms(1) 1(2)] by blast
  let ?S = "S \<union> {(a, onm) | onm. HasSourceObject f a gvk onm}"
  have S: "S \<union> {a} \<times> set ?onms = ?S" using onms by auto
  have "\<exists>cs. checkConflictsForTree lib c gvk mode ((ao', nm_of f x) # stack) conflicts f =
      checkConflictsForTree lib c gvk mode stack (conflicts @ cs) f \<and> (cs \<noteq> [] \<longleftrightarrow> tree_conflict lib c gvk mode f ?S x)"
    if "x \<in> set xs" for x stack conflicts
  proof (rule 1(1))
    have x: "registered f x" "ns_parent (deref f x) = Some a" using that xs(2) by auto
    then show "(x, a) \<in> under_root f r" "(x, r) \<in> (parent_rel f)\<^sup>*"
      using 1(3) by (auto simp: under_root_def intro: converse_rtrancl_into_rtrancl)
    show "\<forall>(b, onm) \<in> ?S. (x, b) \<in> (parent_rel f)\<^sup>+"
      using 1(5) x(2) by (auto intro: trancl_into_trancl2)
  qed (use ns(2) S that xs(2) in auto)
  from check_children [of xs, OF this] obtain cs2 where
    cs2: "checkConflictsForTree lib c gvk mode (map (\<lambda>x. (ao', nm_of f x)) xs @ stack) (conflicts @ cs1) f =
      checkConflictsForTree lib c gvk mode stack ((conflicts @ cs1) @ cs2) f"
    "cs2 \<noteq> [] \<longleftrightarrow> (\<exists>x \<in> set xs. tree_conflict lib c gvk mode f ?S x)" by blast
  have "checkConflictsForTree lib c gvk mode ((ao, nm_of f a) # stack) conflicts f =
      checkConflictsForTree lib c gvk mode stack (conflicts @ (cs1 @ cs2)) f"
    using cs2(1) by (subst checkConflictsForTree.simps)
      (simp add: GetP_registered [OF assms(1) 1(2)] ns(1) xs(1) comp_def)
  moreover have "cs1 @ cs2 \<noteq> [] \<longleftrightarrow> tree_conflict lib c gvk mode f S a"
  proof -
    have "registered f x" if "tree_conflict lib c gvk mode f ?S x" for x
      using that registered_rtrancl [OF _ assms(1)] by (auto simp: tree_conflict_def)
    then have "cs2 \<noteq> [] \<longleftrightarrow> (\<exists>x. ns_parent (deref f x) = Some a \<and> tree_conflict lib c gvk mode f ?S x)"
      unfolding cs2(2) xs(2) by blast
    moreover have "cs1 \<noteq> [] \<longleftrightarrow> (\<exists>onm b. HasSourceObject f a gvk onm \<and> (b, onm) \<in> S \<and> overwrites lib c gvk mode f b onm a)"
      unfolding ns(3) onms by blast
    ultimately show ?thesis
      unfolding tree_conflict_step [OF assms(1) 1(2) ac] by (simp only: append_is_Nil_conv de_Morgan_conj)
  qed
  ultimately show ?case by blast
qed

section \<open>All trees\<close>

lemma set_GetRoots:
  assumes "wf_forest f"
  shows "set (GetRoots f) = {a. registered f a \<and> ns_parent (deref f a) = None}"
proof -
  have "fold (\<lambda>(nm, ns) nses. if ns_parent (deref f ns) = None then nses @ [ns] else nses) m acc =
      acc @ filter (\<lambda>a. ns_parent (deref f a) = None) (map snd m)"
    for m :: "(string, nsptr) gomap" and acc
    by (induction m arbitrary: acc) auto
  then have "set (GetRoots f) = {a \<in> snd ` set (f_namespaces f). ns_parent (deref f a) = None}"
    by (simp add: GetRoots_def)
  moreover have "a \<in> snd ` set (f_namespaces f) \<longleftrightarrow> registered f a" for a
  proof
    assume "registered f a"
    then show "a \<in> snd ` set (f_namespaces f)" by (auto simp: registered_def dest!: map_of_SomeD intro: rev_image_eqI)
  next
    assume "a \<in> snd ` set (f_namespaces f)"
    then obtain nm where "map_of (f_namespaces f) nm = Some a" using wf_distinct [OF assms] by auto
    then show "registered f a" by (rule wf_lookup_registered [OF assms])
  qed
  ultimately show ?thesis by simp
qed

lemma acyclic_root:
  assumes "wf_forest f" "registered f d" "acyclic_ns f d"
  shows "\<exists>r. (d, r) \<in> (parent_rel f)\<^sup>* \<and> ns_parent (deref f r) = None \<and> registered f r"
  using assms
proof (induction rule: acyclic_ns_induct)
  case (step a)
  show ?case
  proof (cases "ns_parent (deref f a)")
    case None
    then show ?thesis using step.hyps by blast
  next
    case (Some p)
    then show ?thesis
      using step.IH [OF Some] registered_parent [OF assms(1) step.hyps(1) Some] acyclic_ns_parent [OF step.hyps(2) Some]
      by (meson converse_rtrancl_into_rtrancl parent_rel_iff)
  qed
qed

lemma checkConflictsForGVK_exact:
  assumes "wf_forest f" "sources_ok lib f"
  shows "\<exists>cs. checkConflictsForGVK lib c gvk mode f = Some (cs, f) \<and> (cs \<noteq> [] \<longleftrightarrow>
    (\<exists>d b onm. registered f d \<and> acyclic_ns f d \<and> (d, b) \<in> (parent_rel f)\<^sup>+ \<and> HasSourceObject f d gvk onm \<and>
       overwrites lib c gvk mode f b onm d))"
proof -
  have ao: "ao_is f gvk [] {}" by (simp add: ao_is_def)
  obtain cs where cs: "checkConflictsForTree lib c gvk mode (map (\<lambda>x. ([], nm_of f x)) (GetRoots f) @ []) [] f =
      checkConflictsForTree lib c gvk mode [] ([] @ cs) f" "cs \<noteq> [] \<longleftrightarrow> (\<exists>x \<in> set (GetRoots f). tree_conflict lib c gvk mode f {} x)"
    using check_children [of "GetRoots f" lib c gvk mode "[]" f "tree_conflict lib c gvk mode f {}" "[]" "[]"]
      check_subtree [OF assms _ _ _ ao] set_GetRoots [OF assms(1)] by force
  have "(\<exists>x \<in> set (GetRoots f). tree_conflict lib c gvk mode f {} x) \<longleftrightarrow>
    (\<exists>d b onm. registered f d \<and> acyclic_ns f d \<and> (d, b) \<in> (parent_rel f)\<^sup>+ \<and> HasSourceObject f d gvk onm \<and>
       overwrites lib c gvk mode f b onm d)" (is "?L \<longleftrightarrow> ?R")
  proof
    assume ?L
    then obtain r d b onm where "ns_parent (deref f r) = None" "registered f d" "(d, r) \<in> (parent_rel f)\<^sup>*"
      "HasSourceObject f d gvk onm" "overwrites lib c gvk mode f b onm d" "(d, b) \<in> (parent_rel f)\<^sup>+"
      unfolding tree_conflict_def set_GetRoots [OF assms(1)] by blast
    then show ?R using root_above_acyclic [of d r f] by blast
  next
    assume ?R
    then obtain d b onm where d: "registered f d" "acyclic_ns f d" "(d, b) \<in> (parent_rel f)\<^sup>+" "HasSourceObject f d gvk onm"
       "overwrites lib c gvk mode f b onm d" by blast
    then obtain r where r: "(d, r) \<in> (parent_rel f)\<^sup>*" "ns_parent (deref f r) = None" "registered f r"
      using acyclic_root [OF assms(1)] by blast
    have "(b, r) \<in> (parent_rel f)\<^sup>*"
      using single_valued_confluent [OF single_valued_parent r(1) trancl_into_rtrancl [OF d(3)]] r(2) rtrancl_parent [of r b f] by auto
    then show ?L unfolding tree_conflict_def set_GetRoots [OF assms(1)] using d r by blast
  qed
  then show ?thesis
    using cs by (simp add: checkConflictsForGVK_def checkConflictsForTree.simps [of _ _ _ _ "[]"])
qed

end
