(* ===== verification/Config_Properties.thy ===== *)
theory Config_Properties
  imports Propagation_Properties Config_Types Config_Conflicts
begin

text \<open>
  The properties of the configuration: which mode a kind gets, that the webhook and the reconciler agree
  on what is a good configuration, and what the search for conflicts reports.
\<close>

section \<open>Example\<close>

text \<open>A mapper that knows roles and secrets, and maps role bindings to their kind.\<close>

definition ex_mapper :: RESTMapper where
  "ex_mapper = \<lparr>rm_KindsFor = (\<lambda>gr. if gr_resource gr = ''roles''
         then Inr [\<lparr>gvk_group = RBACGroup, gvk_version = ''v1'', gvk_kind = ''Role''\<rparr>]
       else if gr_resource gr = ''rolebindings'' then Inr [ex_gvk]
       else if gr_resource gr = ''secrets'' then Inr [\<lparr>gvk_group = '''', gvk_version = ''v1'', gvk_kind = ''Secret''\<rparr>]
       else Inl (NoMatchError ''no matches'')),
     rm_Namespaced = (\<lambda>gk. Inr True)\<rparr>"

definition ex_hnc :: "ResourceSpec list \<Rightarrow> HNCConfiguration" where
  "ex_hnc rs = \<lparr>cfg_name = HNCConfigSingleton, cfg_creationTimestamp = 1, cfg_resources = rs, cfg_status = [], cfg_conditions = []\<rparr>"

definition ex_spec :: "SynchronizationMode \<Rightarrow> ResourceSpec" where
  "ex_spec mode = \<lparr>rs_group = '''', rs_resource = ''secrets'', rs_mode = mode\<rparr>"

definition ex_config_env :: ConfigEnv where
  "ex_config_env = \<lparr>ce_obj = ex_obj_env, ce_activeGVKMode = [], ce_activeGR = []\<rparr>"

section \<open>Modes\<close>

text \<open>
  Reconciling the configured types without an error makes active exactly the kinds that an enforced
  type or an entry of the spec maps to, and the mode of a kind is that of the first such entry, where the enforced
  types come before the spec. So no entry of the spec overrides an enforced type, and the first of
  several entries for a kind wins.
\<close>

theorem reconcileTypes_first_wins:
  assumes "reconcileTypes now m inst e = (None, inst', e')"
  shows "active_mode e' gvk = map_option rs_mode (find (maps_to m gvk) (EnforcedTypes @ cfg_resources inst))"
  by (rule reconcileTypes_modes [OF assms])

theorem reconcileTypes_first_wins_witness:
  "\<exists>inst' e'. reconcileTypes 7 ex_mapper (ex_hnc [ex_spec Remove, ex_spec Propagate]) ex_config_env = (None, inst', e') \<and>
     active_mode e' \<lparr>gvk_group = '''', gvk_version = ''v1'', gvk_kind = ''Secret''\<rparr> = Some Remove"
proof -
  let ?r = "reconcileTypes 7 ex_mapper (ex_hnc [ex_spec Remove, ex_spec Propagate]) ex_config_env"
  have "fst ?r = None" by code_simp
  then obtain inst' e' where r: "?r = (None, inst', e')" by (cases ?r) auto
  have "map_option rs_mode (find (maps_to ex_mapper \<lparr>gvk_group = '''', gvk_version = ''v1'', gvk_kind = ''Secret''\<rparr>)
      (EnforcedTypes @ cfg_resources (ex_hnc [ex_spec Remove, ex_spec Propagate]))) = Some Remove" by code_simp
  then show ?thesis
    using r reconcileTypes_first_wins [OF r, of "\<lparr>gvk_group = '''', gvk_version = ''v1'', gvk_kind = ''Secret''\<rparr>"] by metis
qed

text \<open>
  C26: the webhook and the reconciler agree. When the enforced types resolve, the validator accepts the
  types of a configuration exactly when the reconciler sets no condition on them, although the one looks for
  duplicates in the set of kinds it has seen and the other in the kinds that are active.
\<close>

theorem validateTypes_agrees_reconcileTypes:
  assumes "fst (ensureEnforcedTypes now m inst (e\<lparr>ce_activeGVKMode := [], ce_activeGR := []\<rparr>)) = None"
    and "cfg_conditions inst = []"
  shows "Allowed (snd (validateTypes m inst)) \<longleftrightarrow> cfg_conditions (fst (snd (reconcileTypes now m inst e))) = []"
proof -
  obtain inst' e1 where "ensureEnforcedTypes now m inst (e\<lparr>ce_activeGVKMode := [], ce_activeGR := []\<rparr>) = (None, inst', e1)"
    using assms(1) by (metis prod.collapse)
  then show ?thesis using assms(2) by (rule validator_agrees)
qed

theorem validateTypes_agrees_reconcileTypes_witness:
  "\<not> Allowed (snd (validateTypes ex_mapper (ex_hnc [ex_spec Remove, ex_spec Propagate]))) \<and>
   Allowed (snd (validateTypes ex_mapper (ex_hnc [ex_spec Remove])))"
proof
  have "fst (ensureEnforcedTypes 7 ex_mapper (ex_hnc [ex_spec Remove, ex_spec Propagate])
      (ex_config_env\<lparr>ce_activeGVKMode := [], ce_activeGR := []\<rparr>)) = None"
    "cfg_conditions (ex_hnc [ex_spec Remove, ex_spec Propagate]) = []"
    "cfg_conditions (fst (snd (reconcileTypes 7 ex_mapper (ex_hnc [ex_spec Remove, ex_spec Propagate]) ex_config_env))) \<noteq> []"
    by code_simp+
  then show "\<not> Allowed (snd (validateTypes ex_mapper (ex_hnc [ex_spec Remove, ex_spec Propagate])))"
    using validateTypes_agrees_reconcileTypes by blast
  have "fst (ensureEnforcedTypes 7 ex_mapper (ex_hnc [ex_spec Remove])
      (ex_config_env\<lparr>ce_activeGVKMode := [], ce_activeGR := []\<rparr>)) = None" "cfg_conditions (ex_hnc [ex_spec Remove]) = []"
    "cfg_conditions (fst (snd (reconcileTypes 7 ex_mapper (ex_hnc [ex_spec Remove]) ex_config_env))) = []"
    by code_simp+
  then show "Allowed (snd (validateTypes ex_mapper (ex_hnc [ex_spec Remove])))"
    using validateTypes_agrees_reconcileTypes by blast
qed

section \<open>Conflicts\<close>

text \<open>
  C21: the search for conflicts of a kind, which recurses over the children of every root without a guard
  against cycles, returns on every well-formed forest, cycles included, and changes nothing. It
  reports a conflict exactly when some namespace that is not below a cycle has a source of the same
  name as a proper ancestor, and the selectors let the source of that ancestor propagate to it.
\<close>

theorem checkConflictsForGVK_complete:
  assumes "wf_forest f" "sources_ok lib f"
  shows "\<exists>cs. checkConflictsForGVK lib c gvk mode f = Some (cs, f) \<and> (cs \<noteq> [] \<longleftrightarrow>
    (\<exists>d b onm src. registered f d \<and> acyclic_ns f d \<and> (d, b) \<in> (parent_rel f)\<^sup>+ \<and> HasSourceObject f d gvk onm \<and>
       GetSourceObject f b gvk onm = Some src \<and> ShouldPropagate lib c src (GetLabels f d) mode = Some (True, None)))"
  using checkConflictsForGVK_exact [OF assms, of c gvk mode] by (simp add: overwrites_def)

theorem checkConflictsForGVK_complete_witness:
  "\<exists>cs. checkConflictsForGVK ex_lib ex_config ex_gvk Propagate (SetSourceObject 1 (ex_source\<lparr>obj_namespace := ''b''\<rparr>) ex_objects) =
     Some (cs, SetSourceObject 1 (ex_source\<lparr>obj_namespace := ''b''\<rparr>) ex_objects) \<and> cs \<noteq> []"
proof -
  let ?f = "SetSourceObject 1 (ex_source\<lparr>obj_namespace := ''b''\<rparr>) ex_objects"
  have w: "wf_forest ?f" "sources_ok ex_lib ?f" "registered ?f 1" by code_simp+
  have "acyclic_forest ?f" by (rule acyclic_forest_check [OF w(1)]) code_simp
  then have "acyclic_ns ?f 1" using acyclic_forest_ns w(1,3) by blast
  moreover have "ns_parent (deref ?f 1) = Some 0" by code_simp
  then have "(1, 0) \<in> (parent_rel ?f)\<^sup>+" by (simp add: r_into_trancl')
  moreover have "HasSourceObject ?f 1 ex_gvk ''admins''" "GetSourceObject ?f 0 ex_gvk ''admins'' = Some ex_source"
    "ShouldPropagate ex_lib ex_config ex_source (GetLabels ?f 1) Propagate = Some (True, None)" by code_simp+
  ultimately show ?thesis
    using checkConflictsForGVK_complete [OF w(1,2), of ex_config ex_gvk Propagate] w(3) by blast
qed

end
