(* ===== verification/Anchors.thy ===== *)
theory Anchors
  imports Config Quotas
begin

text \<open>
  Subnamespace anchors: the reconciler \<^verbatim>\<open>internal/anchor/reconciler.go\<close> and the
  validator \<^verbatim>\<open>internal/anchor/validator.go\<close>.

  The reconciler reads the anchor, the namespace it stands for and the definition of the anchor
  resource; its writes go through \<open>wr\<close>, which gives the error of a write, if any. \<open>None\<close> is a
  nil dereference.
\<close>

datatype AnchorWrite =
  CreateAnchor SubnamespaceAnchor | UpdateAnchor SubnamespaceAnchor
| CreateNamespace NamespaceInst | DeleteNamespace NamespaceInst

record AnchorReads =
  ard_anchor :: "SubnamespaceAnchor read"
  ard_namespace :: "NamespaceInst read"
  ard_CRD :: "Time read"

definition blank_ns :: NamespaceInst where
  "blank_ns = \<lparr>nsi_name = '''', nsi_labels = None, nsi_annotations = None, nsi_deletionTimestamp = 0\<rparr>"

section \<open>The reconciler\<close>

abbreviation has_finalizer :: "SubnamespaceAnchor \<Rightarrow> bool" where
  "has_finalizer inst \<equiv> MetaGroup \<in> set (an_finalizers inst)"

definition AddFinalizer :: "SubnamespaceAnchor \<Rightarrow> SubnamespaceAnchor" where
  "AddFinalizer inst = (if has_finalizer inst then inst else inst\<lparr>an_finalizers := an_finalizers inst @ [MetaGroup]\<rparr>)"

definition RemoveFinalizer :: "SubnamespaceAnchor \<Rightarrow> SubnamespaceAnchor" where
  "RemoveFinalizer inst = inst\<lparr>an_finalizers := removeAll MetaGroup (an_finalizers inst)\<rparr>"

definition updateState :: "SubnamespaceAnchor \<Rightarrow> NamespaceInst \<Rightarrow> SubnamespaceAnchor" where
  "updateState inst snsInst =
     (let pnm = an_namespace inst; sOf = get_str (nil_map (nsi_annotations snsInst)) SubnamespaceOf in
      if nsi_name snsInst = '''' then inst\<lparr>an_state := Missing\<rparr>
      else if sOf \<noteq> pnm then inst\<lparr>an_state := Conflict\<rparr>
      else inst\<lparr>an_state := Ok\<rparr>)"

definition shouldDeleteSubns ::
  "SubnamespaceAnchor \<Rightarrow> NamespaceInst \<Rightarrow> bool \<Rightarrow> Forest \<Rightarrow> (bool \<times> Forest) option" where
  "shouldDeleteSubns inst nsInst deletingCRD f =
     (if deletingCRD then Some (False, f)
      else (case an_state inst of
          Ok \<Rightarrow>
            if \<not> IsZero (nsi_deletionTimestamp nsInst) then Some (False, f)
            else if \<not> has_finalizer inst then Some (False, f)
            else do {
              (cns, f) \<leftarrow> GetP (an_name inst) f;
              if ChildNames f cns \<noteq> [] \<and> \<not> AllowsCascadingDeletion f cns then Some (False, f)
              else Some (True, f) }
        | _ \<Rightarrow> Some (False, f)))"

definition shouldFinalizeAnchor :: "SubnamespaceAnchor \<Rightarrow> NamespaceInst \<Rightarrow> bool" where
  "shouldFinalizeAnchor inst snsInst =
     (if \<not> has_finalizer inst then False
      else (case an_state inst of
          Ok \<Rightarrow> IsZero (nsi_deletionTimestamp snsInst)
        | _ \<Rightarrow> True))"

definition writeInstance :: "(AnchorWrite \<Rightarrow> string option) \<Rightarrow> SubnamespaceAnchor \<Rightarrow> AnchorWrite list \<times> string option" where
  "writeInstance wr inst =
     (let w = (if IsZero (an_creationTimestamp inst) then CreateAnchor inst else UpdateAnchor inst) in ([w], wr w))"

definition writeNamespace_anchor :: "(AnchorWrite \<Rightarrow> string option) \<Rightarrow> string \<Rightarrow> string \<Rightarrow> AnchorWrite list \<times> string option" where
  "writeNamespace_anchor wr nm pnm =
     (let w = CreateNamespace (SetAnnotation_ns (blank_ns\<lparr>nsi_name := nm\<rparr>) SubnamespaceOf pnm) in ([w], wr w))"

definition deleteNamespace :: "(AnchorWrite \<Rightarrow> string option) \<Rightarrow> NamespaceInst \<Rightarrow> AnchorWrite list \<times> string option" where
  "deleteNamespace wr inst = ([DeleteNamespace inst], wr (DeleteNamespace inst))"

definition onDeleting ::
  "AnchorReads \<Rightarrow> (AnchorWrite \<Rightarrow> string option) \<Rightarrow> SubnamespaceAnchor \<Rightarrow> NamespaceInst \<Rightarrow> Forest \<Rightarrow>
   (AnchorWrite list \<times> string option \<times> Forest) option" where
  "onDeleting rd wr inst snsInst f =
     (case IsDeletingCRD (ard_CRD rd) of
        Inl err \<Rightarrow> Some ([], Some err, f)
      | Inr deletingCRD \<Rightarrow> do {
          (del, f) \<leftarrow> shouldDeleteSubns inst snsInst deletingCRD f;
          let (ws, err) = (if del then deleteNamespace wr snsInst
                           else if shouldFinalizeAnchor inst snsInst then writeInstance wr (RemoveFinalizer inst)
                           else ([], None));
          Some (ws, err, f) })"

text \<open>\<^verbatim>\<open>getNamespace\<close> gives a blank namespace for one that is not there.\<close>

definition getNamespace_anchor :: "AnchorReads \<Rightarrow> string + NamespaceInst" where
  "getNamespace_anchor rd = (case ard_namespace rd of
       Found ns \<Rightarrow> Inr ns | NotFound \<Rightarrow> Inr blank_ns | ReadError err \<Rightarrow> Inl err)"

definition Reconcile_anchor ::
  "Config \<Rightarrow> AnchorReads \<Rightarrow> (AnchorWrite \<Rightarrow> string option) \<Rightarrow> string \<Rightarrow> string \<Rightarrow> Forest \<Rightarrow>
   (AnchorWrite list \<times> string option \<times> Forest) option" where
  "Reconcile_anchor c rd wr pnm nm f =
     (case ard_anchor rd of
        NotFound \<Rightarrow> Some ([], None, f)
      | ReadError err \<Rightarrow> Some ([], Some err, f)
      | Found inst \<Rightarrow>
          if WhyUnmanaged c pnm \<noteq> '''' then
            (if has_finalizer inst
             then (case writeInstance wr (RemoveFinalizer inst) of (ws, err) \<Rightarrow> Some (ws, err, f))
             else Some ([], None, f))
          else if WhyUnmanaged c nm \<noteq> '''' then
            (if an_state inst \<noteq> Forbidden \<or> has_finalizer inst
             then (case writeInstance wr (RemoveFinalizer (inst\<lparr>an_state := Forbidden\<rparr>)) of (ws, err) \<Rightarrow> Some (ws, err, f))
             else Some ([], None, f))
          else (case getNamespace_anchor rd of
              Inl err \<Rightarrow> Some ([], Some err, f)
            | Inr snsInst \<Rightarrow>
                (let inst = updateState inst snsInst in
                 if \<not> IsZero (an_deletionTimestamp inst) then onDeleting rd wr inst snsInst f
                 else (let inst = AddFinalizer inst in
                   if an_state inst = Missing then
                     (case writeNamespace_anchor wr nm pnm of
                        (ws, Some err) \<Rightarrow> Some (ws @ fst (writeInstance wr inst), Some err, f)
                      | (ws, None) \<Rightarrow> (case writeInstance wr inst of (ws', err) \<Rightarrow> Some (ws @ ws', err, f)))
                   else (case writeInstance wr inst of (ws, err) \<Rightarrow> Some (ws, err, f))))))"

text \<open>The name and the namespace of the anchor that \<^verbatim>\<open>OnChangeNamespace\<close> enqueues.\<close>

definition OnChangeNamespace_anchor :: "Forest \<Rightarrow> nsptr option \<Rightarrow> (string \<times> string) option" where
  "OnChangeNamespace_anchor f ns = (case ns of
       None \<Rightarrow> None
     | Some a \<Rightarrow> if \<not> ns_IsSub (deref f a) then None
         else Some (ns_name (deref f a), Name f (ns_parent (deref f a))))"

section \<open>The validator\<close>

text \<open>\<open>isDNS\<close> is \<^verbatim>\<open>validation.IsDNS1123Label\<close>.\<close>

definition show_errors :: "FieldError list \<Rightarrow> string" where
  "show_errors errs = Join (map (\<lambda>e. fe_field e @ '': Invalid value: '' @ quote (fe_value e) @ '': '' @ fe_detail e) errs) '', ''"

definition handle_anchor ::
  "K8sValidation \<Rightarrow> (string \<Rightarrow> string list) \<Rightarrow> Config \<Rightarrow> SubnamespaceAnchor \<Rightarrow> Operation \<Rightarrow> Forest \<Rightarrow> (Response \<times> Forest) option" where
  "handle_anchor kv isDNS c anchor op f =
     (let pnm = an_namespace anchor; cnm = an_name anchor; (cns, f) = Get cnm f;
          allErrs = ValidateManagedLabels kv c (an_labels anchor) @ ValidateManagedAnnotations kv c (an_annotations anchor)
      in if op \<noteq> Delete \<and> length (isDNS cnm) \<noteq> 0
         then Some (DenyInvalid (show_errors [\<lparr>fe_field = ''metadata.name'', fe_value = cnm,
                fe_detail = ''not a valid namespace name: '' @ Join (isDNS cnm) ''; ''\<rparr>]), f)
         else if length allErrs > 0 then Some (DenyInvalid (show_errors allErrs), f)
         else (case op of
             Create \<Rightarrow>
               if WhyUnmanaged c pnm \<noteq> ''''
               then Some (DenyForbidden (''cannot create a subnamespace in the unmanaged namespace '' @ quote pnm @
                      '' ('' @ WhyUnmanaged c pnm @ '')''), f)
               else if WhyUnmanaged c cnm \<noteq> ''''
               then Some (DenyForbidden (''cannot create a subnamespace using the unmanaged namespace name '' @ quote cnm @
                      '' ('' @ WhyUnmanaged c cnm @ '')''), f)
               else do {
                 a \<leftarrow> cns;
                 if Exists f a \<and> \<not> (Name f (Parent f cns) = pnm \<and> ns_IsSub (deref f a))
                 then Some (DenyConflict ''cannot create a subnamespace using an existing namespace'', f)
                 else Some (Allow '''', f) }
           | Delete \<Rightarrow>
               if an_state anchor = Ok then do {
                 a \<leftarrow> cns;
                 if ChildNames f a \<noteq> [] \<and> \<not> AllowsCascadingDeletion f a
                 then Some (DenyForbidden (''subnamespace '' @ cnm @
                   '' is not a leaf and doesn't allow cascading deletion. Please set allowCascadingDeletion flag or make it a leaf first''), f)
                 else Some (Allow '''', f) }
               else Some (Allow '''', f)
           | _ \<Rightarrow> Some (Allow '''', f)))"

text \<open>\<open>new\<close> and \<open>old\<close> are the outcomes of decoding the two objects of the request.\<close>

definition decodeRequest_anchor :: "Operation \<Rightarrow> string + SubnamespaceAnchor \<Rightarrow> string + SubnamespaceAnchor \<Rightarrow> string + SubnamespaceAnchor" where
  "decodeRequest_anchor op new old = (if op = Delete then old else new)"

definition Handle_anchor ::
  "K8sValidation \<Rightarrow> (string \<Rightarrow> string list) \<Rightarrow> Config \<Rightarrow> string list \<Rightarrow> Operation \<Rightarrow> string + SubnamespaceAnchor \<Rightarrow>
   string + SubnamespaceAnchor \<Rightarrow> Forest \<Rightarrow> (Response \<times> Forest) option" where
  "Handle_anchor kv isDNS c groups op new old f =
     (if IsHNCServiceAccount c (Some groups) then Some (Allow ''HNC SA'', f)
      else (case decodeRequest_anchor op new old of
          Inl err \<Rightarrow> Some (DenyBadRequest err, f)
        | Inr anchor \<Rightarrow> handle_anchor kv isDNS c anchor op f))"

end
