(* ===== verification/HierarchyValidator.thy ===== *)
theory HierarchyValidator
  imports Selectors ObjectsReconciler Anchors
begin

text \<open>
  The validator of hierarchy configurations, \<^verbatim>\<open>internal/hierarchyconfig/validator.go\<close>.

  The checks that run on the API server after the forest is unlocked go through \<open>ServerClient\<close>: the
  existence of a namespace and the subject access review. \<open>None\<close> is a nil dereference, an index out of
  range or a walk that never ends.
\<close>

record UserInfo =
  ui_Username :: string
  ui_Groups :: "string list"

record ServerClient =
  srv_Exists :: "string \<Rightarrow> string + bool"
  srv_IsAdmin :: "UserInfo \<Rightarrow> string \<Rightarrow> string + bool"

datatype serverCheckType = checkAuthz | checkMissing

record serverCheck =
  sc_nnm :: string
  sc_checkType :: serverCheckType
  sc_reason :: string

section \<open>Checks on the namespace and its parents\<close>

definition checkNS :: "Forest \<Rightarrow> nsptr \<Rightarrow> Response option" where
  "checkNS f ns =
     (if \<not> Exists f ns
      then Some (DenyServiceUnavailable (''HNC has not reconciled namespace '' @ quote (ns_name (deref f ns)) @
             '' yet - please try again in a few moments.''))
      else do {
        haltedRoot \<leftarrow> GetHaltedRoot f (Some ns);
        if haltedRoot \<noteq> '''' \<and> haltedRoot \<noteq> ns_name (deref f ns)
        then Some (DenyForbidden (''ancestor '' @ quote haltedRoot @ '' of namespace '' @ quote (ns_name (deref f ns)) @
               '' has a critical condition, which must be resolved before any changes can be made to the hierarchy configuration''))
        else Some (Allow '''') })"

text \<open>The sources of the new ancestors that may be propagated; the object of a listed name is there.\<close>

fun ancestor_objs_loop ::
  "SelectorLib \<Rightarrow> Config \<Rightarrow> GroupVersionKind \<Rightarrow> SynchronizationMode \<Rightarrow> NamespacedName list \<Rightarrow> (string, bool) gomap \<Rightarrow> Forest \<Rightarrow>
   ((string, bool) gomap \<times> Forest) option" where
  "ancestor_objs_loop lib c gvk mode [] newAnsSrcObjs f = Some (newAnsSrcObjs, f)"
| "ancestor_objs_loop lib c gvk mode (nnm # nnms) newAnsSrcObjs f = do {
     (ns, f) \<leftarrow> GetP (nnm_namespace nnm) f;
     obj \<leftarrow> GetSourceObject f ns gvk (nnm_name nnm);
     (ok, err) \<leftarrow> ShouldPropagate lib c obj (nil_map (obj_labels obj)) mode;
     ancestor_objs_loop lib c gvk mode nnms
       (if ok then AList.update (nnm_name nnm) True newAnsSrcObjs else newAnsSrcObjs) f }"

text \<open>\<^verbatim>\<open>%v\<close> of a kind.\<close>

definition show_gvk :: "GroupVersionKind \<Rightarrow> string" where
  "show_gvk g = gvk_group g @ ''/'' @ gvk_version g @ '', Kind='' @ gvk_kind g"

fun descendant_conflicts ::
  "GroupVersionKind \<Rightarrow> (string, bool) gomap \<Rightarrow> string list \<Rightarrow> string list \<Rightarrow> Forest \<Rightarrow> (string list \<times> Forest) option" where
  "descendant_conflicts gvk newAnsSrcObjs [] cos f = Some (cos, f)"
| "descendant_conflicts gvk newAnsSrcObjs (dns # dnses) cos f = do {
     (d, f) \<leftarrow> GetP dns f;
     descendant_conflicts gvk newAnsSrcObjs dnses
       (fold (\<lambda>nnm cos. if map_of newAnsSrcObjs (nnm_name nnm) = Some True
            then cos @ [''Namespace '' @ quote dns @ '': '' @ nnm_name nnm @ '' ('' @ show_gvk gvk @ '')''] else cos)
          (GetSourceNames f d gvk) cos) f }"

definition getConflictingObjectsOfType ::
  "SelectorLib \<Rightarrow> Config \<Rightarrow> GroupVersionKind \<Rightarrow> SynchronizationMode \<Rightarrow> nsptr \<Rightarrow> nsptr \<Rightarrow> Forest \<Rightarrow> (string list \<times> Forest) option" where
  "getConflictingObjectsOfType lib c gvk mode newParent ns f = do {
     (nnms, f) \<leftarrow> GetAncestorSourceNames (Some newParent) gvk '''' f;
     (newAnsSrcObjs, f) \<leftarrow> ancestor_objs_loop lib c gvk mode nnms [] f;
     (ds, f) \<leftarrow> DescendantNames ns f;
     descendant_conflicts gvk newAnsSrcObjs (ds @ [ns_name (deref f ns)]) [] f }"

fun conflict_types ::
  "SelectorLib \<Rightarrow> Config \<Rightarrow> TypeSyncer list \<Rightarrow> nsptr \<Rightarrow> nsptr \<Rightarrow> string list \<Rightarrow> Forest \<Rightarrow> (string list \<times> Forest) option" where
  "conflict_types lib c [] newParent ns conflicts f = Some (conflicts, f)"
| "conflict_types lib c (t # ts) newParent ns conflicts f =
     (if ts_Mode t = Propagate \<or> ts_Mode t = AllowPropagate
      then do {
        (cos, f) \<leftarrow> getConflictingObjectsOfType lib c (ts_GVK t) (ts_Mode t) newParent ns f;
        conflict_types lib c ts newParent ns (conflicts @ cos) f }
      else conflict_types lib c ts newParent ns conflicts f)"

definition getConflictingObjects ::
  "SelectorLib \<Rightarrow> Config \<Rightarrow> nsptr option \<Rightarrow> nsptr \<Rightarrow> Forest \<Rightarrow> (string list \<times> Forest) option" where
  "getConflictingObjects lib c newParent ns f = (case newParent of
       None \<Rightarrow> Some ([], f)
     | Some p \<Rightarrow> conflict_types lib c (GetTypeSyncers f) p ns [] f)"

definition checkParent ::
  "SelectorLib \<Rightarrow> Config \<Rightarrow> nsptr \<Rightarrow> nsptr option \<Rightarrow> nsptr option \<Rightarrow> Forest \<Rightarrow> (Response \<times> Forest) option" where
  "checkParent lib c ns curParent newParent f =
     (if IsExternal f ns \<and> newParent \<noteq> None
      then Some (DenyForbidden (''namespace '' @ quote (ns_name (deref f ns)) @ '' is managed by '' @
             quote (ns_Manager (deref f ns)) @ '', not HNC, so it cannot have a parent in HNC''), f)
      else if curParent = newParent then Some (Allow ''parent unchanged'', f)
      else if ns_IsSub (deref f ns)
      then Some (DenyConflict (''illegal parent: Cannot set the parent of '' @ quote (ns_name (deref f ns)) @ '' to '' @
             quote (Name f newParent) @ '' because it's a subnamespace of '' @ quote (Name f curParent)), f)
      else if (case newParent of None \<Rightarrow> False | Some p \<Rightarrow> \<not> Exists f p)
      then Some (DenyForbidden (''requested parent '' @ quote (Name f newParent) @ '' does not exist''), f)
      else if CanSetParent f ns newParent \<noteq> ''''
      then Some (DenyConflict (''illegal parent: '' @ CanSetParent f ns newParent), f)
      else do {
        (co, f) \<leftarrow> getConflictingObjects lib c newParent ns f;
        if length co \<noteq> 0
        then Some (DenyConflict (''Cannot update hierarchy because it would overwrite the following object(s):'' @ [CHR 0x0A] @
               ''  * '' @ Join co ([CHR 0x0A] @ ''  * '') @ [CHR 0x0A] @
               ''To fix this, please rename or remove the conflicting objects first.''), f)
        else Some (Allow '''', f) })"

section \<open>Checks on the server\<close>

text \<open>The loop over the common prefix of the two chains.\<close>

fun mrca_loop :: "string \<Rightarrow> string list \<Rightarrow> string list \<Rightarrow> string" where
  "mrca_loop mrca (x # xs) (y # ys) = (if x \<noteq> y then mrca else mrca_loop x xs ys)"
| "mrca_loop mrca xs ys = mrca"

definition getServerChecks :: "Config \<Rightarrow> Forest \<Rightarrow> nsptr option \<Rightarrow> nsptr option \<Rightarrow> serverCheck list" where
  "getServerChecks c f curParent newParent =
     (if curParent = newParent then []
      else (case curParent of
          None \<Rightarrow>
            (case newParent of
               None \<Rightarrow> []
             | Some p \<Rightarrow> [\<lparr>sc_nnm = Name f newParent, sc_checkType = checkAuthz, sc_reason = ''proposed parent''\<rparr>])
        | Some cur \<Rightarrow>
            if \<not> IsManagedNamespace c (Name f curParent)
            then (case newParent of
                None \<Rightarrow> []
              | Some p \<Rightarrow> [\<lparr>sc_nnm = Name f newParent, sc_checkType = checkAuthz, sc_reason = ''proposed parent''\<rparr>])
            else if \<not> Exists f cur
            then [\<lparr>sc_nnm = Name f curParent, sc_checkType = checkMissing, sc_reason = ''current missing parent''\<rparr>]
            else (let curChain = AncestryNames f curParent in
              case newParent of
                None \<Rightarrow> [\<lparr>sc_nnm = hd curChain, sc_checkType = checkAuthz, sc_reason = ''current root ancestor''\<rparr>]
              | Some p \<Rightarrow>
                  (let newChain = AncestryNames f newParent in
                   if hd curChain \<noteq> hd newChain
                   then [\<lparr>sc_nnm = hd curChain, sc_checkType = checkAuthz, sc_reason = ''current root ancestor''\<rparr>,
                         \<lparr>sc_nnm = Name f newParent, sc_checkType = checkAuthz, sc_reason = ''proposed parent''\<rparr>]
                   else [\<lparr>sc_nnm = mrca_loop (hd curChain) (tl curChain) (tl newChain), sc_checkType = checkAuthz,
                          sc_reason = ''most recent common ancestor of current parent '' @ quote (Name f curParent) @
                            '' and proposed parent '' @ quote (Name f newParent)\<rparr>]))))"

fun checkServer :: "ServerClient \<Rightarrow> UserInfo \<Rightarrow> serverCheck list \<Rightarrow> Response" where
  "checkServer srv ui [] = Allow ''''"
| "checkServer srv ui (req # reqs) =
     (case sc_checkType req of
        checkMissing \<Rightarrow>
          (case srv_Exists srv (sc_nnm req) of
             Inl err \<Rightarrow> DenyInternalError (''while checking existance for '' @ quote (sc_nnm req) @ '', the '' @
               sc_reason req @ '': '' @ err)
           | Inr True \<Rightarrow> DenyServiceUnavailable (''HNC has not reconciled namespace '' @ quote (sc_nnm req) @
               '' yet - please try again in a few moments.'')
           | Inr False \<Rightarrow> checkServer srv ui reqs)
      | checkAuthz \<Rightarrow>
          (case srv_IsAdmin srv ui (sc_nnm req) of
             Inl err \<Rightarrow> DenyInternalError (''while checking authz for '' @ quote (sc_nnm req) @ '', the '' @
               sc_reason req @ '': '' @ err)
           | Inr False \<Rightarrow> DenyUnauthorized (''User '' @ ui_Username ui @ '' is not authorized to modify the subtree of '' @
               sc_nnm req @ '', which is the '' @ sc_reason req)
           | Inr True \<Rightarrow> checkServer srv ui reqs))"

section \<open>The handler\<close>

definition checkForest ::
  "SelectorLib \<Rightarrow> Config \<Rightarrow> HierarchyConfiguration \<Rightarrow> Forest \<Rightarrow> (serverCheck list \<times> Response \<times> Forest) option" where
  "checkForest lib c hc f = do {
     let (ns, f) = Get (hc_namespace hc) f;
     let curParent = Parent f ns;
     let (newParent, f) = Get (hc_parent hc) f;
     a \<leftarrow> ns;
     resp \<leftarrow> checkNS f a;
     if \<not> Allowed resp then Some ([], resp, f)
     else do {
       (resp, f) \<leftarrow> checkParent lib c a curParent newParent f;
       if \<not> Allowed resp then Some ([], resp, f)
       else Some (getServerChecks c f curParent newParent, Allow '''', f) } }"

definition handle_hc ::
  "SelectorLib \<Rightarrow> K8sValidation \<Rightarrow> Config \<Rightarrow> ServerClient \<Rightarrow> UserInfo \<Rightarrow> HierarchyConfiguration \<Rightarrow> Forest \<Rightarrow>
   (Response \<times> Forest) option" where
  "handle_hc lib kv c srv ui hc f =
     (if IsHNCServiceAccount c (Some (ui_Groups ui)) then Some (Allow ''HNC SA'', f)
      else if WhyUnmanaged c (hc_namespace hc) \<noteq> ''''
      then Some (DenyForbidden (''namespace '' @ quote (hc_namespace hc) @ '' is not managed by HNC ('' @
             WhyUnmanaged c (hc_namespace hc) @ '') and cannot be set as a child of another namespace''), f)
      else if WhyUnmanaged c (hc_parent hc) \<noteq> ''''
      then Some (DenyForbidden (''namespace '' @ quote (hc_parent hc) @ '' is not managed by HNC ('' @
             WhyUnmanaged c (hc_parent hc) @ '') and cannot be set as the parent of another namespace''), f)
      else (let allErrs = ValidateManagedLabels kv c (hc_labels hc) @ ValidateManagedAnnotations kv c (hc_annotations hc) in
        if length allErrs > 0 then Some (DenyInvalid (show_errors allErrs), f)
        else do {
          (serverChecks, resp, f) \<leftarrow> checkForest lib c hc f;
          if \<not> Allowed resp then Some (resp, f)
          else Some (checkServer srv ui serverChecks, f) }))"

text \<open>\<^verbatim>\<open>realClient.Exists\<close>, on the read of the namespace.\<close>

definition Exists_client :: "NamespaceInst read \<Rightarrow> string + bool" where
  "Exists_client rd = (case rd of Found ns \<Rightarrow> Inr True | NotFound \<Rightarrow> Inr False | ReadError err \<Rightarrow> Inl err)"

definition Handle_hc ::
  "SelectorLib \<Rightarrow> K8sValidation \<Rightarrow> Config \<Rightarrow> ServerClient \<Rightarrow> UserInfo \<Rightarrow> string + HierarchyConfiguration \<Rightarrow> Forest \<Rightarrow>
   (Response \<times> Forest) option" where
  "Handle_hc lib kv c srv ui decoded f =
     (case decoded of
        Inl err \<Rightarrow> Some (DenyBadRequest err, f)
      | Inr hc \<Rightarrow> handle_hc lib kv c srv ui hc f)"

end
