(* ===== verification/Hierarchy_Admission.thy ===== *)
theory Hierarchy_Admission
  imports HierarchyValidator Propagation "HOL-Library.Sublist"
begin

text \<open>
  What the validator of hierarchy configurations accepts: the objects that it reports as conflicts, the
  authorizations that it asks for and that it always answers.
\<close>

section \<open>Conflicting objects\<close>

lemma GetAncestorSourceNames_all:
  assumes "wf_forest f" "registered f p"
  shows "GetAncestorSourceNames (Some p) gvk '''' f = Some (concat (map (\<lambda>b. GetSourceNames f b gvk) (above f (Some p))), f)"
proof -
  have "ancestor_sources_loop gvk '''' (map (nm_of f) as) acc f = Some (acc @ concat (map (\<lambda>b. GetSourceNames f b gvk) as), f)"
    if "\<forall>b \<in> set as. registered f b" for as acc
    using that by (induction as arbitrary: acc) (simp_all add: Get_registered [OF assms(1)] Let_def)
  then show ?thesis
    using above_registered [OF assms] by (simp add: GetAncestorSourceNames_def AncestryNames_above)
qed

text \<open>A source of the new ancestors that the check expects to be propagated.\<close>

definition propagates_self :: "SelectorLib \<Rightarrow> Config \<Rightarrow> SynchronizationMode \<Rightarrow> Unstructured \<Rightarrow> bool" where
  "propagates_self lib c mode obj \<longleftrightarrow> ShouldPropagate lib c obj (nil_map (obj_labels obj)) mode = Some (True, None)"

lemma ancestor_objs_loop_eq:
  assumes "wf_forest f" "sources_ok lib f"
    and "\<forall>(b, onm) \<in> set bs. registered f b \<and> HasSourceObject f b gvk onm"
  shows "\<exists>m'. ancestor_objs_loop lib c gvk mode (map (\<lambda>(b, onm). \<lparr>nnm_namespace = nm_of f b, nnm_name = onm\<rparr>) bs) m f = Some (m', f) \<and>
    (\<forall>onm. map_of m' onm = Some True \<longleftrightarrow> map_of m onm = Some True \<or>
       (\<exists>b obj. (b, onm) \<in> set bs \<and> GetSourceObject f b gvk onm = Some obj \<and> propagates_self lib c mode obj))"
  using assms(3)
proof (induction bs arbitrary: m)
  case (Cons x bs)
  obtain b onm where x: "x = (b, onm)" by force
  then obtain obj where obj: "registered f b" "GetSourceObject f b gvk onm = Some obj"
    using Cons.prems by (auto simp: HasSourceObject_def)
  then have "GetTreeSelector lib obj \<noteq> None" using objs_of_ok(4) [OF assms(2)] by (simp add: GetSourceObject_def)
  then obtain ok err where ok: "ShouldPropagate lib c obj (nil_map (obj_labels obj)) mode = Some (ok, err)" "err \<noteq> None \<longrightarrow> \<not> ok"
    using ShouldPropagate_returns by blast
  define m1 where "m1 = (if ok then AList.update onm True m else m)"
  obtain m' where m': "ancestor_objs_loop lib c gvk mode (map (\<lambda>(b, onm). \<lparr>nnm_namespace = nm_of f b, nnm_name = onm\<rparr>) bs) m1 f = Some (m', f)"
    "\<forall>onm. map_of m' onm = Some True \<longleftrightarrow> map_of m1 onm = Some True \<or>
       (\<exists>b obj. (b, onm) \<in> set bs \<and> GetSourceObject f b gvk onm = Some obj \<and> propagates_self lib c mode obj)"
    using Cons.IH [of m1] Cons.prems by auto
  have "propagates_self lib c mode obj \<longleftrightarrow> ok" using ok by (cases err) (auto simp: propagates_self_def)
  then have m1: "map_of m1 k = Some True \<longleftrightarrow> map_of m k = Some True \<or> k = onm \<and> propagates_self lib c mode obj" for k
    by (simp add: m1_def update_conv')
  have ex: "(\<exists>b obj. (b, k) \<in> set (x # bs) \<and> GetSourceObject f b gvk k = Some obj \<and> propagates_self lib c mode obj) \<longleftrightarrow>
      k = onm \<and> propagates_self lib c mode obj \<or>
      (\<exists>b obj. (b, k) \<in> set bs \<and> GetSourceObject f b gvk k = Some obj \<and> propagates_self lib c mode obj)" for k
    using obj(2) by (auto simp: x)
  have "ancestor_objs_loop lib c gvk mode
      (map (\<lambda>(b, onm). \<lparr>nnm_namespace = nm_of f b, nnm_name = onm\<rparr>) (x # bs)) m f = Some (m', f)"
    using m'(1) obj ok(1) by (cases ok) (simp_all add: x GetP_registered [OF assms(1)] m1_def)
  then show ?case using m'(2) unfolding m1 ex disj_assoc by blast
qed simp

lemma fold_append_if: "fold (\<lambda>x acc. if P x then acc @ [g x] else acc) xs acc = acc @ map g (filter P xs)"
  by (induction xs arbitrary: acc) auto

lemma descendant_conflicts_eq:
  assumes "wf_forest f" "sources_ok lib f" "\<forall>d \<in> set ds. registered f d"
  shows "\<exists>cs. descendant_conflicts gvk m (map (nm_of f) ds) acc f = Some (acc @ cs, f) \<and>
    (cs \<noteq> [] \<longleftrightarrow> (\<exists>d \<in> set ds. \<exists>onm. HasSourceObject f d gvk onm \<and> map_of m onm = Some True))"
  using assms(3)
proof (induction ds arbitrary: acc)
  case (Cons d ds)
  define here where "here = map (\<lambda>nnm. ''Namespace '' @ quote (nm_of f d) @ '': '' @ nnm_name nnm @ '' ('' @ show_gvk gvk @ '')'')
    (filter (\<lambda>nnm. map_of m (nnm_name nnm) = Some True) (GetSourceNames f d gvk))"
  have h: "here \<noteq> [] \<longleftrightarrow> (\<exists>onm. HasSourceObject f d gvk onm \<and> map_of m onm = Some True)"
    by (auto simp: here_def GetSourceNames_eq [OF assms(2)] filter_empty_conv HasSourceObject_def GetSourceObject_def
        map_of_eq_None_iff simp del: map_of_eq_Some_iff)
  obtain cs where cs: "descendant_conflicts gvk m (map (nm_of f) ds) (acc @ here) f = Some ((acc @ here) @ cs, f)"
    "cs \<noteq> [] \<longleftrightarrow> (\<exists>d \<in> set ds. \<exists>onm. HasSourceObject f d gvk onm \<and> map_of m onm = Some True)"
    using Cons.IH [of "acc @ here"] Cons.prems by auto
  have "descendant_conflicts gvk m (map (nm_of f) (d # ds)) acc f = Some (acc @ here @ cs, f)"
    using Cons.prems cs(1) by (simp add: GetP_registered [OF assms(1)] fold_append_if here_def)
  moreover have "here @ cs \<noteq> [] \<longleftrightarrow> (\<exists>d \<in> set (d # ds). \<exists>onm. HasSourceObject f d gvk onm \<and> map_of m onm = Some True)"
    using h cs(2) by auto
  ultimately show ?case by blast
qed simp

lemma DescendantNames_ptrs:
  assumes "wf_forest f" "registered f ns"
  shows "\<exists>ps. DescendantNames ns f = Some (map (nm_of f) ps, f) \<and> set ps = {d. registered f d \<and> (d, ns) \<in> (parent_rel f)\<^sup>+}"
proof -
  obtain ds where ds: "DescendantNames ns f = Some (ds, f)" "set ds = desc_names f ns"
    using DescendantNames_eq [OF assms] by blast
  have "\<forall>x \<in> set ds. \<exists>d. registered f d \<and> (d, ns) \<in> (parent_rel f)\<^sup>+ \<and> x = nm_of f d"
    using ds(2) by (auto simp: desc_names_def)
  then obtain ptr where ptr: "\<forall>x \<in> set ds. registered f (ptr x) \<and> (ptr x, ns) \<in> (parent_rel f)\<^sup>+ \<and> x = nm_of f (ptr x)"
    by metis
  have "d \<in> ptr ` set ds" if d: "registered f d" "(d, ns) \<in> (parent_rel f)\<^sup>+" for d
  proof -
    have mem: "nm_of f d \<in> set ds" using d ds(2) by (auto simp: desc_names_def)
    then have "ptr (nm_of f d) = d" using ptr d(1) registered_inj [of f "ptr (nm_of f d)" d] by metis
    then show ?thesis using mem by force
  qed
  then have "set (map ptr ds) = {d. registered f d \<and> (d, ns) \<in> (parent_rel f)\<^sup>+}" using ptr by auto
  moreover have "map (nm_of f) (map ptr ds) = ds" using ptr by (auto intro!: map_idI)
  ultimately show ?thesis using ds(1) by metis
qed

lemma getConflictingObjectsOfType_eq:
  assumes "wf_forest f" "sources_ok lib f" "registered f p" "registered f ns"
  shows "\<exists>cs. getConflictingObjectsOfType lib c gvk mode p ns f = Some (cs, f) \<and> (cs \<noteq> [] \<longleftrightarrow>
    (\<exists>b d onm obj. (p, b) \<in> (parent_rel f)\<^sup>* \<and> registered f d \<and> (d, ns) \<in> (parent_rel f)\<^sup>* \<and>
       GetSourceObject f b gvk onm = Some obj \<and> propagates_self lib c mode obj \<and> HasSourceObject f d gvk onm))"
proof -
  define bs where "bs = concat (map (\<lambda>b. map (Pair b) (keys (objs_of f b gvk))) (above f (Some p)))"
  have ab: "set (above f (Some p)) = {b. (p, b) \<in> (parent_rel f)\<^sup>*}"
    using set_ancestry_ptrs [OF assms(1,3)] by (auto simp: above_def)
  have bs: "(b, onm) \<in> set bs \<longleftrightarrow> (p, b) \<in> (parent_rel f)\<^sup>* \<and> HasSourceObject f b gvk onm" for b onm
    using ab by (auto simp: bs_def HasSourceObject_def GetSourceObject_def map_of_eq_None_iff simp del: map_of_eq_Some_iff)
  have nnms: "concat (map (\<lambda>b. GetSourceNames f b gvk) (above f (Some p))) =
      map (\<lambda>(b, onm). \<lparr>nnm_namespace = nm_of f b, nnm_name = onm\<rparr>) bs"
    by (simp add: bs_def GetSourceNames_eq [OF assms(2)] map_concat comp_def)
  have reg: "\<forall>(b, onm) \<in> set bs. registered f b \<and> HasSourceObject f b gvk onm"
    using bs registered_rtrancl [OF _ assms(1,3)] by auto
  obtain m where m: "ancestor_objs_loop lib c gvk mode (map (\<lambda>(b, onm). \<lparr>nnm_namespace = nm_of f b, nnm_name = onm\<rparr>) bs) [] f = Some (m, f)"
    "\<forall>onm. map_of m onm = Some True \<longleftrightarrow>
       (\<exists>b obj. (b, onm) \<in> set bs \<and> GetSourceObject f b gvk onm = Some obj \<and> propagates_self lib c mode obj)"
    using ancestor_objs_loop_eq [OF assms(1,2) reg, of c mode "[]"] by auto
  obtain ps' where ds: "DescendantNames ns f = Some (map (nm_of f) ps', f)" "set ps' = {d. registered f d \<and> (d, ns) \<in> (parent_rel f)\<^sup>+}"
    using DescendantNames_ptrs [OF assms(1,4)] by blast
  define ps where "ps = ps' @ [ns]"
  have names: "map (nm_of f) ps' @ [nm_of f ns] = map (nm_of f) ps" by (simp add: ps_def)
  have ps: "d \<in> set ps \<longleftrightarrow> registered f d \<and> (d, ns) \<in> (parent_rel f)\<^sup>*" for d
    using ds(2) assms(4) by (auto simp: ps_def rtrancl_eq_or_trancl)

  then have "\<forall>d \<in> set ps. registered f d" by blast
  from descendant_conflicts_eq [OF assms(1,2) this, of gvk m "[]"]
  obtain cs where cs: "descendant_conflicts gvk m (map (nm_of f) ps) [] f = Some (cs, f)"
    "cs \<noteq> [] \<longleftrightarrow> (\<exists>d \<in> set ps. \<exists>onm. HasSourceObject f d gvk onm \<and> map_of m onm = Some True)" by auto
  have "getConflictingObjectsOfType lib c gvk mode p ns f = Some (cs, f)"
    using cs(1) ds(1) m(1) by (simp add: getConflictingObjectsOfType_def GetAncestorSourceNames_all [OF assms(1,3)] nnms names)
  moreover have "cs \<noteq> [] \<longleftrightarrow> (\<exists>b d onm obj. (p, b) \<in> (parent_rel f)\<^sup>* \<and> registered f d \<and> (d, ns) \<in> (parent_rel f)\<^sup>* \<and>
       GetSourceObject f b gvk onm = Some obj \<and> propagates_self lib c mode obj \<and> HasSourceObject f d gvk onm)"
    unfolding cs(2) using m(2) by (fastforce simp: ps bs HasSourceObject_def)
  ultimately show ?thesis by blast
qed

text \<open>A change of parent overwrites an object below the namespace.\<close>

definition reparent_conflict :: "SelectorLib \<Rightarrow> Config \<Rightarrow> Forest \<Rightarrow> nsptr \<Rightarrow> nsptr \<Rightarrow> TypeSyncer \<Rightarrow> bool" where
  "reparent_conflict lib c f p ns t \<longleftrightarrow> (ts_Mode t = Propagate \<or> ts_Mode t = AllowPropagate) \<and>
     (\<exists>b d onm obj. (p, b) \<in> (parent_rel f)\<^sup>* \<and> registered f d \<and> (d, ns) \<in> (parent_rel f)\<^sup>* \<and>
        GetSourceObject f b (ts_GVK t) onm = Some obj \<and> propagates_self lib c (ts_Mode t) obj \<and>
        HasSourceObject f d (ts_GVK t) onm)"

lemma conflict_types_eq:
  assumes "wf_forest f" "sources_ok lib f" "registered f p" "registered f ns"
  shows "\<exists>cs. conflict_types lib c ts p ns acc f = Some (acc @ cs, f) \<and>
    (cs \<noteq> [] \<longleftrightarrow> (\<exists>t \<in> set ts. reparent_conflict lib c f p ns t))"
proof (induction ts arbitrary: acc)
  case (Cons t ts)
  show ?case
  proof (cases "ts_Mode t = Propagate \<or> ts_Mode t = AllowPropagate")
    case True
    obtain cs1 where 1: "getConflictingObjectsOfType lib c (ts_GVK t) (ts_Mode t) p ns f = Some (cs1, f)"
      "cs1 \<noteq> [] \<longleftrightarrow> reparent_conflict lib c f p ns t"
      using getConflictingObjectsOfType_eq [OF assms, of c "ts_GVK t" "ts_Mode t"] True
      unfolding reparent_conflict_def by blast
    obtain cs2 where 2: "conflict_types lib c ts p ns (acc @ cs1) f = Some ((acc @ cs1) @ cs2, f)"
      "cs2 \<noteq> [] \<longleftrightarrow> (\<exists>t \<in> set ts. reparent_conflict lib c f p ns t)"
      using Cons.IH by blast
    have "conflict_types lib c (t # ts) p ns acc f = Some (acc @ cs1 @ cs2, f)"
      using True 1(1) 2(1) by simp
    moreover have "cs1 @ cs2 \<noteq> [] \<longleftrightarrow> (\<exists>t \<in> set (t # ts). reparent_conflict lib c f p ns t)"
      using 1(2) 2(2) by auto
    ultimately show ?thesis by blast
  next
    case False
    then have "\<not> reparent_conflict lib c f p ns t" by (simp add: reparent_conflict_def)
    then show ?thesis using False Cons.IH [of acc] by simp
  qed
qed simp

lemma getConflictingObjects_eq:
  assumes "wf_forest f" "sources_ok lib f" "registered f ns" "\<And>q. p = Some q \<Longrightarrow> registered f q"
  shows "\<exists>cs. getConflictingObjects lib c p ns f = Some (cs, f) \<and>
    (cs \<noteq> [] \<longleftrightarrow> (\<exists>q. p = Some q \<and> (\<exists>t \<in> set (f_types f). reparent_conflict lib c f q ns t)))"
  using conflict_types_eq [OF assms(1,2) assms(4) assms(3), of _ c "f_types f" "[]"]
  by (cases p) (auto simp: getConflictingObjects_def GetTypeSyncers_def)

section \<open>Server checks\<close>

fun check_passes :: "ServerClient \<Rightarrow> UserInfo \<Rightarrow> serverCheck \<Rightarrow> bool" where
  "check_passes srv ui chk = (case sc_checkType chk of
       checkMissing \<Rightarrow> srv_Exists srv (sc_nnm chk) = Inr False
     | checkAuthz \<Rightarrow> srv_IsAdmin srv ui (sc_nnm chk) = Inr True)"

lemma checkServer_iff: "Allowed (checkServer srv ui reqs) \<longleftrightarrow> list_all (check_passes srv ui) reqs"
proof (induction reqs)
  case (Cons req reqs)
  then show ?case
    by (cases "sc_checkType req"; cases "srv_Exists srv (sc_nnm req)"; cases "srv_IsAdmin srv ui (sc_nnm req)")
      (auto split: bool.splits)
qed simp

section \<open>The most recent common ancestor\<close>

lemma above_Some:
  assumes "wf_forest f" "registered f a" "acyclic_ns f a"
  shows "above f (Some a) = above f (ns_parent (deref f a)) @ [a]"
proof -
  let ?n = "ns_name (deref f a)" and ?p = "ns_parent (deref f a)"
  have "?n \<notin> set (map (nm_of f) (ancestry_ptrs f ?p {?n}))"
    using acyclic_ancestry(1) [OF assms(1,2)] assms(3)
    by (auto simp: AncestryNames_ptrs ancestry_ptrs_Some acyclic_ns_def)
  moreover have "nm_of f (last (ancestry_ptrs f (Some p) {?n})) \<in> set (map (nm_of f) (ancestry_ptrs f (Some p) {?n}))" for p
    unfolding set_map by (intro imageI last_in_set ancestry_ptrs_not_Nil)
  ultimately have "nm_of f (last (ancestry_ptrs f (Some p) {?n})) \<noteq> ?n" if "?p = Some p" for p
    using that by metis
  then have "ancestry_ptrs f ?p {} = ancestry_ptrs f ?p {?n}"
    by (cases ?p) (simp, rule ancestry_ptrs_insert, auto)
  then show ?thesis by (simp add: above_def ancestry_ptrs_Some)
qed

lemma above_None [simp]: "above f None = []"
  by (simp add: above_def)

lemma above_prefix:
  assumes "wf_forest f" "registered f a" "acyclic_ns f a"
  shows "(a, b) \<in> (parent_rel f)\<^sup>* \<Longrightarrow> prefix (above f (Some b)) (above f (Some a))"
  using assms
proof (induction rule: acyclic_ns_induct)
  case (step a)
  note ab = above_Some [OF assms(1) step(1,2)]
  show ?case
  proof (cases "a = b")
    case False
    then obtain p where p: "ns_parent (deref f a) = Some p" "(p, b) \<in> (parent_rel f)\<^sup>*"
      using step.prems rtrancl_parent [of a b f] by auto
    then have "prefix (above f (Some b)) (above f (Some p))"
      using step.IH registered_parent [OF assms(1) step(1) p(1)] acyclic_ns_parent [OF step(2) p(1)] by blast
    then show ?thesis unfolding ab p(1) by simp
  qed simp
qed

lemma prefix_above:
  assumes "wf_forest f" "registered f a" "acyclic_ns f a"
  shows "prefix xs (above f (Some a)) \<Longrightarrow> xs \<noteq> [] \<Longrightarrow> xs = above f (Some (last xs)) \<and> (a, last xs) \<in> (parent_rel f)\<^sup>*"
  using assms
proof (induction rule: acyclic_ns_induct)
  case (step a)
  note ab = above_Some [OF assms(1) step(1,2)]
  show ?case
  proof (cases "xs = above f (Some a)")
    case False
    then have "prefix xs (above f (ns_parent (deref f a)))" using step.prems(1) by (simp add: ab)
    moreover then obtain p where p: "ns_parent (deref f a) = Some p" using step.prems(2) by (cases "ns_parent (deref f a)") auto
    moreover have "registered f p" "acyclic_ns f p"
      using registered_parent [OF assms(1) step(1) p] acyclic_ns_parent [OF step(2) p] by simp_all
    ultimately have "xs = above f (Some (last xs)) \<and> (p, last xs) \<in> (parent_rel f)\<^sup>*"
      using step.IH step.prems(2) by auto
    then show ?thesis using p by (auto intro: converse_rtrancl_into_rtrancl)
  qed (simp add: ab)
qed

lemma mrca_loop_prefix: "mrca_loop x xs ys = last (longest_common_prefix (x # xs) (x # ys))"
proof (induction x xs ys rule: mrca_loop.induct)
  case (1 mrca x xs y ys)
  then show ?case by simp
qed simp_all

lemma longest_common_prefix_map:
  assumes "inj_on g (set xs \<union> set ys)"
  shows "longest_common_prefix (map g xs) (map g ys) = map g (longest_common_prefix xs ys)"
  using assms
proof (induction xs ys rule: longest_common_prefix.induct)
  case (1 x xs y ys)
  then have "g x = g y \<longleftrightarrow> x = y" by (auto simp: inj_on_def)
  moreover have "inj_on g (set xs \<union> set ys)" using 1(2) by (auto simp: inj_on_def)
  ultimately show ?case using 1(1) by auto
qed simp_all

text \<open>The lowest namespace above both, when there is one.\<close>

definition common_ancestor :: "Forest \<Rightarrow> nsptr \<Rightarrow> nsptr \<Rightarrow> nsptr \<Rightarrow> bool" where
  "common_ancestor f p q b \<longleftrightarrow> (p, b) \<in> (parent_rel f)\<^sup>* \<and> (q, b) \<in> (parent_rel f)\<^sup>*"

lemma above_mem:
  assumes "wf_forest f" "registered f a"
  shows "b \<in> set (above f (Some a)) \<longleftrightarrow> (a, b) \<in> (parent_rel f)\<^sup>*"
  using set_ancestry_ptrs [OF assms] by (auto simp: above_def)

lemma hd_above_root:
  assumes "wf_forest f" "registered f a" "acyclic_ns f a"
  shows "(a, hd (above f (Some a))) \<in> (parent_rel f)\<^sup>*" "ns_parent (deref f (hd (above f (Some a)))) = None"
  using acyclic_ancestry(2) [OF assms(1,2)] assms(3) ancestry_ptrs_rtrancl [of _ f a "{}"]
  by (auto simp: above_def hd_rev acyclic_ns_def)

lemma above_inj:
  assumes "wf_forest f" "registered f p" "registered f q"
  shows "inj_on (nm_of f) (set (above f (Some p)) \<union> set (above f (Some q)))"
proof (rule inj_onI)
  fix x y assume "x \<in> set (above f (Some p)) \<union> set (above f (Some q))" "y \<in> set (above f (Some p)) \<union> set (above f (Some q))"
  then have "registered f x" "registered f y"
    using above_registered [OF assms(1,2)] above_registered [OF assms(1,3)] by auto
  moreover assume "nm_of f x = nm_of f y"
  ultimately show "x = y" by (rule registered_inj)
qed

lemma common_prefix:
  assumes "wf_forest f" "registered f p" "acyclic_ns f p" "registered f q" "acyclic_ns f q"
  defines "cs \<equiv> longest_common_prefix (above f (Some p)) (above f (Some q))"
  shows "cs \<noteq> [] \<longleftrightarrow> (\<exists>b. common_ancestor f p q b)"
    and "cs \<noteq> [] \<Longrightarrow> common_ancestor f p q (last cs) \<and> (\<forall>b. common_ancestor f p q b \<longrightarrow> (last cs, b) \<in> (parent_rel f)\<^sup>*)"
proof -
  have pre: "prefix cs (above f (Some p))" "prefix cs (above f (Some q))"
    by (simp_all add: cs_def longest_common_prefix_prefix1 longest_common_prefix_prefix2)
  have ab: "prefix (above f (Some b)) cs" "above f (Some b) \<noteq> []" if "common_ancestor f p q b" for b
    using that above_prefix [OF assms(1-3), of b] above_prefix [OF assms(1,4,5), of b]
    by (auto simp: cs_def common_ancestor_def longest_common_prefix_max_prefix above_def)
  have last: "common_ancestor f p q (last cs)" "cs = above f (Some (last cs))" if "cs \<noteq> []"
    using prefix_above [OF assms(1-3) pre(1) that] prefix_above [OF assms(1,4,5) pre(2) that] by (auto simp: common_ancestor_def)
  show "cs \<noteq> [] \<longleftrightarrow> (\<exists>b. common_ancestor f p q b)" using ab last(1) by fastforce
  show "common_ancestor f p q (last cs) \<and> (\<forall>b. common_ancestor f p q b \<longrightarrow> (last cs, b) \<in> (parent_rel f)\<^sup>*)" if "cs \<noteq> []"
  proof (intro conjI allI impI)
    fix b assume b: "common_ancestor f p q b"
    have "registered f (last cs)"
      using registered_rtrancl [OF _ assms(1,2)] last(1) [OF that] by (simp add: common_ancestor_def)
    moreover have "b \<in> set (above f (Some b))" by (simp add: above_def ancestry_ptrs_Some)
    then have "b \<in> set (above f (Some (last cs)))"
      using set_mono_prefix [OF ab(1) [OF b]] last(2) [OF that] by auto
    ultimately show "(last cs, b) \<in> (parent_rel f)\<^sup>*" using above_mem [OF assms(1)] by blast
  qed (rule last(1) [OF that])
qed

lemma getServerChecks_tree:
  assumes "wf_forest f" "registered f p" "acyclic_ns f p" "registered f q" "acyclic_ns f q" "p \<noteq> q"
    and "IsManagedNamespace c (nm_of f p)" "ns_exists (deref f p)"
  shows "if \<exists>b. common_ancestor f p q b
    then \<exists>m. common_ancestor f p q m \<and> (\<forall>b. common_ancestor f p q b \<longrightarrow> (m, b) \<in> (parent_rel f)\<^sup>*) \<and>
      map (\<lambda>s. (sc_nnm s, sc_checkType s)) (getServerChecks c f (Some p) (Some q)) = [(nm_of f m, checkAuthz)]
    else \<exists>r. (p, r) \<in> (parent_rel f)\<^sup>* \<and> ns_parent (deref f r) = None \<and>
      map (\<lambda>s. (sc_nnm s, sc_checkType s)) (getServerChecks c f (Some p) (Some q)) = [(nm_of f r, checkAuthz), (nm_of f q, checkAuthz)]"
proof -
  let ?xs = "above f (Some p)" and ?ys = "above f (Some q)"
  let ?cs = "longest_common_prefix ?xs ?ys"
  obtain x xs y ys where xy: "?xs = x # xs" "?ys = y # ys"
    by (metis above_def ancestry_ptrs_not_Nil list.exhaust rev_is_Nil_conv)
  note cp = common_prefix [OF assms(1-5)] and inj = above_inj [OF assms(1,2,4)]
  have eq: "nm_of f x = nm_of f y \<longleftrightarrow> x = y" using inj by (auto simp: xy inj_on_def)
  then have ne: "?cs \<noteq> [] \<longleftrightarrow> nm_of f x = nm_of f y" by (simp add: xy)
  have chains: "AncestryNames f (Some p) = nm_of f x # map (nm_of f) xs" "AncestryNames f (Some q) = nm_of f y # map (nm_of f) ys"
    by (simp_all add: AncestryNames_above xy)
  show ?thesis
  proof (cases "nm_of f x = nm_of f y")
    case True
    then have "mrca_loop (nm_of f x) (map (nm_of f) xs) (map (nm_of f) ys) = last (map (nm_of f) ?cs)"
      using longest_common_prefix_map [OF inj] by (simp add: mrca_loop_prefix xy)
    then have "mrca_loop (nm_of f x) (map (nm_of f) xs) (map (nm_of f) ys) = nm_of f (last ?cs)"
      using True ne by (simp add: last_map)
    then have "map (\<lambda>s. (sc_nnm s, sc_checkType s)) (getServerChecks c f (Some p) (Some q)) = [(nm_of f (last ?cs), checkAuthz)]"
      using True assms(6-8) by (simp add: getServerChecks_def Exists_def Name_def chains Let_def)
    moreover have "?cs \<noteq> []" using True ne by simp
    ultimately show ?thesis using cp by auto
  next
    case False
    have "(p, x) \<in> (parent_rel f)\<^sup>*" "ns_parent (deref f x) = None"
      using hd_above_root [OF assms(1-3)] by (simp_all add: xy)
    moreover have "map (\<lambda>s. (sc_nnm s, sc_checkType s)) (getServerChecks c f (Some p) (Some q)) =
        [(nm_of f x, checkAuthz), (nm_of f q, checkAuthz)]"
      using False assms(6-8) by (simp add: getServerChecks_def Exists_def Name_def chains Let_def)
    moreover have "?cs = []" using False ne by simp
    ultimately show ?thesis using cp(1) by auto
  qed
qed

end
