(* ===== verification/ObjectsValidator.thy ===== *)
theory ObjectsValidator
  imports ObjectsReconciler
begin

text \<open>
  The object validator, \<^verbatim>\<open>internal/objects/validator.go\<close>.

  A request is what \<^verbatim>\<open>decodeRequest\<close> makes of it: the new object is blank for a
  deletion and the old one is blank for a creation. Whether the namespace of a deleted object is itself
  being deleted is read from the API server. \<open>None\<close> is a panic or a walk that never ends.
\<close>

record ObjRequest =
  req_obj :: Unstructured
  req_oldObj :: Unstructured
  req_op :: Operation

definition blank_obj :: Unstructured where
  "blank_obj = source_ref \<lparr>gvk_group = '''', gvk_version = '''', gvk_kind = ''''\<rparr> \<lparr>nnm_namespace = '''', nnm_name = ''''\<rparr>"

section \<open>Types\<close>

definition syncType :: "Forest \<Rightarrow> GroupVersionKind \<Rightarrow> SynchronizationMode" where
  "syncType f gvk = (case GetTypeSyncerFromGroupKind f (GroupKind_of gvk) of None \<Rightarrow> Ignore | Some ts \<Rightarrow> ts_Mode ts)"

definition isPropagateType :: "Forest \<Rightarrow> GroupVersionKind \<Rightarrow> bool" where
  "isPropagateType f gvk = (syncType f gvk = Propagate)"

definition isAllowPropagateType :: "Forest \<Rightarrow> GroupVersionKind \<Rightarrow> bool" where
  "isAllowPropagateType f gvk = (syncType f gvk = AllowPropagate)"

definition canPropagateType :: "Forest \<Rightarrow> GroupVersionKind \<Rightarrow> bool" where
  "canPropagateType f gvk = (isPropagateType f gvk \<or> isAllowPropagateType f gvk)"

section \<open>Selector annotations\<close>

definition selector_annotations :: "string list" where
  "selector_annotations = [AnnotationSelector, AnnotationTreeSelector, AnnotationNoneSelector, AnnotationAllSelector]"

definition bad_annotation_msg :: "string \<Rightarrow> string" where
  "bad_annotation_msg key = ''invalid HNC exceptions annotation: '' @ key @ '', should be one of the following: '' @
     Join selector_annotations ''; ''"

fun validateSelectorAnnot_loop :: "string list \<Rightarrow> string" where
  "validateSelectorAnnot_loop [] = ''''"
| "validateSelectorAnnot_loop (key # ks) =
     (let segs = SplitN2 key (CHR ''/''); prefix = SplitN2 (hd segs) (CHR ''.'') in
      if length prefix < 2 \<or> prefix ! 1 \<noteq> MetaGroup then validateSelectorAnnot_loop ks
      else if hd segs \<noteq> AnnotationPropagatePrefix then bad_annotation_msg key
      else if key \<notin> set selector_annotations then bad_annotation_msg key
      else validateSelectorAnnot_loop ks)"

definition validateSelectorAnnot :: "Unstructured \<Rightarrow> string" where
  "validateSelectorAnnot inst = validateSelectorAnnot_loop (keys (nil_map (obj_annotations inst)))"

definition validateSelectorUniqueness :: "Unstructured \<Rightarrow> Unstructured \<Rightarrow> string" where
  "validateSelectorUniqueness inst oldInst =
     (let sel = GetSelectorAnnotation inst; treeSel = GetTreeSelectorAnnotation inst;
          noneSel = GetNoneSelectorAnnotation inst; allSel = GetAllSelectorAnnotation inst;
          isSelectorChange = (GetSelectorAnnotation oldInst \<noteq> sel \<or> GetTreeSelectorAnnotation oldInst \<noteq> treeSel \<or>
            GetNoneSelectorAnnotation oldInst \<noteq> noneSel \<or> GetAllSelectorAnnotation oldInst \<noteq> allSel)
      in if \<not> isSelectorChange then ''''
         else (let found = (if sel \<noteq> '''' then [AnnotationSelector] else []) @
                           (if treeSel \<noteq> '''' then [AnnotationTreeSelector] else []) @
                           (if noneSel \<noteq> '''' then [AnnotationNoneSelector] else []) @
                           (if allSel \<noteq> '''' then [AnnotationAllSelector] else [])
               in if length found \<le> 1 then ''''
                  else ''cannot have more than one selector at the same time, but got multiple: '' @ Join found '', ''))"

definition validateSelectorChange :: "SelectorLib \<Rightarrow> Unstructured \<Rightarrow> Unstructured \<Rightarrow> string option" where
  "validateSelectorChange lib inst oldInst =
     (if GetSelectorAnnotation inst = '''' \<or> GetSelectorAnnotation oldInst = GetSelectorAnnotation inst then None
      else (case GetSelector lib inst of Inl err \<Rightarrow> Some err | Inr s \<Rightarrow> None))"

definition validateTreeSelectorChange :: "SelectorLib \<Rightarrow> Unstructured \<Rightarrow> Unstructured \<Rightarrow> string option option" where
  "validateTreeSelectorChange lib inst oldInst =
     (if GetTreeSelectorAnnotation inst = '''' \<or> GetTreeSelectorAnnotation oldInst = GetTreeSelectorAnnotation inst
      then Some None
      else do {
        r \<leftarrow> GetTreeSelector lib inst;
        Some (case r of Inl err \<Rightarrow> Some err | Inr s \<Rightarrow> None) })"

definition validateNoneSelectorChange :: "Unstructured \<Rightarrow> Unstructured \<Rightarrow> string option" where
  "validateNoneSelectorChange inst oldInst =
     (if GetNoneSelectorAnnotation inst = '''' \<or> GetNoneSelectorAnnotation oldInst = GetNoneSelectorAnnotation inst
      then None else snd (GetNoneSelector inst))"

definition validateAllSelectorChange :: "Unstructured \<Rightarrow> Unstructured \<Rightarrow> string option" where
  "validateAllSelectorChange inst oldInst =
     (if GetAllSelectorAnnotation inst = '''' \<or> GetAllSelectorAnnotation oldInst = GetAllSelectorAnnotation inst
      then None else snd (GetAllSelector inst))"

section \<open>Conflicts\<close>

fun conflict_loop ::
  "SelectorLib \<Rightarrow> Config \<Rightarrow> Unstructured \<Rightarrow> string list \<Rightarrow> string list \<Rightarrow> Forest \<Rightarrow> (string list \<times> Forest) option" where
  "conflict_loop lib c inst [] conflicts f = Some (conflicts, f)"
| "conflict_loop lib c inst (desc # descs) conflicts f = do {
     (d, f) \<leftarrow> GetP desc f;
     if HasSourceObject f d (obj_gvk inst) (obj_name inst)
     then do {
       (ns, f) \<leftarrow> GetP (obj_namespace inst) f;
       (ok, err) \<leftarrow> ShouldPropagate lib c inst (GetLabels f ns) (syncType f (obj_gvk inst));
       conflict_loop lib c inst descs (if ok then conflicts @ [desc] else conflicts) f }
     else conflict_loop lib c inst descs conflicts f }"

definition hasConflict :: "SelectorLib \<Rightarrow> Config \<Rightarrow> Unstructured \<Rightarrow> Forest \<Rightarrow> (bool \<times> string list \<times> Forest) option" where
  "hasConflict lib c inst f =
     (if obj_namespace inst = '''' then Some (False, [], f)
      else do {
        (ns, f) \<leftarrow> GetP (obj_namespace inst) f;
        (descs, f) \<leftarrow> DescendantNames ns f;
        (conflicts, f) \<leftarrow> conflict_loop lib c inst descs [] f;
        Some (length conflicts \<noteq> 0, conflicts, f) })"

section \<open>Decisions\<close>

definition isDeletingNS :: "string \<Rightarrow> NamespaceInst read \<Rightarrow> string + bool" where
  "isDeletingNS ns rd = (case rd of
       NotFound \<Rightarrow> Inr True
     | ReadError err \<Rightarrow> Inl (''while determining whether namespace '' @ quote ns @ '' is being deleted: '' @ err)
     | Found i \<Rightarrow> Inr (\<not> IsZero (nsi_deletionTimestamp i)))"

definition handleInherited :: "NamespaceInst read \<Rightarrow> ObjRequest \<Rightarrow> string \<Rightarrow> string \<Rightarrow> Response" where
  "handleInherited rd req newSource oldSource =
     (case req_op req of
        Create \<Rightarrow> DenyForbidden (''cannot create objects with the label '' @ quote LabelInheritedFrom)
      | Delete \<Rightarrow>
          (case isDeletingNS (obj_namespace (req_oldObj req)) rd of
             Inl err \<Rightarrow> DenyInternalError (''cannot delete object propagated from namespace '' @ oldSource @
               '' with error: '' @ err)
           | Inr isDeleting \<Rightarrow>
               if \<not> isDeleting
               then DenyForbidden (''cannot delete object propagated from namespace '' @ quote oldSource)
               else Allow ''allowing deletion of propagated object since namespace is being deleted'')
      | Update \<Rightarrow>
          if newSource \<noteq> oldSource
          then DenyForbidden (''cannot modify the label '' @ quote LabelInheritedFrom)
          else if \<not> DeepEqual_obj (canonical (req_obj req)) (canonical (req_oldObj req))
          then DenyForbidden (''cannot modify object propagated from namespace '' @ quote oldSource)
          else if \<not> DeepEqual_map (obj_labels (req_oldObj req)) (obj_labels (req_obj req)) \<or>
                  \<not> DeepEqual_map (obj_annotations (req_oldObj req)) (obj_annotations (req_obj req))
          then DenyForbidden (''cannot modify object propagated from namespace '' @ quote oldSource)
          else Allow ''no illegal updates to propagated object''
      | op \<Rightarrow> DenyInternalError (''unknown operation: '' @ show_operation op))"

definition handle_obj ::
  "SelectorLib \<Rightarrow> Config \<Rightarrow> NamespaceInst read \<Rightarrow> ObjRequest \<Rightarrow> Forest \<Rightarrow> (Response \<times> Forest) option" where
  "handle_obj lib c rd req f =
     (let inst = req_obj req; oldInst = req_oldObj req;
          (oldSource, oldInherited) = GetLabel oldInst LabelInheritedFrom;
          (newSource, newInherited) = GetLabel inst LabelInheritedFrom
      in if \<not> oldInherited \<and> \<not> newInherited then
           (if validateSelectorAnnot inst \<noteq> '''' then Some (DenyBadRequest (validateSelectorAnnot inst), f)
            else (case validateSelectorChange lib inst oldInst of
                Some err \<Rightarrow> Some (DenyBadRequest (''invalid Kubernetes labelSelector: '' @ err), f)
              | None \<Rightarrow> do {
                  terr \<leftarrow> validateTreeSelectorChange lib inst oldInst;
                  case terr of
                    Some err \<Rightarrow> Some (DenyBadRequest (''invalid HNC '' @ quote AnnotationTreeSelector @ '' value: '' @ err), f)
                  | None \<Rightarrow>
                      (case validateNoneSelectorChange inst oldInst of
                         Some err \<Rightarrow> Some (DenyBadRequest err, f)
                       | None \<Rightarrow>
                           (case validateAllSelectorChange inst oldInst of
                              Some err \<Rightarrow> Some (DenyBadRequest err, f)
                            | None \<Rightarrow>
                                if validateSelectorUniqueness inst oldInst \<noteq> ''''
                                then Some (DenyBadRequest (validateSelectorUniqueness inst oldInst), f)
                                else do {
                                  (yes, dnses, f) \<leftarrow> hasConflict lib c inst f;
                                  if yes then Some (DenyConflict (''would overwrite objects in the following descendant namespace(s): '' @
                                    Join dnses '','' @ ''. To fix this, choose a different name for the object, or remove the conflicting objects from the listed namespaces''), f)
                                  else Some (Allow ''source object'', f) })) }))
         else Some (handleInherited rd req newSource oldSource, f))"

text \<open>
  The outcomes \<open>new\<close> and \<open>old\<close> of the decoder are used only where the operation has such an object.
\<close>

definition decodeRequest_obj :: "Operation \<Rightarrow> string + Unstructured \<Rightarrow> string + Unstructured \<Rightarrow> string + ObjRequest" where
  "decodeRequest_obj op new old =
     (case (if op \<noteq> Delete then new else Inr blank_obj) of
        Inl err \<Rightarrow> Inl (''while decoding object: '' @ err)
      | Inr inst \<Rightarrow>
          (case (if op \<noteq> Create then old else Inr blank_obj) of
             Inl err \<Rightarrow> Inl (''while decoding old object: '' @ err)
           | Inr oldInst \<Rightarrow> Inr \<lparr>req_obj = inst, req_oldObj = oldInst, req_op = op\<rparr>))"

text \<open>\<open>namespace\<close>, \<open>kind\<close>, \<open>groups\<close> and \<open>op\<close> are fields of the admission request.\<close>

definition Handle_obj ::
  "SelectorLib \<Rightarrow> Config \<Rightarrow> NamespaceInst read \<Rightarrow> string \<Rightarrow> GroupVersionKind \<Rightarrow> string list \<Rightarrow> Operation \<Rightarrow>
   string + Unstructured \<Rightarrow> string + Unstructured \<Rightarrow> Forest \<Rightarrow> (Response \<times> Forest) option" where
  "Handle_obj lib c rd namespace kind groups op new old f =
     (if \<not> IsManagedNamespace c namespace then Some (Allow (''unmanaged namespace '' @ namespace), f)
      else if \<not> canPropagateType f kind then Some (Allow ''Non-propagate-mode types'', f)
      else if IsHNCServiceAccount c (Some groups) then Some (Allow ''HNC SA'', f)
      else (case decodeRequest_obj op new old of
          Inl err \<Rightarrow> Some (DenyBadRequest err, f)
        | Inr req \<Rightarrow> handle_obj lib c rd req f))"

end
