(* ===== verification/NamespaceValidator.thy ===== *)
theory NamespaceValidator
  imports Config Conditions Quotas
begin

text \<open>
  The namespace validator, \<^verbatim>\<open>internal/namespace/validator.go\<close>.

  The old namespace of a request is \<open>None\<close> except for an update. A loop over a map that returns at
  the first bad entry is modelled by the first one in the order of the list; the verdict does not depend
  on the order. \<open>None\<close> as a result is a nil dereference.
\<close>

record NSRequest =
  nsr_ns :: NamespaceInst
  nsr_oldns :: "NamespaceInst option"
  nsr_op :: Operation

section \<open>Checks\<close>

definition labels_of :: "NamespaceInst \<Rightarrow> (string, string) gomap" where
  "labels_of ns = nil_map (nsi_labels ns)"

definition illegalTreeLabel :: "NSRequest \<Rightarrow> Response" where
  "illegalTreeLabel req =
     (let ns = nsr_ns req;
          oldLabels = (case nsr_oldns req of None \<Rightarrow> [] | Some oldns \<Rightarrow> labels_of oldns)
      in case find (\<lambda>(key, val). Contains key LabelTreeDepthSuffix \<and> get_str oldLabels key \<noteq> val) (labels_of ns) of
           Some (key, val) \<Rightarrow> DenyForbidden (''cannot set or modify tree label '' @ quote key @ '' in namespace '' @
             quote (nsi_name ns) @ ''; these can only be managed by HNC'')
         | None \<Rightarrow>
             (case find (\<lambda>key. Contains key LabelTreeDepthSuffix \<and> \<not> has_key (labels_of ns) key) (keys oldLabels) of
                Some key \<Rightarrow> DenyForbidden (''cannot remove tree label '' @ quote key @ '' in namespace '' @
                  quote (nsi_name ns) @ ''; these can only be managed by HNC'')
              | None \<Rightarrow> Allow ''''))"

definition included_doc :: string where
  "included_doc = ''See https://github.com/kubernetes-sigs/hierarchical-namespaces/blob/master/docs/user-guide/concepts.md#included-namespace-label for detail''"

definition illegalIncludedNamespaceLabel :: "Config \<Rightarrow> NSRequest \<Rightarrow> Response" where
  "illegalIncludedNamespaceLabel c req =
     (let ns = nsr_ns req;
          labelValue = get_str (labels_of ns) LabelIncludedNamespace;
          hasLabel = has_key (labels_of ns) LabelIncludedNamespace;
          unchanged = (case nsr_oldns req of
              None \<Rightarrow> False
            | Some oldns \<Rightarrow> has_key (labels_of oldns) LabelIncludedNamespace = hasLabel \<and>
                get_str (labels_of oldns) LabelIncludedNamespace = labelValue);
          isIncluded = IsManagedNamespace c (nsi_name ns)
      in if unchanged then Allow ''''
         else if \<not> isIncluded \<and> hasLabel
         then DenyForbidden (''you cannot enforce webhook rules on this unmanaged namespace using the '' @
                quote LabelIncludedNamespace @ '' label. '' @ included_doc)
         else if isIncluded \<and> labelValue \<noteq> ''true''
         then DenyForbidden (''you cannot change the value of the '' @ quote LabelIncludedNamespace @
                '' label. It has to be set as true on all managed namespaces. '' @ included_doc)
         else Allow '''')"

text \<open>\<^verbatim>\<open>Forest.Get\<close> finds every name of the list, so the forest does not change.\<close>

fun external_loop :: "string \<Rightarrow> string list \<Rightarrow> Forest \<Rightarrow> (Response \<times> Forest) option" where
  "external_loop reqnm [] f = Some (Allow '''', f)"
| "external_loop reqnm (nm # nms) f = do {
     (ns, f) \<leftarrow> GetP nm f;
     if \<not> IsExternal f ns then external_loop reqnm nms f
     else if has_key (GetTreeLabels f ns) reqnm
     then Some (DenyConflict (''is reserved by the external hierarchy manager '' @ quote (ns_Manager (deref f ns))), f)
     else external_loop reqnm nms f }"

definition nameExistsInExternalHierarchy :: "NSRequest \<Rightarrow> Forest \<Rightarrow> (Response \<times> Forest) option" where
  "nameExistsInExternalHierarchy req f = external_loop (nsi_name (nsr_ns req)) (GetNamespaceNames f) f"

definition conflictBetweenParentAndExternalManager :: "NSRequest \<Rightarrow> nsptr option \<Rightarrow> Forest \<Rightarrow> Response" where
  "conflictBetweenParentAndExternalManager req ns f =
     (let mgr = get_str (nil_map (nsi_annotations (nsr_ns req))) AnnotationManagedBy in
      if mgr \<noteq> '''' \<and> mgr \<noteq> MetaGroup \<and> Parent f ns \<noteq> None
      then DenyForbidden (''is a child of '' @ quote (Name f (Parent f ns)) @
             ''. Namespaces with parents defined by HNC cannot also be managed externally. '' @
             ''To manage this namespace with '' @ quote mgr @ '', first make it a root in HNC'')
      else Allow '''')"

definition cannotDeleteSubnamespace :: "NSRequest \<Rightarrow> Forest \<Rightarrow> (Response \<times> Forest) option" where
  "cannotDeleteSubnamespace req f =
     (let parent = get_str (nil_map (nsi_annotations (nsr_ns req))) SubnamespaceOf in
      if parent = '''' then Some (Allow '''', f)
      else do {
        (p, f) \<leftarrow> GetP parent f;
        if HasAnchor f p (nsi_name (nsr_ns req))
        then Some (DenyForbidden (''is a subnamespace. Please delete the anchor from the parent namespace '' @ parent @
               '' to delete the subnamespace''), f)
        else Some (Allow '''', f) })"

fun subns_loop :: "string list \<Rightarrow> Forest \<Rightarrow> (Response \<times> Forest) option" where
  "subns_loop [] f = Some (Allow ''no subnamespaces found'', f)"
| "subns_loop (cnm # cnms) f = do {
     (cns, f) \<leftarrow> GetP cnm f;
     if ns_IsSub (deref f cns)
     then Some (DenyForbidden (''contains subnamespaces. Please remove all subnamespaces before deleting this namespace, '' @
            ''or set 'allowCascadingDeletion' to delete them automatically''), f)
     else subns_loop cnms f }"

definition illegalCascadingDeletion :: "nsptr \<Rightarrow> Forest \<Rightarrow> (Response \<times> Forest) option" where
  "illegalCascadingDeletion ns f =
     (if AllowsCascadingDeletion f ns then Some (Allow '''', f) else subns_loop (ChildNames f ns) f)"

section \<open>The handler\<close>

definition handle_namespace :: "Config \<Rightarrow> NSRequest \<Rightarrow> Forest \<Rightarrow> (Response \<times> Forest) option" where
  "handle_namespace c req f =
     (let (ns, f) = Get (nsi_name (nsr_ns req)) f in
      case nsr_op req of
        Create \<Rightarrow>
          if \<not> Allowed (illegalIncludedNamespaceLabel c req) then Some (illegalIncludedNamespaceLabel c req, f)
          else do {
            (rsp, f) \<leftarrow> nameExistsInExternalHierarchy req f;
            if \<not> Allowed rsp then Some (rsp, f)
            else if \<not> Allowed (illegalTreeLabel req) then Some (illegalTreeLabel req, f)
            else Some (Allow '''', f) }
      | Update \<Rightarrow>
          if \<not> Allowed (illegalIncludedNamespaceLabel c req) then Some (illegalIncludedNamespaceLabel c req, f)
          else if \<not> Allowed (conflictBetweenParentAndExternalManager req ns f)
          then Some (conflictBetweenParentAndExternalManager req ns f, f)
          else if \<not> Allowed (illegalTreeLabel req) then Some (illegalTreeLabel req, f)
          else Some (Allow '''', f)
      | Delete \<Rightarrow> do {
          (rsp, f) \<leftarrow> cannotDeleteSubnamespace req f;
          if \<not> Allowed rsp then Some (rsp, f)
          else do {
            a \<leftarrow> ns;
            (rsp, f) \<leftarrow> illegalCascadingDeletion a f;
            if \<not> Allowed rsp then Some (rsp, f) else Some (Allow '''', f) } }
      | _ \<Rightarrow> Some (Allow '''', f))"

definition decodeRequest_ns :: "Operation \<Rightarrow> string + NamespaceInst \<Rightarrow> string + NamespaceInst \<Rightarrow> string + NSRequest" where
  "decodeRequest_ns op new old =
     (case (if op = Delete then old else new) of
        Inl err \<Rightarrow> Inl err
      | Inr ns \<Rightarrow>
          if op = Update
          then (case old of
              Inl err \<Rightarrow> Inl err
            | Inr oldns \<Rightarrow> Inr \<lparr>nsr_ns = ns, nsr_oldns = Some oldns, nsr_op = op\<rparr>)
          else Inr \<lparr>nsr_ns = ns, nsr_oldns = None, nsr_op = op\<rparr>)"

definition Handle_namespace ::
  "Config \<Rightarrow> string list \<Rightarrow> Operation \<Rightarrow> string + NamespaceInst \<Rightarrow> string + NamespaceInst \<Rightarrow> Forest \<Rightarrow>
   (Response \<times> Forest) option" where
  "Handle_namespace c groups op new old f =
     (if IsHNCServiceAccount c (Some groups) then Some (Allow ''HNC SA'', f)
      else (case decodeRequest_ns op new old of
          Inl err \<Rightarrow> Some (DenyBadRequest err, f)
        | Inr req \<Rightarrow> handle_namespace c req f))"

end
