(* ===== verification/Admission.thy ===== *)
theory Admission
  imports Hierarchy_Admission ObjectsValidator NamespaceValidator Config_Conflicts
begin

text \<open>
  What the admission webhooks allow: the handler of hierarchy configurations as a whole, and the handlers of
  objects, namespaces and anchors.
\<close>

section \<open>Hierarchy configurations\<close>

lemma Get_inv: "forest_inv f \<Longrightarrow> forest_inv (snd (Get nm f))"
  using alloc_inv by (cases nm f rule: Get_cases) (auto simp: alloc_def)

text \<open>A lookup that returns an existing namespace, or the parent of another one, did not allocate.\<close>

lemma Get_unchanged:
  assumes "fst (Get nm f) = Some a" "ns_exists (deref (snd (Get nm f)) a) \<or> valid f a"
  shows "snd (Get nm f) = f"
  using assms by (cases nm f rule: Get_cases) (auto simp: valid_def deref_alloc alloc_def [symmetric])

lemma Get_registered_result:
  assumes "wf_forest f" "fst (Get nm f) = Some a"
  shows "registered (snd (Get nm f)) a" "nm_of (snd (Get nm f)) a = nm"
proof -
  have "nm \<noteq> ''''" using assms(2) by (auto simp: Get_def)
  then show "registered (snd (Get nm f)) a" "nm_of (snd (Get nm f)) a = nm"
    using Get_result [OF assms(1)] assms(2) by (metis option.inject)+
qed

lemma checkNS_returns:
  assumes "forest_inv f" "registered f a"
  shows "\<exists>resp. checkNS f a = Some resp \<and> (Allowed resp \<longrightarrow> ns_exists (deref f a) \<and>
    (GetHaltedRoot f (Some a) = Some '''' \<or> GetHaltedRoot f (Some a) = Some (nm_of f a)))"
proof -
  obtain h where "GetHaltedRoot f (Some a) = Some h"
    using GetHaltedRoot_returns_iff [of f a] cycles_halted_returns [of f a] assms by (auto simp: forest_inv_def)
  then show ?thesis by (auto simp: checkNS_def Exists_def)
qed

text \<open>What an accepted change of parent promises.\<close>

definition parent_ok :: "SelectorLib \<Rightarrow> Config \<Rightarrow> Forest \<Rightarrow> nsptr \<Rightarrow> nsptr option \<Rightarrow> nsptr option \<Rightarrow> bool" where
  "parent_ok lib c f a cur new \<longleftrightarrow> (IsExternal f a \<longrightarrow> new = None) \<and> (cur = new \<or>
     \<not> ns_IsSub (deref f a) \<and> CanSetParent f a new = '''' \<and>
     (\<forall>q. new = Some q \<longrightarrow> ns_exists (deref f q) \<and> (\<forall>t \<in> set (f_types f). \<not> reparent_conflict lib c f q a t)))"

lemma checkParent_eq:
  assumes "wf_forest f" "sources_ok lib f" "registered f a" "\<And>q. new = Some q \<Longrightarrow> registered f q"
  shows "\<exists>resp. checkParent lib c a cur new f = Some (resp, f) \<and> (Allowed resp \<longleftrightarrow> parent_ok lib c f a cur new)"
proof -
  obtain cs where cs: "getConflictingObjects lib c new a f = Some (cs, f)"
    "cs \<noteq> [] \<longleftrightarrow> (\<exists>q. new = Some q \<and> (\<exists>t \<in> set (f_types f). reparent_conflict lib c f q a t))"
    using getConflictingObjects_eq [OF assms(1-3), of new c] assms(4) by blast
  have ok: "parent_ok lib c f a cur new \<longleftrightarrow> (IsExternal f a \<longrightarrow> new = None) \<and> (cur = new \<or>
      \<not> ns_IsSub (deref f a) \<and> CanSetParent f a new = '''' \<and> (\<forall>q. new = Some q \<longrightarrow> ns_exists (deref f q)) \<and> cs = [])"
  proof -
    have "(\<forall>q. new = Some q \<longrightarrow> ns_exists (deref f q) \<and> (\<forall>t \<in> set (f_types f). \<not> reparent_conflict lib c f q a t)) \<longleftrightarrow>
        (\<forall>q. new = Some q \<longrightarrow> ns_exists (deref f q)) \<and> cs = []"
      using cs(2) by (cases new; cases "cs = []") auto
    then show ?thesis unfolding parent_ok_def by simp
  qed
  show ?thesis
    using cs(1) unfolding ok by (cases new; cases "cs = []") (simp_all add: checkParent_def Exists_def)
qed

lemma checkForest_steps:
  assumes "forest_inv f" "sources_ok lib f" "hc_namespace hc \<noteq> ''''"
  shows "\<exists>a f1 new g r1 r2. Get (hc_namespace hc) f = (Some a, f1) \<and> Get (hc_parent hc) f1 = (new, g) \<and>
    wf_forest f1 \<and> registered f1 a \<and> nm_of f1 a = hc_namespace hc \<and> deref g a = deref f1 a \<and> forest_inv g \<and> sources_ok lib g \<and>
    (Allowed r1 \<longrightarrow> ns_exists (deref g a)) \<and> (Allowed r2 \<longleftrightarrow> parent_ok lib c g a (ns_parent (deref f1 a)) new) \<and>
    checkForest lib c hc f = (if \<not> Allowed r1 then Some ([], r1, g) else if \<not> Allowed r2 then Some ([], r2, g)
      else Some (getServerChecks c g (ns_parent (deref f1 a)) new, Allow '''', g))"
proof -
  define f1 where "f1 = snd (Get (hc_namespace hc) f)"
  define g where "g = snd (Get (hc_parent hc) f1)"
  define new where "new = fst (Get (hc_parent hc) f1)"
  have wf: "wf_forest f" using assms(1) by (simp add: forest_inv_def)
  obtain a where a: "fst (Get (hc_namespace hc) f) = Some a" "registered f1 a" "nm_of f1 a = hc_namespace hc"
    using Get_result [OF wf assms(3)] unfolding f1_def .
  have i1: "forest_inv f1" "sources_ok lib f1" using assms by (simp_all add: f1_def Get_inv sources_ok_Get)
  then have w1: "wf_forest f1" by (simp add: forest_inv_def)
  have ig: "forest_inv g" "sources_ok lib g" "wf_forest g"
    using i1 wf_Get [OF w1] by (simp_all add: g_def Get_inv sources_ok_Get)
  have ag: "registered g a" "deref g a = deref f1 a"
    using registered_Get [OF w1 a(2)] deref_Get [OF registered_valid [OF w1 a(2)]] by (simp_all add: g_def)
  have newr: "registered g q" if "new = Some q" for q
    using Get_registered_result [OF w1] that by (auto simp: g_def new_def)
  let ?cur = "ns_parent (deref f1 a)"
  have gets: "Get (hc_namespace hc) f = (Some a, f1)" "Get (hc_parent hc) f1 = (new, g)"
    using a(1) by (simp_all add: f1_def g_def new_def prod_eq_iff)
  obtain r1 where r1: "checkNS g a = Some r1" "Allowed r1 \<longrightarrow> ns_exists (deref g a)"
    using checkNS_returns [OF ig(1) ag(1)] by blast
  obtain r2 where r2: "checkParent lib c a ?cur new g = Some (r2, g)" "Allowed r2 \<longleftrightarrow> parent_ok lib c g a ?cur new"
    using checkParent_eq [OF ig(3,2) ag(1) newr, where cur = ?cur and new = new] by blast
  have "checkForest lib c hc f = (if \<not> Allowed r1 then Some ([], r1, g) else if \<not> Allowed r2 then Some ([], r2, g)
      else Some (getServerChecks c g ?cur new, Allow '''', g))"
    using r1(1) r2(1) by (simp add: checkForest_def Parent_def gets)
  then show ?thesis using gets w1 a(2,3) ag(2) ig(1,2) r1(2) r2(2) by blast
qed

lemma checkForest_ok:
  assumes "forest_inv f" "sources_ok lib f" "hc_namespace hc \<noteq> ''''"
  shows "\<exists>chks resp g. checkForest lib c hc f = Some (chks, resp, g) \<and> forest_inv g \<and> sources_ok lib g \<and>
    (Allowed resp \<longrightarrow> g = f \<and> (\<exists>a new. registered f a \<and> nm_of f a = hc_namespace hc \<and> ns_exists (deref f a) \<and>
       Get (hc_parent hc) f = (new, f) \<and> parent_ok lib c f a (ns_parent (deref f a)) new \<and>
       chks = getServerChecks c f (ns_parent (deref f a)) new))"
proof -
  obtain a f1 new g r1 r2 where s: "Get (hc_namespace hc) f = (Some a, f1)" "Get (hc_parent hc) f1 = (new, g)"
    "wf_forest f1" "registered f1 a" "nm_of f1 a = hc_namespace hc" "deref g a = deref f1 a" "forest_inv g" "sources_ok lib g"
    "Allowed r1 \<longrightarrow> ns_exists (deref g a)" "Allowed r2 \<longleftrightarrow> parent_ok lib c g a (ns_parent (deref f1 a)) new"
    "checkForest lib c hc f = (if \<not> Allowed r1 then Some ([], r1, g) else if \<not> Allowed r2 then Some ([], r2, g)
      else Some (getServerChecks c g (ns_parent (deref f1 a)) new, Allow '''', g))"
    using checkForest_steps [OF assms, of c] by blast
  show ?thesis
  proof (cases "Allowed r1 \<and> Allowed r2")
    case True
    have f1: "f1 = f" using Get_unchanged [of "hc_namespace hc" f a] s(1,6,9) True by simp
    have "valid f q" if "new = Some q" "ns_parent (deref f1 a) = Some q" for q
      using registered_parent [OF s(3,4) that(2)] registered_valid [OF s(3)] f1 by simp
    then have "g = f1" if "new = Some q" for q
      using s(2,10) True Get_unchanged [of "hc_parent hc" f1 q] f1 that by (auto simp: parent_ok_def)
    moreover have "g = f1" if "new = None"
      using s(2) that by (cases "hc_parent hc" f1 rule: Get_cases) auto
    ultimately have g: "g = f" using f1 by (cases new) auto
    have "checkForest lib c hc f = Some (getServerChecks c f (ns_parent (deref f a)) new, Allow '''', f)"
      using s(11) True g f1 by simp
    moreover have "Get (hc_parent hc) f = (new, f)" "registered f a" "nm_of f a = hc_namespace hc" "ns_exists (deref f a)"
      "parent_ok lib c f a (ns_parent (deref f a)) new" using s True g f1 by simp_all
    ultimately show ?thesis using assms(1,2) by blast
  next
    case False
    then have "\<exists>chks resp. checkForest lib c hc f = Some (chks, resp, g) \<and> \<not> Allowed resp"
      using s(11) by (cases "Allowed r1") simp_all
    then show ?thesis using s(7,8) by blast
  qed
qed

lemma handle_hc_ok:
  assumes "forest_inv f" "sources_ok lib f" "hc_namespace hc \<noteq> ''''"
  shows "\<exists>resp g. handle_hc lib kv c srv ui hc f = Some (resp, g) \<and> forest_inv g \<and> sources_ok lib g \<and>
    (Allowed resp \<and> \<not> IsHNCServiceAccount c (Some (ui_Groups ui)) \<longrightarrow> g = f \<and>
       IsManagedNamespace c (hc_namespace hc) \<and> IsManagedNamespace c (hc_parent hc) \<and>
       (\<exists>a new. registered f a \<and> nm_of f a = hc_namespace hc \<and> ns_exists (deref f a) \<and>
          Get (hc_parent hc) f = (new, f) \<and> parent_ok lib c f a (ns_parent (deref f a)) new \<and>
          list_all (check_passes srv ui) (getServerChecks c f (ns_parent (deref f a)) new)))"
proof -
  obtain chks r g where cf: "checkForest lib c hc f = Some (chks, r, g)" "forest_inv g" "sources_ok lib g"
    "Allowed r \<longrightarrow> g = f \<and> (\<exists>a new. registered f a \<and> nm_of f a = hc_namespace hc \<and> ns_exists (deref f a) \<and>
       Get (hc_parent hc) f = (new, f) \<and> parent_ok lib c f a (ns_parent (deref f a)) new \<and>
       chks = getServerChecks c f (ns_parent (deref f a)) new)"
    using checkForest_ok [OF assms, of c] by blast
  let ?bad = "IsHNCServiceAccount c (Some (ui_Groups ui)) \<or> WhyUnmanaged c (hc_namespace hc) \<noteq> '''' \<or>
    WhyUnmanaged c (hc_parent hc) \<noteq> '''' \<or>
    length (ValidateManagedLabels kv c (hc_labels hc) @ ValidateManagedAnnotations kv c (hc_annotations hc)) > 0"
  show ?thesis
  proof (cases ?bad)
    case True
    then have "\<exists>r. handle_hc lib kv c srv ui hc f = Some (r, f) \<and> (Allowed r \<longrightarrow> IsHNCServiceAccount c (Some (ui_Groups ui)))"
      by (auto simp: handle_hc_def Let_def)
    then show ?thesis using assms(1,2) by blast
  next
    case False
    then have "handle_hc lib kv c srv ui hc f = (if \<not> Allowed r then Some (r, g) else Some (checkServer srv ui chks, g))"
      using cf(1) by (simp add: handle_hc_def Let_def)
    then show ?thesis
      using False cf(2-4) checkServer_iff [of srv ui chks] by (cases "Allowed r") (auto simp: IsManagedNamespace_def)
  qed
qed

section \<open>Objects\<close>

lemma conflict_loop_eq:
  assumes "wf_forest f" "registered f a" "obj_namespace inst = nm_of f a" "GetTreeSelector lib inst \<noteq> None" "\<forall>d \<in> set ds. registered f d"
  shows "\<exists>cs. conflict_loop lib c inst (map (nm_of f) ds) acc f = Some (acc @ cs, f) \<and>
    (cs \<noteq> [] \<longleftrightarrow> (\<exists>d \<in> set ds. HasSourceObject f d (obj_gvk inst) (obj_name inst)) \<and>
       ShouldPropagate lib c inst (GetLabels f a) (syncType f (obj_gvk inst)) = Some (True, None))"
  using assms(5)
proof (induction ds arbitrary: acc)
  case (Cons d ds)
  obtain ok err where ok: "ShouldPropagate lib c inst (GetLabels f a) (syncType f (obj_gvk inst)) = Some (ok, err)" "err \<noteq> None \<longrightarrow> \<not> ok"
    using ShouldPropagate_returns [OF assms(4)] by blast
  define here where "here = (if HasSourceObject f d (obj_gvk inst) (obj_name inst) \<and> ok then [nm_of f d] else [])"
  obtain cs where cs: "conflict_loop lib c inst (map (nm_of f) ds) (acc @ here) f = Some ((acc @ here) @ cs, f)"
    "cs \<noteq> [] \<longleftrightarrow> (\<exists>d \<in> set ds. HasSourceObject f d (obj_gvk inst) (obj_name inst)) \<and> ok \<and> err = None"
    using Cons.IH [of "acc @ here"] Cons.prems ok by auto
  have "conflict_loop lib c inst (map (nm_of f) (d # ds)) acc f = Some (acc @ here @ cs, f)"
    using cs(1) Cons.prems ok(1) assms(2,3)
    by (cases ok; cases "HasSourceObject f d (obj_gvk inst) (obj_name inst)") (simp_all add: GetP_registered [OF assms(1)] here_def)
  moreover have "here @ cs \<noteq> [] \<longleftrightarrow> (\<exists>d \<in> set (d # ds). HasSourceObject f d (obj_gvk inst) (obj_name inst)) \<and> ok \<and> err = None"
    using cs(2) ok(2) by (auto simp: here_def)
  ultimately show ?case using ok(1) by (intro exI [of _ "here @ cs"]) simp
qed simp

lemma hasConflict_eq:
  assumes "forest_inv f" "registered f a" "obj_namespace inst = nm_of f a" "GetTreeSelector lib inst \<noteq> None"
  shows "\<exists>cs. hasConflict lib c inst f = Some (cs \<noteq> [], cs, f) \<and>
    (cs \<noteq> [] \<longleftrightarrow> (\<exists>d. registered f d \<and> (d, a) \<in> (parent_rel f)\<^sup>+ \<and> HasSourceObject f d (obj_gvk inst) (obj_name inst)) \<and>
       ShouldPropagate lib c inst (GetLabels f a) (syncType f (obj_gvk inst)) = Some (True, None))"
proof -
  have wf: "wf_forest f" using assms(1) by (simp add: forest_inv_def)
  obtain ps where ps: "DescendantNames a f = Some (map (nm_of f) ps, f)" "set ps = {d. registered f d \<and> (d, a) \<in> (parent_rel f)\<^sup>+}"
    using DescendantNames_ptrs [OF wf assms(2)] by blast
  have "\<forall>d \<in> set ps. registered f d" using ps(2) by simp
  from conflict_loop_eq [OF wf assms(2-4) this, of c "[]"]
  obtain cs where cs: "conflict_loop lib c inst (map (nm_of f) ps) [] f = Some (cs, f)"
    "cs \<noteq> [] \<longleftrightarrow> (\<exists>d \<in> set ps. HasSourceObject f d (obj_gvk inst) (obj_name inst)) \<and>
       ShouldPropagate lib c inst (GetLabels f a) (syncType f (obj_gvk inst)) = Some (True, None)" by auto
  have "obj_namespace inst \<noteq> ''''" using registered_name [OF wf assms(2)] assms(3) by simp
  then have "hasConflict lib c inst f = Some (cs \<noteq> [], cs, f)"
    using cs(1) ps(1) by (simp add: hasConflict_def assms(3) GetP_registered [OF wf assms(2)])
  then show ?thesis using cs(2) ps(2) by (intro exI [of _ cs]) (simp add: conj_assoc)
qed

lemma handleInherited_iff:
  "Allowed (handleInherited rd req newSource oldSource) \<longleftrightarrow>
     req_op req = Delete \<and> isDeletingNS (obj_namespace (req_oldObj req)) rd = Inr True \<or>
     req_op req = Update \<and> newSource = oldSource \<and> DeepEqual_obj (canonical (req_obj req)) (canonical (req_oldObj req)) \<and>
       DeepEqual_map (obj_labels (req_oldObj req)) (obj_labels (req_obj req)) \<and>
       DeepEqual_map (obj_annotations (req_oldObj req)) (obj_annotations (req_obj req))"
  by (auto simp: handleInherited_def split: Operation.splits sum.splits)

lemma inherited_iff: "snd (GetLabel obj LabelInheritedFrom) \<longleftrightarrow> hasPropagatedLabel obj"
  by (simp add: GetLabel_def hasPropagatedLabel_def split: option.split)

lemma handle_obj_inherited:
  assumes "hasPropagatedLabel (req_obj req) \<or> hasPropagatedLabel (req_oldObj req)"
  shows "handle_obj lib c rd req f = Some (handleInherited rd req (fst (GetLabel (req_obj req) LabelInheritedFrom))
    (fst (GetLabel (req_oldObj req) LabelInheritedFrom)), f)"
  using assms by (auto simp: handle_obj_def Let_def inherited_iff [symmetric] split: prod.splits)

text \<open>The checks on the annotations of a source.\<close>

definition annotations_ok :: "SelectorLib \<Rightarrow> Unstructured \<Rightarrow> Unstructured \<Rightarrow> bool" where
  "annotations_ok lib inst oldInst \<longleftrightarrow> validateSelectorAnnot inst = '''' \<and> validateSelectorChange lib inst oldInst = None \<and>
     validateTreeSelectorChange lib inst oldInst = Some None \<and> validateNoneSelectorChange inst oldInst = None \<and>
     validateAllSelectorChange inst oldInst = None \<and> validateSelectorUniqueness inst oldInst = ''''"

lemma checks_cascade:
  fixes a u x y :: string and sc nc ac :: "string option" and tc :: "string option option"
    and f :: Forest and R :: "(Response \<times> Forest) option"
  assumes "r = (if a \<noteq> '''' then Some (DenyBadRequest a, f)
    else (case sc of
        Some err \<Rightarrow> Some (DenyBadRequest (x @ err), f)
      | None \<Rightarrow> do {
          terr \<leftarrow> tc;
          case terr of
            Some err \<Rightarrow> Some (DenyBadRequest (y @ err), f)
          | None \<Rightarrow> (case nc of
              Some err \<Rightarrow> Some (DenyBadRequest err, f)
            | None \<Rightarrow> (case ac of
                Some err \<Rightarrow> Some (DenyBadRequest err, f)
              | None \<Rightarrow> if u \<noteq> '''' then Some (DenyBadRequest u, f) else R)) }))"
  shows "if a = '''' \<and> sc = None \<and> tc = Some None \<and> nc = None \<and> ac = None \<and> u = '''' then r = R
    else (\<exists>resp. r = Some (resp, f) \<and> \<not> Allowed resp) \<or> r = None \<and> a = '''' \<and> sc = None \<and> tc = None"
  unfolding assms by (cases sc; cases tc; cases nc; cases ac) (simp_all split: option.split)

lemma handle_obj_source:
  assumes "\<not> hasPropagatedLabel (req_obj req)" "\<not> hasPropagatedLabel (req_oldObj req)"
  shows "if annotations_ok lib (req_obj req) (req_oldObj req)
    then handle_obj lib c rd req f = (do {
        (yes, dnses, f) \<leftarrow> hasConflict lib c (req_obj req) f;
        if yes then Some (DenyConflict (''would overwrite objects in the following descendant namespace(s): '' @
          Join dnses '','' @ ''. To fix this, choose a different name for the object, or remove the conflicting objects from the listed namespaces''), f)
        else Some (Allow ''source object'', f) })
    else (\<exists>resp. handle_obj lib c rd req f = Some (resp, f) \<and> \<not> Allowed resp) \<or>
      handle_obj lib c rd req f = None \<and> validateTreeSelectorChange lib (req_obj req) (req_oldObj req) = None"
    (is "if _ then _ = ?R else _")
proof -
  obtain s1 s2 where lbl: "GetLabel (req_obj req) LabelInheritedFrom = (s1, False)" "GetLabel (req_oldObj req) LabelInheritedFrom = (s2, False)"
    using assms inherited_iff by (metis prod.collapse)
  have "if annotations_ok lib (req_obj req) (req_oldObj req) then handle_obj lib c rd req f = ?R
    else (\<exists>resp. handle_obj lib c rd req f = Some (resp, f) \<and> \<not> Allowed resp) \<or> handle_obj lib c rd req f = None \<and>
      validateSelectorAnnot (req_obj req) = '''' \<and> validateSelectorChange lib (req_obj req) (req_oldObj req) = None \<and>
      validateTreeSelectorChange lib (req_obj req) (req_oldObj req) = None"
    unfolding annotations_ok_def
    by (rule checks_cascade [where x = "''invalid Kubernetes labelSelector: ''" and
          y = "''invalid HNC '' @ quote AnnotationTreeSelector @ '' value: ''"])
      (simp only: handle_obj_def Let_def lbl prod.case if_True simp_thms append_assoc)
  then show ?thesis by (auto split: if_splits)
qed

section \<open>Namespaces\<close>

lemma find_None_pairs: "find P xs = None \<longleftrightarrow> (\<forall>x \<in> set xs. \<not> P x)"
  by (auto simp: find_None_iff)

text \<open>The tree labels of the old and the new namespace agree, up to absent ones that read as empty.\<close>

definition tree_labels_kept :: "(string, string) gomap \<Rightarrow> (string, string) gomap \<Rightarrow> bool" where
  "tree_labels_kept old new \<longleftrightarrow> (\<forall>k. Contains k LabelTreeDepthSuffix \<longrightarrow>
     get_str new k = get_str old k \<and> (has_key old k \<longrightarrow> has_key new k))"

lemma illegalTreeLabel_iff:
  assumes "distinct_keys (labels_of (nsr_ns req))"
  shows "Allowed (illegalTreeLabel req) \<longleftrightarrow>
    tree_labels_kept (case nsr_oldns req of None \<Rightarrow> [] | Some o1 \<Rightarrow> labels_of o1) (labels_of (nsr_ns req))"
proof -
  define new where "new = labels_of (nsr_ns req)"
  define old where "old = (case nsr_oldns req of None \<Rightarrow> [] | Some o1 \<Rightarrow> labels_of o1)"
  have "Allowed (illegalTreeLabel req) \<longleftrightarrow>
      find (\<lambda>(key, val). Contains key LabelTreeDepthSuffix \<and> get_str old key \<noteq> val) new = None \<and>
      find (\<lambda>key. Contains key LabelTreeDepthSuffix \<and> \<not> has_key new key) (keys old) = None"
    unfolding illegalTreeLabel_def Let_def new_def [symmetric] old_def [symmetric]
    by (simp split: option.split prod.split)
  also have "\<dots> \<longleftrightarrow> (\<forall>k v. map_of new k = Some v \<longrightarrow> Contains k LabelTreeDepthSuffix \<longrightarrow> get_str old k = v) \<and>
      (\<forall>k. Contains k LabelTreeDepthSuffix \<longrightarrow> has_key old k \<longrightarrow> has_key new k)"
    using assms unfolding new_def [symmetric] find_None_pairs by (auto simp: has_key_iff dom_map_of_conv_image_fst)
  also have "\<dots> \<longleftrightarrow> tree_labels_kept old new"
    unfolding tree_labels_kept_def by (auto simp: get_str_def has_key_def split: option.splits)
  finally show ?thesis unfolding new_def old_def .
qed

text \<open>A name that does not contain the tree suffix is never a key of the tree labels.\<close>

lemma GetTreeLabels_keys: "has_key (GetTreeLabels f a) k \<Longrightarrow> Contains k LabelTreeDepthSuffix"
proof -
  have "k \<in> set (keys (fold (\<lambda>(k, v) r. if \<not> Contains k s then r else AList.update k (Atoi v) r) m r)) \<Longrightarrow>
      Contains k s \<or> k \<in> set (keys r)" for m :: "(string, string) gomap" and s r
  proof (induction m arbitrary: r)
    case (Cons x m)
    show ?case using Cons.IH [of "if \<not> Contains (fst x) s then r else AList.update (fst x) (Atoi (snd x)) r"] Cons.prems
      by (cases "Contains (fst x) s") (auto simp: keys_update case_prod_beta simp del: set_map)
  qed simp
  then show "has_key (GetTreeLabels f a) k \<Longrightarrow> Contains k LabelTreeDepthSuffix"
    by (force simp: GetTreeLabels_def has_key_def map_of_eq_None_iff)
qed

lemma external_loop_allows:
  assumes "wf_forest f" "\<not> Contains reqnm LabelTreeDepthSuffix" "\<forall>nm \<in> set nms. nm \<in> set (keys (f_namespaces f))"
  shows "external_loop reqnm nms f = Some (Allow '''', f)"
  using assms(3)
proof (induction nms)
  case (Cons nm nms)
  then obtain a where "map_of (f_namespaces f) nm = Some a"
    using map_of_eq_None_iff [of "f_namespaces f" nm] by (cases "map_of (f_namespaces f) nm") auto
  then have "GetP nm f = Some (a, f)"
    using GetP_registered [OF assms(1) wf_lookup_registered [OF assms(1)]] wf_name [OF assms(1)] by metis
  then show ?case using Cons GetTreeLabels_keys [of f a reqnm] assms(2) by auto
qed simp

lemma subns_loop_eq:
  assumes "wf_forest f" "\<forall>d \<in> set ds. registered f d"
  shows "\<exists>resp. subns_loop (map (nm_of f) ds) f = Some (resp, f) \<and> (Allowed resp \<longleftrightarrow> (\<forall>d \<in> set ds. \<not> ns_IsSub (deref f d)))"
  using assms(2) by (induction ds) (auto simp: GetP_registered [OF assms(1)])

text \<open>What the handler of namespaces allows, by operation.\<close>

definition namespace_ok :: "Config \<Rightarrow> NSRequest \<Rightarrow> nsptr \<Rightarrow> Forest \<Rightarrow> bool" where
  "namespace_ok c req a f \<longleftrightarrow>
     (let ns = nsr_ns req; old = (case nsr_oldns req of None \<Rightarrow> [] | Some o1 \<Rightarrow> labels_of o1);
          mgr = get_str (nil_map (nsi_annotations ns)) AnnotationManagedBy;
          pnm = get_str (nil_map (nsi_annotations ns)) SubnamespaceOf
      in case nsr_op req of
        Create \<Rightarrow> Allowed (illegalIncludedNamespaceLabel c req) \<and> tree_labels_kept old (labels_of ns)
      | Update \<Rightarrow> Allowed (illegalIncludedNamespaceLabel c req) \<and> tree_labels_kept old (labels_of ns) \<and>
          (mgr \<noteq> '''' \<and> mgr \<noteq> MetaGroup \<longrightarrow> ns_parent (deref f a) = None)
      | Delete \<Rightarrow> (\<forall>p. registered f p \<longrightarrow> nm_of f p = pnm \<longrightarrow> \<not> HasAnchor f p (nsi_name ns)) \<and>
          (AllowsCascadingDeletion f a \<or> (\<forall>d. registered f d \<longrightarrow> ns_parent (deref f d) = Some a \<longrightarrow> \<not> ns_IsSub (deref f d)))
      | _ \<Rightarrow> True)"

lemma illegalCascadingDeletion_eq:
  assumes "wf_forest f" "registered f a"
  shows "\<exists>resp. illegalCascadingDeletion a f = Some (resp, f) \<and> (Allowed resp \<longleftrightarrow> AllowsCascadingDeletion f a \<or>
    (\<forall>d. registered f d \<longrightarrow> ns_parent (deref f d) = Some a \<longrightarrow> \<not> ns_IsSub (deref f d)))"
proof -
  obtain ps where ps: "ChildNames f a = map (nm_of f) ps" "set ps = {d. registered f d \<and> ns_parent (deref f d) = Some a}"
    using children_ptrs [OF assms] by blast
  obtain resp where "subns_loop (map (nm_of f) ps) f = Some (resp, f)" "Allowed resp \<longleftrightarrow> (\<forall>d \<in> set ps. \<not> ns_IsSub (deref f d))"
    using subns_loop_eq [OF assms(1), of ps] ps(2) by auto
  then show ?thesis using ps by (auto simp: illegalCascadingDeletion_def)
qed

lemma GetNamespaceNames_keys: "GetNamespaceNames f = keys (f_namespaces f)"
proof -
  have "fold (\<lambda>(nm, ns) names. names @ [nm]) m acc = acc @ keys m" for m :: "(string, nsptr) gomap" and acc
    by (induction m arbitrary: acc) auto
  then show ?thesis by (simp add: GetNamespaceNames_def)
qed

lemma nameExistsInExternalHierarchy_allows:
  assumes "wf_forest f" "\<not> Contains (nsi_name (nsr_ns req)) LabelTreeDepthSuffix"
  shows "nameExistsInExternalHierarchy req f = Some (Allow '''', f)"
  using external_loop_allows [OF assms, of "GetNamespaceNames f"]
  by (simp add: nameExistsInExternalHierarchy_def GetNamespaceNames_keys)

lemma Get_name: "registered f a \<Longrightarrow> wf_forest f \<Longrightarrow> nm_of (snd (Get nm f)) a = nm_of f a"
  by (cases nm f rule: Get_cases) (auto simp: deref_alloc alloc_def [symmetric] dest: registered_valid simp: valid_def)

lemma cannotDeleteSubnamespace_eq:
  assumes "forest_inv f"
  shows "\<exists>resp g. cannotDeleteSubnamespace req f = Some (resp, g) \<and> forest_inv g \<and>
    (\<forall>a. registered f a \<longrightarrow> registered g a \<and> nm_of g a = nm_of f a) \<and>
    (Allowed resp \<longleftrightarrow> (\<forall>p. registered g p \<longrightarrow>
       nm_of g p = get_str (nil_map (nsi_annotations (nsr_ns req))) SubnamespaceOf \<longrightarrow> \<not> HasAnchor g p (nsi_name (nsr_ns req))))"
proof -
  define pnm where "pnm = get_str (nil_map (nsi_annotations (nsr_ns req))) SubnamespaceOf"
  have wf: "wf_forest f" using assms by (simp add: forest_inv_def)
  show ?thesis
  proof (cases "pnm = ''''")
    case True
    then show ?thesis using assms registered_entry [OF wf]
      by (auto simp: cannotDeleteSubnamespace_def pnm_def [symmetric] wf_entry_def)
  next
    case False
    obtain p g where g: "GetP pnm f = Some (p, g)" "forest_inv g" "registered g p" "nm_of g p = pnm"
      using GetP_inv [OF assms False] by blast
    have "g = snd (Get pnm f)" using g(1) by (auto simp: GetP_def split: prod.splits option.splits)
    then have "registered f a \<Longrightarrow> registered g a \<and> nm_of g a = nm_of f a" for a
      using registered_Get [OF wf] Get_name [OF _ wf] by blast
    moreover have "(\<forall>q. registered g q \<longrightarrow> nm_of g q = pnm \<longrightarrow> \<not> HasAnchor g q nm) \<longleftrightarrow> \<not> HasAnchor g p nm" for nm
      using registered_inj [OF _ g(3)] g(3,4) by metis
    ultimately show ?thesis using g(1,2) False
      unfolding cannotDeleteSubnamespace_def pnm_def [symmetric]
      by (cases "HasAnchor g p (nsi_name (nsr_ns req))") simp_all
  qed
qed

lemma handle_namespace_iff:
  assumes "forest_inv f" "nsi_name (nsr_ns req) \<noteq> ''''" "distinct_keys (labels_of (nsr_ns req))"
    and "nsr_op req = Create \<longrightarrow> \<not> Contains (nsi_name (nsr_ns req)) LabelTreeDepthSuffix"
  shows "\<exists>resp g a. handle_namespace c req f = Some (resp, g) \<and> forest_inv g \<and>
    registered g a \<and> nm_of g a = nsi_name (nsr_ns req) \<and> (Allowed resp \<longleftrightarrow> namespace_ok c req a g)"
proof -
  obtain a h where "GetP (nsi_name (nsr_ns req)) f = Some (a, h)" "forest_inv h"
      "registered h a" "nm_of h a = nsi_name (nsr_ns req)"
    using GetP_inv [OF assms(1,2)] by blast
  then have h: "Get (nsi_name (nsr_ns req)) f = (Some a, h)" "forest_inv h"
      "registered h a" "nm_of h a = nsi_name (nsr_ns req)"
    by (auto simp: GetP_def split: prod.splits option.splits)
  note lbl = illegalTreeLabel_iff [OF assms(3)]
  have wf: "wf_forest h" using h(2) by (simp add: forest_inv_def)
  show ?thesis
  proof (cases "nsr_op req")
    case Create
    then show ?thesis
      using h nameExistsInExternalHierarchy_allows [OF wf, of req] assms(4) lbl
      by (auto simp: handle_namespace_def namespace_ok_def Let_def)
  next
    case Update
    then show ?thesis
      using h lbl by (auto simp: handle_namespace_def namespace_ok_def Let_def conflictBetweenParentAndExternalManager_def Parent_def)
  next
    case Delete
    obtain resp g where g: "cannotDeleteSubnamespace req h = Some (resp, g)" "forest_inv g" "registered g a" "nm_of g a = nm_of h a"
      "Allowed resp \<longleftrightarrow> (\<forall>p. registered g p \<longrightarrow>
        nm_of g p = get_str (nil_map (nsi_annotations (nsr_ns req))) SubnamespaceOf \<longrightarrow> \<not> HasAnchor g p (nsi_name (nsr_ns req)))"
      using cannotDeleteSubnamespace_eq [OF h(2), of req] h(3) by blast
    obtain r2 where "illegalCascadingDeletion a g = Some (r2, g)" "Allowed r2 \<longleftrightarrow> AllowsCascadingDeletion g a \<or>
        (\<forall>d. registered g d \<longrightarrow> ns_parent (deref g d) = Some a \<longrightarrow> \<not> ns_IsSub (deref g d))"
      using illegalCascadingDeletion_eq [OF _ g(3)] g(2) by (auto simp: forest_inv_def)
    then show ?thesis
      using h g Delete by (auto simp: handle_namespace_def namespace_ok_def Let_def)
  qed (use h in \<open>auto simp: handle_namespace_def namespace_ok_def Let_def\<close>)
qed

section \<open>An accepted change of parent\<close>

text \<open>Performing the change keeps the forest invariant and creates no cycle.\<close>

lemma accepted_parent:
  assumes "forest_inv f" "registered f a" "ns_exists (deref f a)" "CanSetParent f a new = ''''"
    and "\<And>q. new = Some q \<Longrightarrow> registered f q \<and> ns_exists (deref f q)"
  shows "\<exists>h. SetParent a new f = Some h \<and> forest_inv h \<and> \<not> in_cycle h a \<and> ns_parent (deref h a) = new"
proof -
  have wf: "wf_forest f" "parents_exist f" using assms(1) by (simp_all add: forest_inv_def)
  have cr: "can_relink f a new"
    using parents_exist_safe [OF wf assms(2)] assms(5) by (auto simp: can_relink_def dropped_def split: option.split)
  obtain h where h: "SetParent a new f = Some h" "usage_only (relinked f a new) h"
    using SetParent_total [OF wf(1) assms(2) cr] by blast
  have e: "inv_except a h" "ns_parent (deref h a) = new" "ns_exists (deref h a)"
    using SetParent_except [OF inv_to_except [OF assms(1,2)] cr] h(1) assms(3) by auto
  have "\<not> in_cycle (relinked f a new) a"
    using relinked_cycle [OF wf(1) assms(2)] relinked_facts(3) [OF wf(1) assms(2) cr, of a] cr assms(4)
    by (cases new) (auto simp: in_cycle_def trancl_parent)
  then have "\<not> in_cycle h a" by (simp add: shape_simps [OF usage_only_shape [OF h(2)]])
  then show ?thesis using h(1) e inv_except_close [OF e(1)] by blast
qed

end
