(* ===== verification/Config_Modes.thy ===== *)
theory Config_Modes
  imports Config_Properties Admission
begin

text \<open>
  The effect of a whole reconciliation of the configuration on the type syncers: which kinds have one, and in
  which mode it is.
\<close>

section \<open>Active kinds\<close>

definition agrees :: "RESTMapper \<Rightarrow> ConfigEnv \<Rightarrow> bool" where
  "agrees m e \<longleftrightarrow> (\<forall>gr gvk md. (gr, gvk, md) \<in> set (ce_activeGVKMode e) \<longrightarrow> active_mode e gvk = Some md)"

lemma set_update_subset: "set (AList.update k v al) \<subseteq> insert (k, v) (set al)"
  by (induction al) auto

lemma activate_agrees:
  assumes "active_ok m e" "agrees m e" "NamespacedKindFor m gr = Inr gvk" "active_mode e gvk = None \<or> active_mode e gvk = Some mode"
  shows "agrees m (activate gr gvk mode e)"
  unfolding agrees_def active_mode_activate [OF assms(1,3)]
proof (intro allI impI)
  fix gr' g md assume "(gr', g, md) \<in> set (ce_activeGVKMode (activate gr gvk mode e))"
  then have "(gr', g, md) = (gr, gvk, mode) \<or> (gr', g, md) \<in> set (ce_activeGVKMode e)"
    using set_update_subset [of gr "(gvk, mode)" "ce_activeGVKMode e"] by (auto simp: activate_def)
  then show "((active_mode e)(gvk \<mapsto> mode)) g = Some md" using assms(2,4) by (auto simp: agrees_def)
qed

lemma configTypes_loop_agrees:
  assumes "active_ok m e" "agrees m e" "configTypes_loop now m ts inst e = (inst', e')"
  shows "agrees m e' \<and> ce_obj e' = ce_obj e"
  using assms
proof (induction now m ts inst e rule: configTypes_loop.induct)
  case (2 now m t ts inst e)
  show ?case
  proof (cases "NamespacedKindFor m (gr_of t)")
    case (Inl err)
    then show ?thesis using 2 by (simp add: Let_def gr_of_def)
  next
    case (Inr g)
    note kind = Inr [unfolded gr_of_def]
    show ?thesis
    proof (cases "map_of (ce_activeGR e) g")
      case None
      then have "active_mode e g = None" by (simp add: active_mode_def)
      then have "active_ok m (activate (gr_of t) g (rs_mode t) e)" "agrees m (activate (gr_of t) g (rs_mode t) e)"
        using activate_ok [OF "2.prems"(1) Inr] activate_agrees [OF "2.prems"(1,2) Inr] by simp_all
      then show ?thesis using 2 kind None by (simp add: Let_def gr_of_def activate_def)
    next
      case (Some fgr)
      then show ?thesis using 2 kind by (simp add: Let_def)
    qed
  qed
qed simp

lemma ensureEnforced_loop_agrees:
  assumes "active_ok m e" "agrees m e" "list_all (\<lambda>t. rs_mode t = Propagate) ts"
    and "\<And>g. active_mode e g = None \<or> active_mode e g = Some Propagate" "ensureEnforced_loop now m ts inst e = (err, inst', e')"
  shows "agrees m e' \<and> ce_obj e' = ce_obj e"
  using assms
proof (induction now m ts inst e rule: ensureEnforced_loop.induct)
  case (2 now m t ts inst e)
  show ?case
  proof (cases "NamespacedKindFor m (gr_of t)")
    case (Inl err)
    then show ?thesis using 2 by (simp add: Let_def gr_of_def)
  next
    case (Inr g)
    let ?e = "activate (gr_of t) g (rs_mode t) e"
    have "active_ok m ?e" "agrees m ?e" "\<And>h. active_mode ?e h = None \<or> active_mode ?e h = Some Propagate"
      using activate_ok [OF "2.prems"(1) Inr] activate_agrees [OF "2.prems"(1,2) Inr] active_mode_activate [OF "2.prems"(1) Inr] "2.prems"(3,4)
      by simp_all
    then show ?thesis using 2 Inr [unfolded gr_of_def] by (simp add: Let_def gr_of_def activate_def)
  qed
qed simp

lemma reconcileTypes_agrees:
  assumes "reconcileTypes now m inst e = (err, inst', e')"
  shows "agrees m e' \<and> ce_obj e' = ce_obj e \<and> (err = None \<longrightarrow> active_ok m e')"
proof -
  let ?e0 = "e\<lparr>ce_activeGVKMode := [], ce_activeGR := []\<rparr>"
  obtain err1 i1 e1 where en: "ensureEnforcedTypes now m inst ?e0 = (err1, i1, e1)" by (metis prod_cases3)
  have "active_ok m ?e0" "agrees m ?e0" "\<And>g. active_mode ?e0 g = None"
    by (auto simp: active_ok_def agrees_def active_mode_def)
  then have a: "agrees m e1" "ce_obj e1 = ce_obj e"
    using ensureEnforced_loop_agrees [of m ?e0 EnforcedTypes now inst err1 i1 e1] en
    by (auto simp: ensureEnforcedTypes_def EnforcedTypes_def)
  show ?thesis
  proof (cases err1)
    case None
    then have "active_ok m e1" using ensureEnforced_modes [of now m inst ?e0 i1 e1] en by simp
    moreover obtain i2 e2 where "configTypes_loop now m (cfg_resources i1) i1 e1 = (i2, e2)" by fastforce
    ultimately show ?thesis
      using assms en None a configTypes_loop_agrees [of m e1 now "cfg_resources i1" i1 i2 e2]
        configTypes_loop_modes [of m e1 now "cfg_resources i1" i1 i2 e2]
      by (simp add: reconcileTypes_def reconcileConfigTypes_def)
  next
    case (Some x)
    then show ?thesis using assms en a by (auto simp: reconcileTypes_def)
  qed
qed

section \<open>Type syncers\<close>

definition type_modes :: "TypeSyncer list \<Rightarrow> GroupVersionKind \<Rightarrow> SynchronizationMode option" where
  "type_modes ts gvk = map_option ts_Mode (find (\<lambda>t. ts_GVK t = gvk) ts)"

definition documented :: "SynchronizationMode \<Rightarrow> bool" where
  "documented md \<longleftrightarrow> md \<in> set [Propagate, Ignore, Remove, AllowPropagate]"

definition types_valid :: "Forest \<Rightarrow> bool" where
  "types_valid f \<longleftrightarrow> types_ok f \<and> list_all (\<lambda>t. documented (ts_Mode t)) (f_types f)"

lemma documented_GetValidateMode [simp]: "documented (GetValidateMode md)"
  by (cases md) (simp_all add: documented_def)

lemma type_modes_simps [simp]:
  "type_modes [] g = None" "type_modes (t # ts) g = (if ts_GVK t = g then Some (ts_Mode t) else type_modes ts g)"
  by (simp_all add: type_modes_def)

lemma type_modes_update:
  assumes "distinct (map ts_GVK ts)" "r < length ts"
  shows "type_modes (ts[r := (ts ! r)\<lparr>ts_Mode := md\<rparr>]) g = (if g = ts_GVK (ts ! r) then Some md else type_modes ts g)"
  using assms
proof (induction ts arbitrary: r)
  case (Cons t ts)
  show ?case
  proof (cases r)
    case (Suc r')
    have "ts_GVK (ts ! r') \<in> set (map ts_GVK ts)" using Cons.prems(2) Suc by simp
    then have "ts_GVK t \<noteq> ts_GVK (ts ! r')" using Cons.prems(1) by auto
    then show ?thesis using Cons.IH [of r'] Cons.prems Suc by auto
  qed auto
qed simp

lemma type_modes_append:
  "type_modes (ts @ [t]) g = (case type_modes ts g of None \<Rightarrow> if ts_GVK t = g then Some (ts_Mode t) else None | Some md \<Rightarrow> Some md)"
  by (induction ts) auto

lemma type_modes_None: "type_modes ts g = None \<longleftrightarrow> g \<notin> ts_GVK ` set ts"
  by (auto simp: type_modes_def find_None_iff)

lemma ts_index_Some: "ts_index f g = Some r \<Longrightarrow> r < length (f_types f) \<and> ts_GVK (f_types f ! r) = g"
  by (auto simp: ts_index_def find_Some_iff)

lemma ts_index_None: "ts_index f g = None \<longleftrightarrow> type_modes (f_types f) g = None"
  unfolding ts_index_def find_None_iff type_modes_None using nth_mem by (fastforce simp: in_set_conv_nth)

definition only_types :: "Forest \<Rightarrow> Forest \<Rightarrow> bool" where
  "only_types f g \<longleftrightarrow> g = f\<lparr>f_types := f_types g\<rparr>"

lemma only_types_trans: "only_types f g \<Longrightarrow> only_types g h \<Longrightarrow> only_types f h"
  unfolding only_types_def by (metis (no_types, lifting) Forest.surjective Forest.update_convs(3))

lemma enqueue_forest [simp]: "oe_forest (snd (enqueueAllObjects lst e)) = oe_forest e"
proof -
  have items: "oe_forest (fold (\<lambda>inst e. e\<lparr>oe_affected := oe_affected e @ [h inst]\<rparr>) xs e) = oe_forest e"
    for h :: "Unstructured \<Rightarrow> Unstructured" and xs and e :: ObjEnv by (induction xs arbitrary: e) auto
  then have "oe_forest (snd (enqueueExistingObjects lst nm e)) = oe_forest e" for nm e
    by (simp add: enqueueExistingObjects_def split: sum.split)
  then have "oe_forest (snd (enqueue_in_namespaces lst nms e)) = oe_forest e" for nms
    by (induction nms arbitrary: e) (auto split: prod.split option.split; metis snd_conv)+
  then show ?thesis by (simp add: enqueueAllObjects_def)
qed

lemma enqueue_result: "enqueueAllObjects lst e = (err, e') \<Longrightarrow> oe_forest e' = oe_forest e"
  using enqueue_forest [of lst e] by simp

lemma SetMode_modes:
  assumes "types_valid (oe_forest e)" "r < length (f_types (oe_forest e))" "SetMode lst r mode e = (err, e')"
  shows "types_valid (oe_forest e') \<and> only_types (oe_forest e) (oe_forest e') \<and>
    map ts_GVK (f_types (oe_forest e')) = map ts_GVK (f_types (oe_forest e)) \<and>
    type_modes (f_types (oe_forest e')) =
      (type_modes (f_types (oe_forest e)))(ts_GVK (f_types (oe_forest e) ! r) \<mapsto> GetValidateMode mode)"
proof -
  let ?ts = "f_types (oe_forest e)"
  let ?us = "?ts[r := (?ts ! r)\<lparr>ts_Mode := GetValidateMode mode\<rparr>]"
  have v: "distinct (map ts_GVK ?ts)" "list_all (\<lambda>t. documented (ts_Mode t)) ?ts"
    using assms(1) by (auto simp: types_valid_def types_ok_def)
  have e': "oe_forest e' = (oe_forest e)\<lparr>f_types := ?us\<rparr>"
  proof (cases "GetValidateMode mode = GetMode (oe_forest e) r")
    case True
    then have "?us = ?ts" using assms(2) by (simp add: GetMode_def ts_deref_def)
    then show ?thesis using True assms(3) by (simp add: SetMode_def)
  next
    case False
    then show ?thesis
      using assms(2,3) by (auto simp: SetMode_def Let_def ts_modify_def ts_deref_def split: if_splits dest: enqueue_result)
  qed
  have g: "map ts_GVK ?us = map ts_GVK ?ts" using assms(2) by (simp add: map_update list_update_same_conv)
  have "list_all (\<lambda>t. documented (ts_Mode t)) ?us"
    using v(2) set_update_subset_insert [of ?ts r "(?ts ! r)\<lparr>ts_Mode := GetValidateMode mode\<rparr>"] by (auto simp: list_all_iff)
  then show ?thesis
    using e' v(1) g type_modes_update [OF v(1) assms(2)]
    by (auto simp: types_valid_def types_ok_def only_types_def fun_eq_iff)
qed

text \<open>What a pass over the active kinds does to the modes.\<close>

lemma createObjectReconciler_modes:
  assumes "types_valid (oe_forest e)" "ts_index (oe_forest e) g = None" "createObjectReconciler now st g md inst e = (inst', e')"
  shows "types_valid (oe_forest e') \<and> only_types (oe_forest e) (oe_forest e') \<and>
    type_modes (f_types (oe_forest e')) = (if st g = None
      then (type_modes (f_types (oe_forest e)))(g \<mapsto> GetValidateMode md) else type_modes (f_types (oe_forest e)))"
proof (cases "st g")
  case None
  have "type_modes (f_types (oe_forest e)) g = None" using assms(2) by (simp add: ts_index_None)
  moreover from this have "g \<notin> ts_GVK ` set (f_types (oe_forest e))" by (simp add: type_modes_None)
  moreover have "oe_forest e' = AddTypeSyncer \<lparr>ts_GVK = g, ts_Mode = GetValidateMode md, ts_propagatedObjects = []\<rparr> (oe_forest e)"
    using assms(3) None by (auto simp: createObjectReconciler_def)
  ultimately show ?thesis
    using assms(1) None
    by (auto simp: AddTypeSyncer_def types_valid_def types_ok_def only_types_def fun_eq_iff type_modes_append split: option.split)
next
  case (Some x)
  then show ?thesis using assms(1,3) by (simp add: createObjectReconciler_def only_types_def)
qed

definition mode_step ::
  "(GroupVersionKind \<Rightarrow> string option) \<Rightarrow> GroupVersionKind \<times> SynchronizationMode \<Rightarrow>
   (GroupVersionKind \<rightharpoonup> SynchronizationMode) \<Rightarrow> (GroupVersionKind \<rightharpoonup> SynchronizationMode)" where
  "mode_step st gm ms = (if ms (fst gm) = None \<and> st (fst gm) \<noteq> None then ms else ms(fst gm \<mapsto> GetValidateMode (snd gm)))"

lemma syncActive_loop_modes:
  assumes "types_valid (oe_forest e)" "syncActive_loop now lst st gms inst e = (err, inst', e')"
  shows "types_valid (oe_forest e') \<and> only_types (oe_forest e) (oe_forest e') \<and>
    (err = None \<longrightarrow> type_modes (f_types (oe_forest e')) = fold (mode_step st) gms (type_modes (f_types (oe_forest e))))"
  using assms
proof (induction gms arbitrary: inst e)
  case (Cons gm gms)
  obtain g md where gm: "gm = (g, md)" by fastforce
  let ?ms = "type_modes (f_types (oe_forest e))"
  have step: ?case if e1: "types_valid (oe_forest e1)" "only_types (oe_forest e) (oe_forest e1)"
      "type_modes (f_types (oe_forest e1)) = mode_step st gm ?ms" "syncActive_loop now lst st gms inst1 e1 = (err, inst', e')"
    for inst1 e1 using Cons.IH [OF e1(1,4)] e1(2,3) only_types_trans by auto
  show ?case
  proof (cases "ts_index (oe_forest e) g")
    case (Some r)
    obtain err1 e1 where s: "SetMode (lst g) r md e = (err1, e1)" by fastforce
    have ms: "?ms g \<noteq> None" using Some ts_index_None [of "oe_forest e" g] by auto
    have e1: "types_valid (oe_forest e1)" "only_types (oe_forest e) (oe_forest e1)"
      "type_modes (f_types (oe_forest e1)) = mode_step st gm ?ms"
      using SetMode_modes [OF Cons.prems(1) _ s] ts_index_Some [OF Some] ms by (auto simp: gm mode_step_def)
    show ?thesis
    proof (cases err1)
      case None
      then have "syncActive_loop now lst st gms inst e1 = (err, inst', e')" using Cons.prems(2) s Some gm by simp
      then show ?thesis by (rule step [OF e1])
    next
      case (Some x)
      then show ?thesis using e1 Cons.prems(2) s \<open>ts_index (oe_forest e) g = Some r\<close> gm by auto
    qed
  next
    case None
    obtain inst1 e1 where c: "createObjectReconciler now st g md inst e = (inst1, e1)" by fastforce
    have "?ms g = None" using None by (simp add: ts_index_None)
    then have "types_valid (oe_forest e1)" "only_types (oe_forest e) (oe_forest e1)"
      "type_modes (f_types (oe_forest e1)) = mode_step st gm ?ms"
      using createObjectReconciler_modes [OF Cons.prems(1) None c] by (auto simp: gm mode_step_def)
    moreover have "syncActive_loop now lst st gms inst1 e1 = (err, inst', e')" using Cons.prems(2) c None gm by simp
    ultimately show ?thesis by (rule step)
  qed
qed (simp add: only_types_def)

lemma syncRemoved_loop_modes:
  assumes "types_valid (oe_forest e)" "\<forall>r \<in> set rs. r < length (f_types (oe_forest e))" "syncRemoved_loop lst active rs e = (err, e')"
  shows "types_valid (oe_forest e') \<and> only_types (oe_forest e) (oe_forest e') \<and>
    (err = None \<longrightarrow> type_modes (f_types (oe_forest e')) = (\<lambda>g.
       if g \<in> (\<lambda>r. ts_GVK (f_types (oe_forest e) ! r)) ` set rs \<and> g \<notin> fst ` set active then Some Ignore
       else type_modes (f_types (oe_forest e)) g))"
  using assms
proof (induction rs arbitrary: e)
  case (Cons r rs)
  let ?g = "ts_GVK (f_types (oe_forest e) ! r)"
  have r: "r < length (f_types (oe_forest e))" and g: "GetGVK (oe_forest e) r = ?g"
    using Cons.prems(2) by (auto simp: GetGVK_def ts_deref_def)
  have act: "list_ex (\<lambda>(h, md). ?g = h) active \<longleftrightarrow> ?g \<in> fst ` set active" by (force simp: list_ex_iff)
  show ?case
  proof (cases "?g \<in> fst ` set active")
    case True
    then have "syncRemoved_loop lst active rs e = (err, e')" using Cons.prems(3) act by (simp add: g)
    then show ?thesis using Cons.IH [OF Cons.prems(1)] Cons.prems(2) True by (auto simp: fun_eq_iff)
  next
    case False
    obtain err1 e1 where s: "SetMode (lst ?g) r Ignore e = (err1, e1)" by fastforce
    have e1: "types_valid (oe_forest e1)" "only_types (oe_forest e) (oe_forest e1)"
      "map ts_GVK (f_types (oe_forest e1)) = map ts_GVK (f_types (oe_forest e))"
      "type_modes (f_types (oe_forest e1)) = (type_modes (f_types (oe_forest e)))(?g \<mapsto> Ignore)"
      using SetMode_modes [OF Cons.prems(1) r s] by auto
    have len: "length (f_types (oe_forest e1)) = length (f_types (oe_forest e))" using e1(3) by (metis length_map)
    then have nth: "(\<lambda>r. ts_GVK (f_types (oe_forest e1) ! r)) ` set rs = (\<lambda>r. ts_GVK (f_types (oe_forest e) ! r)) ` set rs"
      using e1(3) Cons.prems(2) by (intro image_cong refl) (metis list.set_intros(2) nth_map)
    show ?thesis
    proof (cases err1)
      case None
      then have "syncRemoved_loop lst active rs e1 = (err, e')" using Cons.prems(3) False act s by (simp add: g)
      then show ?thesis
        using Cons.IH [OF e1(1), unfolded nth] len Cons.prems(2) False only_types_trans [OF e1(2)] by (auto simp: fun_eq_iff e1(4))
    next
      case (Some x)
      then show ?thesis using e1 Cons.prems(3) False act s by (auto simp: g)
    qed
  qed
qed (auto simp: only_types_def)

lemma fold_mode_step:
  assumes "\<forall>(g, md) \<in> set gms. M g = Some md"
  shows "fold (mode_step st) gms ms g = (if g \<in> fst ` set gms
    then (if ms g = None \<and> st g \<noteq> None then None else map_option GetValidateMode (M g)) else ms g)"
  using assms
proof (induction gms arbitrary: ms)
  case (Cons gm gms)
  obtain h md where gm: "gm = (h, md)" by fastforce
  then have M: "M h = Some md" using Cons.prems by auto
  have IH: "fold (mode_step st) gms (mode_step st gm ms) g = (if g \<in> fst ` set gms
    then (if mode_step st gm ms g = None \<and> st g \<noteq> None then None else map_option GetValidateMode (M g)) else mode_step st gm ms g)"
    by (rule Cons.IH) (use Cons.prems in simp)
  have step: "mode_step st gm ms g = (if g = h then (if ms g = None \<and> st g \<noteq> None then None else map_option GetValidateMode (M g)) else ms g)"
    using M by (auto simp: gm mode_step_def)
  have "fold (mode_step st) (gm # gms) ms g = fold (mode_step st) gms (mode_step st gm ms) g" by simp
  then show ?case unfolding IH step using M by (auto simp: gm)
qed simp

text \<open>The mode that a reconciliation leaves for a kind.\<close>

definition synced_mode ::
  "(GroupVersionKind \<Rightarrow> string option) \<Rightarrow> SynchronizationMode option \<Rightarrow> (GroupVersionKind \<rightharpoonup> SynchronizationMode) \<Rightarrow>
   GroupVersionKind \<Rightarrow> SynchronizationMode option" where
  "synced_mode st wanted ms g = (case wanted of
     Some md \<Rightarrow> if ms g = None \<and> st g \<noteq> None then None else Some (GetValidateMode md)
   | None \<Rightarrow> if ms g = None then None else Some Ignore)"

lemma syncObjectReconcilers_modes:
  assumes "types_valid (oe_forest (ce_obj e))" "agrees m e" "active_ok m e" "syncObjectReconcilers now lst st inst e = (err, inst', e')"
  shows "types_valid (oe_forest (ce_obj e')) \<and> only_types (oe_forest (ce_obj e)) (oe_forest (ce_obj e')) \<and>
    (err = None \<longrightarrow> (\<forall>g. type_modes (f_types (oe_forest (ce_obj e'))) g =
       synced_mode st (active_mode e g) (type_modes (f_types (oe_forest (ce_obj e)))) g))"
proof -
  let ?gms = "map snd (ce_activeGVKMode e)" and ?ms = "type_modes (f_types (oe_forest (ce_obj e)))"
  obtain err1 inst1 o1 where a: "syncActive_loop now lst st ?gms inst (ce_obj e) = (err1, inst1, o1)" by (metis prod_cases3)
  note A = syncActive_loop_modes [OF assms(1) a]
  have M: "\<forall>(g, md) \<in> set ?gms. active_mode e g = Some md" using assms(2) by (auto simp: agrees_def)
  have act: "g \<in> fst ` set ?gms \<longleftrightarrow> active_mode e g \<noteq> None" for g
  proof
    assume "active_mode e g \<noteq> None"
    then obtain gr where "map_of (ce_activeGR e) g = Some gr" by (auto simp: active_mode_def split: option.splits)
    then obtain md where "map_of (ce_activeGVKMode e) gr = Some (g, md)" using assms(3) by (auto simp: active_ok_def)
    then show "g \<in> fst ` set ?gms" by (force dest: map_of_SomeD)
  qed (use M in force)
  show ?thesis
  proof (cases err1)
    case None
    let ?rs = "[0..<length (f_types (oe_forest o1))]"
    obtain err2 o2 where r: "syncRemoved_loop lst ?gms ?rs o1 = (err2, o2)" by fastforce
    have rs: "(\<lambda>r. ts_GVK (f_types (oe_forest o1) ! r)) ` set ?rs = ts_GVK ` set (f_types (oe_forest o1))"
      using map_nth [of "f_types (oe_forest o1)"] by (metis (no_types, lifting) image_cong image_image set_map)
    have R: "types_valid (oe_forest o2)" "only_types (oe_forest o1) (oe_forest o2)"
      "err2 = None \<longrightarrow> type_modes (f_types (oe_forest o2)) = (\<lambda>g. if type_modes (f_types (oe_forest o1)) g \<noteq> None \<and> active_mode e g = None
         then Some Ignore else type_modes (f_types (oe_forest o1)) g)"
      using syncRemoved_loop_modes [of o1 ?rs lst ?gms err2 o2] A r unfolding rs act type_modes_None by auto
    have e': "err = err2" "ce_obj e' = o2"
      using assms(4) a None r by (auto simp: syncObjectReconcilers_def syncActiveReconcilers_def syncRemovedReconcilers_def)
    have "type_modes (f_types (oe_forest o1)) g = (if active_mode e g \<noteq> None
        then (if ?ms g = None \<and> st g \<noteq> None then None else map_option GetValidateMode (active_mode e g)) else ?ms g)" for g
      using A None fold_mode_step [OF M, of st ?ms g] unfolding act by simp
    then show ?thesis
      using A R e' only_types_trans by (auto simp: synced_mode_def split: option.splits)
  next
    case (Some x)
    then show ?thesis using assms(4) a A by (auto simp: syncObjectReconcilers_def syncActiveReconcilers_def)
  qed
qed

section \<open>The whole reconciliation\<close>

lemma only_types_inv: "only_types f g \<Longrightarrow> forest_inv f \<Longrightarrow> forest_inv g"
  using quiet_inv [OF calm_quiet [OF calm_types [of f "f_types g"]]] by (metis only_types_def)

lemma collect_conditions_returns:
  assumes "forest_inv f" "\<forall>nm \<in> set nms. nm \<in> set (keys (f_namespaces f))"
  shows "\<exists>cs. collect_conditions nms conds f = Some cs"
  using assms(2)
proof (induction nms arbitrary: conds)
  case (Cons nm nms)
  have wf: "wf_forest f" using assms(1) by (simp add: forest_inv_def)
  obtain a where a: "map_of (f_namespaces f) nm = Some a"
    using Cons.prems map_of_eq_None_iff [of "f_namespaces f" nm] by (cases "map_of (f_namespaces f) nm") auto
  then have r: "registered f a" "nm_of f a = nm" using wf_lookup_registered [OF wf] wf_name [OF wf] by auto
  then have "GetP nm f = Some (a, f)" using GetP_registered [OF wf r(1)] by simp
  moreover obtain cs where "Conditions f a = Some cs" using Conditions_returns [OF wf r(1)] assms(1) by (auto simp: forest_inv_def)
  ultimately show ?case using Cons by simp
qed simp

lemma loadNamespaceConditions_returns:
  assumes "forest_inv (oe_forest (ce_obj e))"
  shows "\<exists>inst'. loadNamespaceConditions now inst e = Some inst'"
  using collect_conditions_returns [OF assms, of "GetNamespaceNames (oe_forest (ce_obj e))" "[]"]
  by (auto simp: loadNamespaceConditions_def GetNamespaceNames_keys)

lemma Reconcile_config_effect:
  assumes "forest_inv (oe_forest (ce_obj e))" "types_valid (oe_forest (ce_obj e))"
  shows "\<exists>ws err e'. Reconcile_config now m lst st rd wr e = Some (ws, err, e') \<and>
    types_valid (oe_forest (ce_obj e')) \<and> only_types (oe_forest (ce_obj e)) (oe_forest (ce_obj e')) \<and>
    (err = None \<longrightarrow> (\<exists>inst. getSingleton_config rd = Inr inst \<and> (\<forall>gvk.
       type_modes (f_types (oe_forest (ce_obj e'))) gvk =
         synced_mode st (map_option rs_mode (find (maps_to m gvk) (EnforcedTypes @ cfg_resources inst)))
           (type_modes (f_types (oe_forest (ce_obj e)))) gvk)))"
proof (cases "getSingleton_config rd")
  case (Inl err)
  then show ?thesis using assms(2) by (simp add: Reconcile_config_def only_types_def)
next
  case (Inr inst)
  let ?inst = "inst\<lparr>cfg_conditions := []\<rparr>"
  obtain err1 i1 e1 where t: "reconcileTypes now m ?inst e = (err1, i1, e1)" by (metis prod_cases3)
  have e1: "agrees m e1" "ce_obj e1 = ce_obj e" "err1 = None \<longrightarrow> active_ok m e1" using reconcileTypes_agrees [OF t] by auto
  obtain ws1 err2 where w: "syncObjectWebhookConfigs (crd_vwc rd) (\<lambda>w. wr (PatchVWC w)) e1 = (ws1, err2)" by fastforce
  show ?thesis
  proof (cases "err1 = None \<and> err2 = None")
    case False
    then have "\<exists>ws err. Reconcile_config now m lst st rd wr e = Some (ws, Some err, e1)"
      using Inr t w by (cases err1; cases err2) (simp_all add: Reconcile_config_def)
    then show ?thesis using assms(2) e1(2) by (auto simp: only_types_def)
  next
    case True
    obtain err3 i2 e2 where s: "syncObjectReconcilers now lst st i1 e1 = (err3, i2, e2)" by (metis prod_cases3)
    have m: "types_valid (oe_forest (ce_obj e2))" "only_types (oe_forest (ce_obj e)) (oe_forest (ce_obj e2))"
      "err3 = None \<longrightarrow> (\<forall>g. type_modes (f_types (oe_forest (ce_obj e2))) g =
         synced_mode st (active_mode e1 g) (type_modes (f_types (oe_forest (ce_obj e)))) g)"
      using syncObjectReconcilers_modes [of e1 m now lst st i1 err3 i2 e2] assms(2) e1 True s by auto
    have act: "active_mode e1 g = map_option rs_mode (find (maps_to m g) (EnforcedTypes @ cfg_resources inst))" for g
      using reconcileTypes_modes [of now m ?inst e i1 e1 g] t True by simp
    obtain i3 where "loadNamespaceConditions now (setTypeStatuses i2 e2) e2 = Some i3"
      using loadNamespaceConditions_returns [OF only_types_inv [OF m(2) assms(1)]] by blast
    moreover obtain ws2 err4 where "writeSingleton_config rd wr i3 = (ws2, err4)" by fastforce
    ultimately have "\<exists>ws err. Reconcile_config now m lst st rd wr e = Some (ws, err, e2) \<and> (err = None \<longrightarrow> err3 = None)"
      using Inr t w s True by (cases err4) (simp_all add: Reconcile_config_def)
    then show ?thesis using m Inr unfolding act by blast
  qed
qed

text \<open>
  C22: a reconciliation of the configuration returns for every answer of the API server, changes
  nothing in the forest but the type syncers, and leaves at most one type syncer per kind, each in
  one of the four documented modes. When it reports no error, the mode of every kind follows from the
  configuration that was read: the first entry for the kind, the enforced types coming first, gives the mode,
  with a missing mode read as Propagate and an unknown one as Ignore; a kind without an entry is ignored if it
  has a type syncer, and gets none otherwise; and only a kind whose controller cannot be started lacks the type
  syncer that its entry asks for.
\<close>

theorem Reconcile_config_modes:
  assumes "forest_inv (oe_forest (ce_obj e))" "types_valid (oe_forest (ce_obj e))"
  shows "\<exists>ws err e'. Reconcile_config now m lst st rd wr e = Some (ws, err, e') \<and>
    types_valid (oe_forest (ce_obj e')) \<and> only_types (oe_forest (ce_obj e)) (oe_forest (ce_obj e')) \<and>
    (err = None \<longrightarrow> (\<exists>inst. getSingleton_config rd = Inr inst \<and> (\<forall>gvk.
       type_modes (f_types (oe_forest (ce_obj e'))) gvk =
         synced_mode st (map_option rs_mode (find (maps_to m gvk) (EnforcedTypes @ cfg_resources inst)))
           (type_modes (f_types (oe_forest (ce_obj e)))) gvk)))"
  by (rule Reconcile_config_effect [OF assms])

definition ex_config_reads :: ConfigReads where
  "ex_config_reads = \<lparr>crd_config = Found (ex_hnc [ex_spec Remove]), crd_vwc = Found [(ObjectsWebhookName, [])], crd_CRD = Found 0\<rparr>"

theorem Reconcile_config_modes_witness:
  "\<exists>ws e'. Reconcile_config 7 ex_mapper (\<lambda>g ns. Inr []) (\<lambda>g. None) ex_config_reads (\<lambda>w. None) ex_config_env = Some (ws, None, e') \<and>
     types_valid (oe_forest (ce_obj e')) \<and> type_modes (f_types (oe_forest (ce_obj e'))) ex_gvk = Some Propagate"
proof -
  have eval: "map_option (\<lambda>(ws, err, e'). (err, type_modes (f_types (oe_forest (ce_obj e'))) ex_gvk))
      (Reconcile_config 7 ex_mapper (\<lambda>g ns. Inr []) (\<lambda>g. None) ex_config_reads (\<lambda>w. None) ex_config_env) = Some (None, Some Propagate)"
    "types_valid (oe_forest (ce_obj ex_config_env))" by code_simp+
  have "forest_inv (oe_forest (ce_obj ex_config_env))"
    using ex_objects_inv by (simp add: ex_config_env_def ex_obj_env_def)
  from Reconcile_config_modes [OF this eval(2), of 7 ex_mapper "\<lambda>g ns. Inr []" "\<lambda>g. None" ex_config_reads "\<lambda>w. None"] eval(1)
  show ?thesis by auto
qed

end
