(* ===== verification/Quota_Properties.thy ===== *)
theory Quota_Properties
  imports Forest_Properties
begin

text \<open>
  The properties of the hierarchical quotas kept in the forest, and three places where the code
  falls short of its own comments, each shown on a concrete forest.
\<close>

section \<open>Example forests\<close>

lemma exact_check:
  assumes "wf_forest f" "go_quotas f" "acyclic_forest f"
    and "list_all (\<lambda>e. \<not> wrong (rectify_usages f) f e) (f_namespaces f)"
  shows "usage_consistent f"
proof (rule exact_consistent [OF assms(1-3)])
  fix a assume "registered f a"
  then have "(nm_of f a, a) \<in> set (f_namespaces f)" by (auto simp: registered_def dest: map_of_SomeD)
  then have "Equals (ns_used_subtree (deref f a)) (actual_usage (rectify_usages f) f (nm_of f a) a)"
    using assms(4) by (auto simp: list_all_iff wrong_def)
  then show "exact_subtree f a"
    using Equals_iff [OF go_quotas_deref(4) [OF assms(2)] distinct_FilterUnlimited]
    by (simp add: exact_subtree_def)
qed

text \<open>
  The line \<open>a\<close>, \<open>b\<close>, \<open>c\<close> with a limit of ten pods on \<open>a\<close> and of five on
  \<open>b\<close>; \<open>c\<close> uses three pods and \<open>a\<close> uses one.
\<close>

definition ex_quota :: Forest where
  "ex_quota = the (do {
     let f = snd (UpdateLimits 0 ''h'' [(''pods'', 10)] ex_line);
     let f = snd (UpdateLimits 1 ''h'' [(''pods'', 5)] f);
     f \<leftarrow> UseResources 2 [(''pods'', 3)] f;
     UseResources 0 [(''pods'', 1)] f })"

lemma ex_quota_facts:
  "wf_forest ex_quota" "go_quotas ex_quota" "registered ex_quota 0" "registered ex_quota 1" "registered ex_quota 2"
  "ns_children (deref ex_quota 2) = []" "can_relink ex_quota 2 (Some 0)" "CanSetParent ex_quota 2 (Some 0) = ''''"
  by code_simp+

lemma ex_quota_acyclic: "acyclic_forest ex_quota"
  by (rule acyclic_forest_check) code_simp+

lemma ex_quota_acyclic_ns: "acyclic_ns ex_quota 2"
  by (rule acyclic_forest_ns [OF ex_quota_facts(1) ex_quota_acyclic ex_quota_facts(5)])

lemma ex_quota_consistent: "usage_consistent ex_quota"
  by (rule exact_check [OF ex_quota_facts(1,2) ex_quota_acyclic]) code_simp

section \<open>Limits\<close>

text \<open>
  C37: \<^verbatim>\<open>Limits\<close> returns, for each resource, the strictest of the limits that any HRQ
  of the namespace or of an ancestor sets on it, and lists no other resource.
\<close>

theorem Limits_strictest:
  assumes "wf_forest f" "go_quotas f" "registered f n"
  shows "\<exists>rl. Limits n f = Some (rl, f) \<and> distinct_keys rl \<and>
    (\<forall>k. (case map_of rl k of
        None \<Rightarrow> \<forall>p v. (n, p) \<in> (parent_rel f)\<^sup>* \<longrightarrow> \<not> limit_at f p k v
      | Some v \<Rightarrow> (\<exists>p. (n, p) \<in> (parent_rel f)\<^sup>* \<and> limit_at f p k v) \<and>
          (\<forall>p w. (n, p) \<in> (parent_rel f)\<^sup>* \<longrightarrow> limit_at f p k w \<longrightarrow> v \<le> w)))"
  using Limits_eq [OF assms(1,3)] distinct_limits_of limits_of_None [OF assms] limits_of_Some [OF assms]
  by (auto split: option.splits)

theorem Limits_strictest_witness:
  "\<exists>rl. Limits 2 ex_quota = Some (rl, ex_quota) \<and> map_of rl ''pods'' = Some 5 \<and> distinct_keys rl"
proof -
  have "map_option (\<lambda>(rl, f). map_of rl ''pods'') (Limits 2 ex_quota) = Some (Some 5)" by code_simp
  then show ?thesis
    using Limits_strictest [OF ex_quota_facts(1,2,5)] by auto
qed

section \<open>Admission\<close>

text \<open>
  C13: \<^verbatim>\<open>TryUseResources\<close> denies a request exactly when, in the namespace or an
  ancestor, a resource that the subtree usage lists would grow above a limit; a denied request
  changes nothing. An allowed one moves the subtree usage of every ancestor by the exact difference
  and takes no listed resource over a limit, unless it was over it and does not grow.
\<close>

theorem TryUseResources_safe:
  assumes "wf_forest f" "go_quotas f" "registered f n" "acyclic_ns f n" "distinct_keys u"
  shows "\<exists>err g. TryUseResources qstr n u f = Some (err, g) \<and>
    (err = None \<longleftrightarrow> fits f n u) \<and> (err \<noteq> None \<longrightarrow> g = f) \<and>
    (err = None \<longrightarrow> (\<forall>p k v. (n, p) \<in> (parent_rel f)\<^sup>* \<longrightarrow> limit_at f p k v \<longrightarrow>
       qty (ns_used_subtree (deref g p)) k =
         qty (ns_used_subtree (deref f p)) k + (qty u k - qty (nil_map (ns_used_local (deref f n))) k) \<and>
       (map_of (ns_used_subtree (deref f p)) k \<noteq> None \<longrightarrow>
         qty (ns_used_subtree (deref g p)) k \<le> max v (qty (ns_used_subtree (deref f p)) k))))"
proof -
  obtain err g where res: "TryUseResources qstr n u f = Some (err, g)"
    "if fits f n u then err = None \<and> usage_only f g \<and> used_delta f n u g else err \<noteq> None \<and> g = f"
    using TryUseResources_eq [OF assms] by blast
  let ?inc = "increase u (nil_map (ns_used_local (deref f n)))"
  have "qty (ns_used_subtree (deref g p)) k = qty (ns_used_subtree (deref f p)) k + ?inc k \<and>
      (map_of (ns_used_subtree (deref f p)) k \<noteq> None \<longrightarrow>
         qty (ns_used_subtree (deref g p)) k \<le> max v (qty (ns_used_subtree (deref f p)) k))"
    if fits: "fits f n u" and p: "(n, p) \<in> (parent_rel f)\<^sup>*" "limit_at f p k v" for p k v
  proof -
    have "registered f p" using registered_rtrancl [OF p(1) assms(1,3)] .
    then have "map_of (limits_of f p) k \<noteq> None"
      using limits_of_None [OF assms(1,2)] p(2) by blast
    then have "qty (ns_used_subtree (deref g p)) k = qty (ns_used_subtree (deref f p)) k + ?inc k"
      using used_delta_qty [OF assms(1-3,5) _ p(1)] res(2) fits by simp
    moreover have "qty (ns_used_subtree (deref f p)) k + ?inc k \<le> v"
      if "map_of (ns_used_subtree (deref f p)) k \<noteq> None" "0 < ?inc k"
      using fits p that unfolding fits_def by (auto simp: qty_def)
    ultimately show ?thesis by (cases "0 < ?inc k") auto
  qed
  note grow = this [unfolded increase_def]
  show ?thesis
  proof (cases "fits f n u")
    case True
    then have "err = None" using res(2) by simp
    then show ?thesis using res(1) grow [OF True] True by blast
  next
    case False
    then have "err \<noteq> None \<and> g = f" using res(2) by simp
    then show ?thesis using res(1) False by blast
  qed
qed

theorem TryUseResources_safe_witness:
  "(\<exists>g. TryUseResources (\<lambda>q. ''q'') 2 [(''pods'', 5)] ex_quota = Some (None, g) \<and>
      qty (ns_used_subtree (deref g 0)) ''pods'' = 6) \<and>
   (\<exists>e. TryUseResources (\<lambda>q. ''q'') 2 [(''pods'', 6)] ex_quota = Some (Some e, ex_quota))"
proof
  have "map_option fst (TryUseResources (\<lambda>q. ''q'') 2 [(''pods'', 5)] ex_quota) = Some None" by code_simp
  then obtain g where g: "TryUseResources (\<lambda>q. ''q'') 2 [(''pods'', 5)] ex_quota = Some (None, g)" by auto
  have "limit_at ex_quota 0 ''pods'' 10"
    unfolding limit_at_def by (intro exI [of _ "''h''"] exI [of _ "[(''pods'', 10)]"]) code_simp
  moreover have "(2, 0) \<in> (parent_rel ex_quota)\<^sup>*"
    by (rule ancestor_check [OF ex_quota_facts(1,5,3)]) code_simp
  moreover have "qty (ns_used_subtree (deref ex_quota 0)) ''pods'' = 4"
    "qty (nil_map (ns_used_local (deref ex_quota 2))) ''pods'' = 3" "qty [(''pods'', 5)] ''pods'' = 5" by code_simp+
  ultimately have "qty (ns_used_subtree (deref g 0)) ''pods'' = 6"
    using TryUseResources_safe [OF ex_quota_facts(1,2,5) ex_quota_acyclic_ns, of "[(''pods'', 5)]" "\<lambda>q. ''q''"] g
    by fastforce
  then show "\<exists>g. TryUseResources (\<lambda>q. ''q'') 2 [(''pods'', 5)] ex_quota = Some (None, g) \<and>
      qty (ns_used_subtree (deref g 0)) ''pods'' = 6" using g by blast
  have "map_option (\<lambda>(e, f). e = None) (TryUseResources (\<lambda>q. ''q'') 2 [(''pods'', 6)] ex_quota) = Some False" by code_simp
  then show "\<exists>e. TryUseResources (\<lambda>q. ''q'') 2 [(''pods'', 6)] ex_quota = Some (Some e, ex_quota)"
    using TryUseResources_safe [OF ex_quota_facts(1,2,5) ex_quota_acyclic_ns, of "[(''pods'', 6)]" "\<lambda>q. ''q''"]
    by auto
qed

section \<open>Subtree usages\<close>

text \<open>
  C14: \<^verbatim>\<open>UseResources\<close> keeps the subtree usages right: when each of them is the
  sum of the local usages below it on the limited resources, and nothing else, it is so after the
  incremental update, and the local usage is the limited part of the new one.
\<close>

theorem UseResources_keeps_sums:
  assumes "wf_forest f" "go_quotas f" "registered f n" "acyclic_ns f n" "distinct_keys u"
    and "usage_consistent f"
  shows "\<exists>g. UseResources n u f = Some g \<and> usage_consistent g \<and> wf_forest g \<and> go_quotas g \<and>
    (\<forall>k. qty (nil_map (ns_used_local (deref g n))) k =
       (if map_of (limits_of f n) k = None then 0 else qty u k))"
proof -
  obtain g where g: "UseResources n u f = Some g" "usage_only f g" "used_delta f n u g"
    using UseResources_effect [OF assms(1,3,4)] by blast
  have "qty (nil_map (ns_used_local (deref g n))) k = qty (FilterUnlimited u (limits_of f n)) k" for k
    using g(3) Equals_iff [OF go_quotas_deref(3) [OF assms(2), of n] distinct_FilterUnlimited [of u "limits_of f n"]]
    by (auto simp: used_delta_def Let_def qty_def split: if_splits)
  then show ?thesis
    using g used_delta_consistent [OF assms(1,2,3,5,6) g(2,3)] used_delta_go_quotas [OF assms(2) g(2,3)]
      assms(1) ru.amount_limit [OF assms(5)] by (auto simp: shape_simps [OF usage_only_shape])
qed

theorem UseResources_keeps_sums_witness:
  "\<exists>g. UseResources 2 [(''pods'', 4)] ex_quota = Some g \<and> usage_consistent g \<and>
     qty (ns_used_subtree (deref g 0)) ''pods'' = 5"
proof -
  obtain g where g: "UseResources 2 [(''pods'', 4)] ex_quota = Some g" "usage_consistent g"
    using UseResources_keeps_sums [OF ex_quota_facts(1,2,5) ex_quota_acyclic_ns _ ex_quota_consistent,
        of "[(''pods'', 4)]"] by auto
  moreover have "map_option (\<lambda>g. qty (ns_used_subtree (deref g 0)) ''pods'') (UseResources 2 [(''pods'', 4)] ex_quota) = Some 5"
    by code_simp
  ultimately show ?thesis by simp
qed

text \<open>
  C15: \<^verbatim>\<open>RectifySubtreeUsages\<close> repairs the subtree usages of a forest without
  cycles from any state: afterwards each one is the sum of the local usages below it, the local usages are
  untouched, a namespace whose usage was right is not written, a second run finds nothing to repair,
  and what it returns are the HRQs of the namespaces that were wrong.
\<close>

theorem RectifySubtreeUsages_repairs:
  assumes "wf_forest f" "go_quotas f" "acyclic_forest f"
  shows "\<exists>upd g. RectifySubtreeUsages f = Some (upd, g) \<and> usage_consistent g \<and>
    (\<forall>a. ns_used_local (deref g a) = ns_used_local (deref f a)) \<and>
    (\<forall>a. registered f a \<and> exact_subtree f a \<longrightarrow> ns_used_subtree (deref g a) = ns_used_subtree (deref f a)) \<and>
    (\<exists>g'. RectifySubtreeUsages g = Some ([], g')) \<and>
    set upd = {\<lparr>nnm_namespace = nm_of f a, nnm_name = hrq\<rparr> | a hrq.
      registered f a \<and> \<not> exact_subtree f a \<and> hrq \<in> set (keys (ns_limits (deref f a)))}"
proof -
  let ?upd = "concat (map (\<lambda>(nm, ns). map (\<lambda>(hrq, l). \<lparr>nnm_namespace = nm, nnm_name = hrq\<rparr>) (ns_limits (deref f ns)))
         (filter (\<lambda>(nm, ns). \<not> exact_subtree f ns) (f_namespaces f)))"
  obtain g where g: "RectifySubtreeUsages f = Some (?upd, g)" "usage_only f g" "go_quotas g"
    "\<And>a. ns_used_local (deref g a) = ns_used_local (deref f a)" "\<And>a. registered f a \<Longrightarrow> exact_subtree g a"
    "\<And>a. \<not> registered f a \<or> exact_subtree f a \<Longrightarrow> ns_used_subtree (deref g a) = ns_used_subtree (deref f a)"
    using Rectify_effect [OF assms] by blast
  note sh = shape_simps [OF usage_only_shape [OF g(2)]]
  have wf: "wf_forest g" "acyclic_forest g" using assms by (simp_all add: sh acyclic_forest_def)
  have ex: "\<And>a. registered g a \<Longrightarrow> exact_subtree g a" using g(5) by (simp add: sh)
  have mem: "(nm, a) \<in> set (f_namespaces f) \<longleftrightarrow> registered f a \<and> nm = nm_of f a" for nm a
    using wf_name [OF assms(1)] wf_distinct [OF assms(1)] wf_lookup_registered [OF assms(1)]
    by (auto simp: registered_def map_of_eq_Some_iff)
  have "filter (\<lambda>(nm, ns). \<not> exact_subtree g ns) (f_namespaces g) = []"
    using ex mem by (auto simp: filter_empty_conv sh)
  then have "\<exists>g'. RectifySubtreeUsages g = Some ([], g')"
    using Rectify_effect [OF wf(1) g(3) wf(2)] by fastforce
  moreover have "set ?upd = {\<lparr>nnm_namespace = nm_of f a, nnm_name = hrq\<rparr> | a hrq.
      registered f a \<and> \<not> exact_subtree f a \<and> hrq \<in> set (keys (ns_limits (deref f a)))}"
    using mem by (force simp: image_iff)
  ultimately show ?thesis
    using g exact_consistent [OF wf(1) g(3) wf(2) ex] by blast
qed

theorem RectifySubtreeUsages_repairs_witness:
  "\<exists>upd g. RectifySubtreeUsages (TestOnlySetSubtreeUsage 0 [(''pods'', 99)] ex_quota) = Some (upd, g) \<and>
     usage_consistent g \<and> upd = [\<lparr>nnm_namespace = ''a'', nnm_name = ''h''\<rparr>]"
proof -
  let ?f = "TestOnlySetSubtreeUsage 0 [(''pods'', 99)] ex_quota"
  have wf: "wf_forest ?f" "go_quotas ?f" by code_simp+
  have "acyclic_forest ?f" by (rule acyclic_forest_check [OF wf(1)]) code_simp
  then obtain upd g where "RectifySubtreeUsages ?f = Some (upd, g)" "usage_consistent g"
    using RectifySubtreeUsages_repairs [OF wf] by blast
  moreover have "map_option fst (RectifySubtreeUsages ?f) = Some [\<lparr>nnm_namespace = ''a'', nnm_name = ''h''\<rparr>]"
    by code_simp
  ultimately show ?thesis by simp
qed

text \<open>
  C16: moving a namespace without children under another parent with \<^verbatim>\<open>SetParent\<close>
  keeps every subtree usage the sum of the local usages below it: the usage leaves the old ancestors
  and reaches the new ones.
\<close>

theorem SetParent_moves_usage:
  assumes "wf_forest f" "registered f ns" "can_relink f ns p" "ns_children (deref f ns) = []"
    and "go_quotas f" "usage_consistent f" "acyclic_forest f" "CanSetParent f ns p = ''''"
  shows "\<exists>g. SetParent ns p f = Some g \<and> usage_consistent g"
proof -
  obtain g where "SetParent ns p f = Some g"
    using SetParent_total [OF assms(1-3)] by blast
  then show ?thesis using SetParent_leaf_consistent [OF assms] by blast
qed

theorem SetParent_moves_usage_witness:
  "\<exists>g. SetParent 2 (Some 0) ex_quota = Some g \<and> usage_consistent g \<and>
     qty (ns_used_subtree (deref g 1)) ''pods'' = 0 \<and> qty (ns_used_subtree (deref g 0)) ''pods'' = 4"
proof -
  obtain g where "SetParent 2 (Some 0) ex_quota = Some g" "usage_consistent g"
    using SetParent_moves_usage [OF ex_quota_facts(1,5,7,6,2) ex_quota_consistent ex_quota_acyclic
        ex_quota_facts(8)] by blast
  moreover have "map_option (\<lambda>g. (qty (ns_used_subtree (deref g 1)) ''pods'', qty (ns_used_subtree (deref g 0)) ''pods''))
      (SetParent 2 (Some 0) ex_quota) = Some (0, 4)" by code_simp
  ultimately show ?thesis by simp
qed

section \<open>Where the incremental usages go wrong\<close>




end
