(* ===== verification/HRQ.thy ===== *)
theory HRQ
  imports Config Quotas
begin

text \<open>
  Hierarchical resource quotas: the reconcilers \<^verbatim>\<open>internal/hrq/hrqreconciler.go\<close> and
  \<^verbatim>\<open>rqreconciler.go\<close> and the validators \<^verbatim>\<open>hrqvalidator.go\<close> and
  \<^verbatim>\<open>rqstatusvalidator.go\<close>.

  The environment holds the forest, the namespaces whose resource quota was enqueued, the
  hierarchical quotas that were enqueued, and the events. \<^verbatim>\<open>Spec.Hard\<close> of a resource
  quota is an option, because the code tells a nil map from an empty one. How a quantity is printed is
  the argument \<open>qstr\<close>. \<open>None\<close> is a nil dereference.
\<close>

record ResourceQuota =
  rq_name :: string
  rq_namespace :: string
  rq_creationTimestamp :: Time
  rq_labels :: "(string, string) gomap option"
  rq_annotations :: "(string, string) gomap option"
  rq_spec_hard :: "ResourceList option"
  rq_status_used :: ResourceList

record QuotaEnv =
  qe_forest :: Forest
  qe_rqs :: "string list"
  qe_hrqs :: "NamespacedName list"
  qe_events :: "(NamespacedName \<times> string) list"

definition ResourceQuotaSingleton :: string where "ResourceQuotaSingleton = ''hrq.'' @ MetaGroup"
definition HRQLabelCleanup :: string where "HRQLabelCleanup = MetaGroup @ ''/hrq''"
definition NonPropagateAnnotation :: string where "NonPropagateAnnotation = AnnotationPropagatePrefix @ ''/none''"

section \<open>Hierarchical quotas\<close>

definition isDeleted :: "HierarchicalResourceQuota \<Rightarrow> bool" where
  "isDeleted inst = (hrq_creationTimestamp inst = 0)"

definition syncLimits :: "HierarchicalResourceQuota \<Rightarrow> Forest \<Rightarrow> (bool \<times> Forest) option" where
  "syncLimits inst f = do {
     (ns, f) \<leftarrow> GetP (hrq_namespace inst) f;
     if isDeleted inst then Some (True, RemoveLimits ns (hrq_name inst) f)
     else Some (UpdateLimits ns (hrq_name inst) (hrq_spec_hard inst) f) }"

text \<open>\<^verbatim>\<open>strings.TrimSuffix\<close> and \<^verbatim>\<open>strings.TrimPrefix\<close>\<close>

definition TrimSuffix :: "string \<Rightarrow> string \<Rightarrow> string" where
  "TrimSuffix s x = (if HasSuffix s x then take (length s - length x) s else s)"

definition TrimPrefix :: "string \<Rightarrow> string \<Rightarrow> string" where
  "TrimPrefix s x = (if HasPrefix s x then drop (length x) s else s)"

definition is_limit :: "ResourceName \<Rightarrow> bool" where
  "is_limit rn = (let pieces = Split rn (CHR ''.'') in length pieces > 1 \<and> hd pieces = ''limits'')"

definition summary :: "(Quantity \<Rightarrow> string) \<Rightarrow> HierarchicalResourceQuota \<Rightarrow> ResourceName list \<Rightarrow> string" where
  "summary qstr inst rns = TrimSuffix (concat (map (\<lambda>rn. rn @ '': '' @ qstr (qty (hrq_status_used inst) rn) @ ''/'' @
     qstr (qty (hrq_status_hard inst) rn) @ '', '') rns)) '', ''"

definition syncUsages ::
  "(Quantity \<Rightarrow> string) \<Rightarrow> HierarchicalResourceQuota \<Rightarrow> Forest \<Rightarrow> (HierarchicalResourceQuota \<times> Forest) option" where
  "syncUsages qstr inst f =
     (if isDeleted inst then Some (inst, f)
      else do {
        (ns, f) \<leftarrow> GetP (hrq_namespace inst) f;
        let inst = inst\<lparr>hrq_status_used := FilterUnlimited (GetSubtreeUsages f ns) (hrq_spec_hard inst)\<rparr>;
        let resources = sort (keys (hrq_status_hard inst));
        Some (inst\<lparr>hrq_requestsSummary := summary qstr inst (filter (\<lambda>rn. \<not> is_limit rn) resources),
                   hrq_limitsSummary := summary qstr inst (filter is_limit resources)\<rparr>, f) })"

definition syncWithForest_hrq ::
  "(Quantity \<Rightarrow> string) \<Rightarrow> HierarchicalResourceQuota \<Rightarrow> Forest \<Rightarrow> (bool \<times> bool \<times> HierarchicalResourceQuota \<times> Forest) option" where
  "syncWithForest_hrq qstr inst f = do {
     let updatedInst = (\<not> Equals (hrq_spec_hard inst) (hrq_status_hard inst));
     let inst = (if updatedInst then inst\<lparr>hrq_status_hard := hrq_spec_hard inst\<rparr> else inst);
     let oldUsages = hrq_status_used inst;
     (updatedForest, f) \<leftarrow> syncLimits inst f;
     (inst, f) \<leftarrow> syncUsages qstr inst f;
     Some (updatedInst \<or> \<not> Equals oldUsages (hrq_status_used inst), updatedForest, inst, f) }"

text \<open>\<^verbatim>\<open>OnChangeNamespace\<close> and \<^verbatim>\<open>EnqueueSubtree\<close> of the other reconciler.\<close>

definition OnChangeNamespace_rq :: "nsptr option \<Rightarrow> QuotaEnv \<Rightarrow> QuotaEnv" where
  "OnChangeNamespace_rq ns e = e\<lparr>qe_rqs := qe_rqs e @ [Name (qe_forest e) ns]\<rparr>"

definition EnqueueSubtree :: "string \<Rightarrow> QuotaEnv \<Rightarrow> QuotaEnv option" where
  "EnqueueSubtree nsnm e = do {
     (ns, f) \<leftarrow> GetP nsnm (qe_forest e);
     (nsnms, f) \<leftarrow> DescendantNames ns f;
     Some (fold (\<lambda>nm e. (let (a, f) = Get nm (qe_forest e) in OnChangeNamespace_rq a (e\<lparr>qe_forest := f\<rparr>)))
       (nsnms @ [nsnm]) (e\<lparr>qe_forest := f\<rparr>)) }"

definition blank_hrq :: HierarchicalResourceQuota where
  "blank_hrq = \<lparr>hrq_name = '''', hrq_namespace = '''', hrq_creationTimestamp = 0, hrq_spec_hard = [],
     hrq_status_hard = [], hrq_status_used = [], hrq_requestsSummary = '''', hrq_limitsSummary = ''''\<rparr>"

text \<open>\<open>wr\<close> is the outcome of the update; the result is what was written and the error.\<close>

definition Reconcile_hrq ::
  "(Quantity \<Rightarrow> string) \<Rightarrow> HierarchicalResourceQuota read \<Rightarrow> (HierarchicalResourceQuota \<Rightarrow> string option) \<Rightarrow> NamespacedName \<Rightarrow>
   QuotaEnv \<Rightarrow> (HierarchicalResourceQuota list \<times> string option \<times> QuotaEnv) option" where
  "Reconcile_hrq qstr rd wr req e =
     (case rd of
        ReadError err \<Rightarrow> Some ([], Some err, e)
      | _ \<Rightarrow> do {
          let inst = (case rd of Found i \<Rightarrow> i | _ \<Rightarrow> blank_hrq);
          let inst = (if isDeleted inst
            then inst\<lparr>hrq_name := nnm_name req, hrq_namespace := nnm_namespace req\<rparr> else inst);
          (updatedInst, updatedForest, inst, f) \<leftarrow> syncWithForest_hrq qstr inst (qe_forest e);
          let e = e\<lparr>qe_forest := f\<rparr>;
          let ws = (if \<not> isDeleted inst \<and> updatedInst then [inst] else []);
          (case (if ws = [] then None else wr inst) of
             Some err \<Rightarrow> Some (ws, Some err, e)
           | None \<Rightarrow>
               if updatedForest then do { e \<leftarrow> EnqueueSubtree (hrq_namespace inst) e; Some (ws, None, e) }
               else Some (ws, None, e)) })"

text \<open>The quotas of the namespace and its ancestors: \<^verbatim>\<open>allSubtreeHRQs\<close>, \<^verbatim>\<open>getAncestorHRQs\<close>.\<close>

fun ancestor_hrqs :: "string list \<Rightarrow> NamespacedName list \<Rightarrow> Forest \<Rightarrow> (NamespacedName list \<times> Forest) option" where
  "ancestor_hrqs [] names f = Some (names, f)"
| "ancestor_hrqs (nsnm # nsnms) names f = do {
     (ns, f) \<leftarrow> GetP nsnm f;
     ancestor_hrqs nsnms (names @ map (\<lambda>hrqnm. \<lparr>nnm_namespace = nsnm, nnm_name = hrqnm\<rparr>) (HRQNames f ns)) f }"

definition allSubtreeHRQs :: "nsptr option \<Rightarrow> Forest \<Rightarrow> (NamespacedName list \<times> Forest) option" where
  "allSubtreeHRQs ns f = ancestor_hrqs (AncestryNames f ns) [] f"

definition OnChangeNamespace_hrq :: "nsptr option \<Rightarrow> QuotaEnv \<Rightarrow> QuotaEnv option" where
  "OnChangeNamespace_hrq ns e = do {
     (insts, f) \<leftarrow> allSubtreeHRQs ns (qe_forest e);
     Some (e\<lparr>qe_forest := f, qe_hrqs := qe_hrqs e @ insts\<rparr>) }"

section \<open>Resource quotas\<close>

definition getSingleton_rq :: "string \<Rightarrow> ResourceQuota read \<Rightarrow> string + ResourceQuota" where
  "getSingleton_rq ns rd = (case rd of
       Found inst \<Rightarrow> Inr inst
     | ReadError err \<Rightarrow> Inl err
     | NotFound \<Rightarrow> Inr \<lparr>rq_name = ResourceQuotaSingleton, rq_namespace = ns, rq_creationTimestamp = 0, rq_labels = None,
         rq_annotations = None, rq_spec_hard = None, rq_status_used = []\<rparr>)"

definition syncResourceLimits :: "nsptr \<Rightarrow> ResourceQuota \<Rightarrow> Forest \<Rightarrow> (bool \<times> ResourceQuota \<times> Forest) option" where
  "syncResourceLimits ns inst f = do {
     (l, f) \<leftarrow> Limits ns f;
     if Equals l (nil_map (rq_spec_hard inst)) then Some (False, inst, f)
     else Some (True, inst\<lparr>rq_spec_hard := Some l\<rparr>, f) }"

definition syncWithForest_rq :: "ResourceQuota \<Rightarrow> QuotaEnv \<Rightarrow> (bool \<times> ResourceQuota \<times> QuotaEnv) option" where
  "syncWithForest_rq inst e = do {
     (ns, f) \<leftarrow> GetP (rq_namespace inst) (qe_forest e);
     (updated, inst, f) \<leftarrow> syncResourceLimits ns inst f;
     f \<leftarrow> UseResources ns (rq_status_used inst) f;
     (hrqs, f) \<leftarrow> ancestor_hrqs (AncestryNames f (Some ns)) [] f;
     Some (updated, inst, e\<lparr>qe_forest := f, qe_hrqs := qe_hrqs e @ hrqs\<rparr>) }"

datatype RQWrite = CreateRQ ResourceQuota | UpdateRQ ResourceQuota | DeleteRQ ResourceQuota

definition ignoreRQErr :: "string \<Rightarrow> string" where
  "ignoreRQErr err = TrimPrefix err (hd (Split err (CHR '':'')) @ '': '')"

definition getAncestorHRQs :: "ResourceQuota \<Rightarrow> Forest \<Rightarrow> (NamespacedName list \<times> Forest) option" where
  "getAncestorHRQs inst f = (let (ns, f) = Get (rq_namespace inst) f in ancestor_hrqs (AncestryNames f ns) [] f)"

text \<open>\<open>readable\<close> says which quotas can be read for the event.\<close>

definition reportHRQEvent :: "(NamespacedName \<Rightarrow> bool) \<Rightarrow> ResourceQuota \<Rightarrow> string \<Rightarrow> QuotaEnv \<Rightarrow> QuotaEnv option" where
  "reportHRQEvent readable inst err e = do {
     (nnms, f) \<leftarrow> getAncestorHRQs inst (qe_forest e);
     Some (e\<lparr>qe_forest := f, qe_events := qe_events e @ map (\<lambda>nnm. (nnm,
       ''could not create/update lower-level ResourceQuota in namespace '' @ quote (rq_namespace inst) @ '': '' @
         ignoreRQErr err)) (filter readable nnms)\<rparr>) }"

definition writeSingleton ::
  "(RQWrite \<Rightarrow> string option) \<Rightarrow> (NamespacedName \<Rightarrow> bool) \<Rightarrow> ResourceQuota \<Rightarrow> QuotaEnv \<Rightarrow>
   (RQWrite list \<times> string option \<times> QuotaEnv) option" where
  "writeSingleton wr readable inst e =
     (if IsZero (rq_creationTimestamp inst) then
        (let inst = inst\<lparr>rq_labels := Some (AList.update HRQLabelCleanup ''true'' (nil_map (rq_labels inst))),
                         rq_annotations := Some (AList.update NonPropagateAnnotation ''true'' (nil_map (rq_annotations inst)))\<rparr>
         in case wr (CreateRQ inst) of
              None \<Rightarrow> Some ([CreateRQ inst], None, e)
            | Some err \<Rightarrow> do {
                e \<leftarrow> reportHRQEvent readable inst err e;
                Some ([CreateRQ inst], Some (''while creating rq: '' @ err), e) })
      else (case wr (UpdateRQ inst) of
          None \<Rightarrow> Some ([UpdateRQ inst], None, e)
        | Some err \<Rightarrow> do {
            e \<leftarrow> reportHRQEvent readable inst err e;
            Some ([UpdateRQ inst], Some (''while updating rq: '' @ err), e) }))"

definition deleteSingleton :: "(RQWrite \<Rightarrow> string option) \<Rightarrow> ResourceQuota \<Rightarrow> RQWrite list \<times> string option" where
  "deleteSingleton wr inst =
     (if IsZero (rq_creationTimestamp inst) then ([], None)
      else ([DeleteRQ inst], map_option (\<lambda>err. ''while deleting rq: '' @ err) (wr (DeleteRQ inst))))"

definition Reconcile_rq ::
  "ResourceQuota read \<Rightarrow> (RQWrite \<Rightarrow> string option) \<Rightarrow> (NamespacedName \<Rightarrow> bool) \<Rightarrow> NamespacedName \<Rightarrow> QuotaEnv \<Rightarrow>
   (RQWrite list \<times> string option \<times> QuotaEnv) option" where
  "Reconcile_rq rd wr readable req e =
     (if nnm_name req \<noteq> ResourceQuotaSingleton then Some ([], None, e)
      else (case getSingleton_rq (nnm_namespace req) rd of
          Inl err \<Rightarrow> Some ([], Some err, e)
        | Inr inst \<Rightarrow> do {
            (updated, inst, e) \<leftarrow> syncWithForest_rq inst e;
            if rq_spec_hard inst = None
            then (case deleteSingleton wr inst of (ws, err) \<Rightarrow> Some (ws, err, e))
            else if updated then writeSingleton wr readable inst e
            else Some ([], None, e) }))"

section \<open>Validators\<close>

fun codeFromReason :: "StatusReason \<Rightarrow> int" where
  "codeFromReason StatusReasonUnauthorized = 401"
| "codeFromReason StatusReasonForbidden = 403"
| "codeFromReason StatusReasonConflict = 409"
| "codeFromReason StatusReasonBadRequest = 400"
| "codeFromReason StatusReasonInvalid = 422"
| "codeFromReason r = 500"

text \<open>\<open>validate\<close> is the dry run on the API server; \<open>suffix\<close> is the random part of the name.\<close>

definition validatingResourceQuotaPrefix :: string where
  "validatingResourceQuotaPrefix = ''hnc-x-k8s-io-hrq-validating-rq-''"

definition handle_hrq :: "(ResourceQuota \<Rightarrow> string option) \<Rightarrow> string \<Rightarrow> HierarchicalResourceQuota \<Rightarrow> Response" where
  "handle_hrq validate suffix inst =
     (case validate \<lparr>rq_name = validatingResourceQuotaPrefix @ suffix, rq_namespace = hrq_namespace inst,
          rq_creationTimestamp = 0, rq_labels = None, rq_annotations = None, rq_spec_hard = Some (hrq_spec_hard inst),
          rq_status_used = []\<rparr> of
        Some err \<Rightarrow> Deny StatusReasonInvalid (ignoreRQErr err)
      | None \<Rightarrow> Allow '''')"

definition Handle_hrq ::
  "(ResourceQuota \<Rightarrow> string option) \<Rightarrow> string \<Rightarrow> string + HierarchicalResourceQuota \<Rightarrow> Response" where
  "Handle_hrq validate suffix decoded = (case decoded of
       Inl err \<Rightarrow> Deny StatusReasonBadRequest err | Inr inst \<Rightarrow> handle_hrq validate suffix inst)"

definition ResourceQuotaAdmissionControllerUsername :: string where
  "ResourceQuotaAdmissionControllerUsername = ''system:apiserver''"

definition isResourceQuotaAdmissionControllerServiceAccount :: "string option \<Rightarrow> bool" where
  "isResourceQuotaAdmissionControllerServiceAccount user =
     (user = None \<or> user = Some ResourceQuotaAdmissionControllerUsername)"

definition handle_rqstatus :: "(Quantity \<Rightarrow> string) \<Rightarrow> ResourceQuota \<Rightarrow> Forest \<Rightarrow> (Response \<times> Forest) option" where
  "handle_rqstatus qstr inst f = do {
     (ns, f) \<leftarrow> GetP (rq_namespace inst) f;
     (err, f) \<leftarrow> TryUseResources qstr ns (rq_status_used inst) f;
     Some (case err of
         Some msg \<Rightarrow> Deny StatusReasonForbidden msg
       | None \<Rightarrow> Allow ''the usage update is in compliance with the ancestors' (including itself) HRQs'', f) }"

definition Handle_rqstatus ::
  "(Quantity \<Rightarrow> string) \<Rightarrow> string \<Rightarrow> string \<Rightarrow> string + ResourceQuota \<Rightarrow> Forest \<Rightarrow> (Response \<times> Forest) option" where
  "Handle_rqstatus qstr nm user decoded f =
     (if nm \<noteq> ResourceQuotaSingleton then Some (Allow ''non-HRQ-singleton RQ status change ignored'', f)
      else if \<not> isResourceQuotaAdmissionControllerServiceAccount (Some user) then Some (Allow '''', f)
      else (case decoded of
          Inl err \<Rightarrow> Some (Deny StatusReasonBadRequest err, f)
        | Inr inst \<Rightarrow> handle_rqstatus qstr inst f))"

end
