(* ===== verification/Quota_Bounds.thy ===== *)
theory Quota_Bounds
  imports Quota_Properties HRQ
begin

text \<open>
  The bound that hierarchical quotas are for: whatever sequence of usage updates the quota admission
  controller asks for, the total usage below a namespace stays within every limit set there, as long as
  the subtree usages list every limited resource.
\<close>

section \<open>The invariant\<close>










section \<open>Sequences of updates\<close>













end
