(* ===== verification/Admission_Properties.thy ===== *)
theory Admission_Properties
  imports Admission Propagation_Properties
begin

text \<open>
  The properties of the validating webhooks: what an admitted change of the hierarchy, of a propagated
  object, of a source object or of a namespace guarantees to the reconcilers.
\<close>

section \<open>Hierarchy configurations\<close>



definition ex_server :: ServerClient where
  "ex_server = \<lparr>srv_Exists = (\<lambda>nm. Inr False), srv_IsAdmin = (\<lambda>ui nm. Inr (nm = ''a''))\<rparr>"

definition ex_user :: UserInfo where
  "ex_user = \<lparr>ui_Username = ''admin'', ui_Groups = [''system:masters'']\<rparr>"



text \<open>
  C27: who may move a namespace from the parent \<^verbatim>\<open>p\<close> to another parent \<^verbatim>\<open>q\<close>. If the two have an ancestor in
  common, the server checks pass exactly for an administrator of the lowest one, the common ancestor that every
  other common ancestor is an ancestor of. If they are in different trees, they pass exactly for an
  administrator of the root of the old tree who is also one of the new parent.
\<close>

theorem getServerChecks_lowest_common_ancestor:
  assumes "wf_forest f" "registered f p" "acyclic_ns f p" "registered f q" "acyclic_ns f q" "p \<noteq> q"
    and "IsManagedNamespace c (nm_of f p)" "ns_exists (deref f p)"
  shows "if \<exists>b. common_ancestor f p q b
    then \<exists>m. common_ancestor f p q m \<and> (\<forall>b. common_ancestor f p q b \<longrightarrow> (m, b) \<in> (parent_rel f)\<^sup>*) \<and>
      (Allowed (checkServer srv ui (getServerChecks c f (Some p) (Some q))) \<longleftrightarrow> srv_IsAdmin srv ui (nm_of f m) = Inr True)
    else \<exists>r. (p, r) \<in> (parent_rel f)\<^sup>* \<and> ns_parent (deref f r) = None \<and>
      (Allowed (checkServer srv ui (getServerChecks c f (Some p) (Some q))) \<longleftrightarrow>
         srv_IsAdmin srv ui (nm_of f r) = Inr True \<and> srv_IsAdmin srv ui (nm_of f q) = Inr True)"
proof -
  have one: "list_all (check_passes srv ui) cs \<longleftrightarrow> list_all (\<lambda>nm. srv_IsAdmin srv ui nm = Inr True) nms"
    if "map (\<lambda>s. (sc_nnm s, sc_checkType s)) cs = map (\<lambda>nm. (nm, checkAuthz)) nms" for cs nms
    using that by (induction cs arbitrary: nms) (auto simp: Cons_eq_map_conv)
  show ?thesis
    using getServerChecks_tree [OF assms] one [of _ "[_]"] one [of _ "[_, _]"]
    unfolding checkServer_iff by (auto split: if_splits)
qed

text \<open>In the line a, b, c and the tree \<open>a \<rightarrow> d\<close>, moving a child of c to d needs an administrator of a.\<close>

definition ex_fork :: Forest where
  "ex_fork = the (do {
     (d, f) \<leftarrow> GetP ''d'' ex_line;
     (_, f) \<leftarrow> Some (SetExists d f);
     SetParent d (Some 0) f })"

theorem getServerChecks_lowest_common_ancestor_witness:
  "Allowed (checkServer ex_server ex_user (getServerChecks ex_config ex_fork (Some 2) (Some 3))) \<and>
   (\<exists>m. common_ancestor ex_fork 2 3 m \<and> srv_IsAdmin ex_server ex_user (nm_of ex_fork m) = Inr True)"
proof -
  have eval: "wf_forest ex_fork" "registered ex_fork 0" "registered ex_fork 2" "registered ex_fork 3" "ns_exists (deref ex_fork 2)"
    "IsManagedNamespace ex_config (nm_of ex_fork 2)"
    "nm_of ex_fork 0 \<in> set (AncestryNames ex_fork (Some 2))" "nm_of ex_fork 0 \<in> set (AncestryNames ex_fork (Some 3))"
    "Allowed (checkServer ex_server ex_user (getServerChecks ex_config ex_fork (Some 2) (Some 3)))" by code_simp+
  have "acyclic_forest ex_fork" by (rule acyclic_forest_check) code_simp+
  then have ac: "acyclic_ns ex_fork 2" "acyclic_ns ex_fork 3"
    using acyclic_forest_ns [OF eval(1)] eval(3,4) by blast+
  have "common_ancestor ex_fork 2 3 0"
    using ancestor_check [OF eval(1) eval(3,2,7)] ancestor_check [OF eval(1) eval(4,2,8)] by (simp add: common_ancestor_def)
  then show ?thesis
    using getServerChecks_lowest_common_ancestor [OF eval(1,3) ac(1) eval(4) ac(2) _ eval(6,5), of ex_server ex_user] eval(9)
    by (auto split: if_splits)
qed

section \<open>Objects\<close>

text \<open>
  C19: propagated copies are protected from everyone but HNC. In a managed namespace and for a type that is
  propagated, the webhook answers every request in which the object is, or claims to be, a copy. It
  admits a deletion only while the namespace is being deleted or gone, an update only if
  the label with the source, all other labels, the annotations and the content stay the same, and no
  other operation; so no copy can be forged, adopted, changed or turned into a source.
\<close>

theorem Handle_obj_protects_copies:
  assumes "IsManagedNamespace c namespace" "canPropagateType f kind" "\<not> IsHNCServiceAccount c (Some groups)"
    and "op \<noteq> Delete \<and> hasPropagatedLabel new \<or> op \<noteq> Create \<and> hasPropagatedLabel old"
  shows "\<exists>resp. Handle_obj lib c rd namespace kind groups op (Inr new) (Inr old) f = Some (resp, f) \<and>
    (Allowed resp \<longleftrightarrow>
       op = Delete \<and> (rd = NotFound \<or> (\<exists>ns. rd = Found ns \<and> \<not> IsZero (nsi_deletionTimestamp ns))) \<or>
       op = Update \<and> fst (GetLabel new LabelInheritedFrom) = fst (GetLabel old LabelInheritedFrom) \<and>
         DeepEqual_obj (canonical new) (canonical old) \<and>
         DeepEqual_map (obj_labels old) (obj_labels new) \<and> DeepEqual_map (obj_annotations old) (obj_annotations new))"
proof -
  define req where "req = \<lparr>req_obj = (if op = Delete then blank_obj else new),
    req_oldObj = (if op = Create then blank_obj else old), req_op = op\<rparr>"
  have "hasPropagatedLabel (req_obj req) \<or> hasPropagatedLabel (req_oldObj req)" using assms(4) by (auto simp: req_def)
  note inh = handle_obj_inherited [OF this, of lib c rd f]
  have "decodeRequest_obj op (Inr new) (Inr old) = Inr req" by (simp add: decodeRequest_obj_def req_def)
  then have "Handle_obj lib c rd namespace kind groups op (Inr new) (Inr old) f = handle_obj lib c rd req f"
    using assms(1-3) by (simp add: Handle_obj_def)
  then show ?thesis
    using inh handleInherited_iff by (auto simp: req_def isDeletingNS_def split: read.split)
qed

definition ex_copy :: Unstructured where
  "ex_copy = ex_source\<lparr>obj_namespace := ''c'', obj_labels := Some [(LabelInheritedFrom, ''a'')]\<rparr>"

lemma ex_objects_request:
  "IsManagedNamespace ex_config ''c''" "canPropagateType ex_objects ex_gvk"
  "\<not> IsHNCServiceAccount ex_config (Some [''system:masters''])" "hasPropagatedLabel ex_copy"
  "IsZero (nsi_deletionTimestamp (ex_ns ''c''))"
  by code_simp+

theorem Handle_obj_protects_copies_witness:
  "\<exists>resp. Handle_obj ex_lib ex_config (Found (ex_ns ''c'')) ''c'' ex_gvk [''system:masters''] Delete (Inr ex_source) (Inr ex_copy) ex_objects
     = Some (resp, ex_objects) \<and> \<not> Allowed resp"
  using Handle_obj_protects_copies [OF ex_objects_request(1-3), of Delete ex_source ex_copy ex_lib "Found (ex_ns ''c'')"]
    ex_objects_request(4,5) by auto







section \<open>Namespaces\<close>

text \<open>
  C28: what the webhook admits on namespaces, for anyone but HNC. It always answers and keeps the forest
  invariant; the verdict, read on the forest it leaves behind, is as follows. A deletion is admitted exactly
  if no parent holds an anchor for the namespace and the namespace either may be deleted with its
  descendants or has no subnamespace as a child. An update is admitted exactly if the label that
  includes the namespace is legal, no tree label is added with a value, changed or removed, and a
  namespace with a parent is not handed to an external manager. A creation is admitted exactly if the
  including label is legal and there is no tree label with a value; the check against the names known to external
  hierarchies never rejects a name, because tree labels carry a suffix that the name of a namespace does not have.
\<close>

theorem handle_namespace_decides:
  assumes "forest_inv f" "nsi_name ns \<noteq> ''''" "distinct_keys (labels_of ns)" "\<not> Contains (nsi_name ns) LabelTreeDepthSuffix"
    and "\<not> IsHNCServiceAccount c (Some groups)" "op = Create \<or> op = Update \<or> op = Delete"
  shows "\<exists>resp g a. Handle_namespace c groups op (Inr ns) (Inr (if op = Delete then ns else old)) f = Some (resp, g) \<and> forest_inv g \<and>
    registered g a \<and> nm_of g a = nsi_name ns \<and>
    (Allowed resp \<longleftrightarrow> (case op of
        Delete \<Rightarrow>
          (\<forall>p. registered g p \<longrightarrow> nm_of g p = get_str (nil_map (nsi_annotations ns)) SubnamespaceOf \<longrightarrow> \<not> HasAnchor g p (nsi_name ns)) \<and>
          (AllowsCascadingDeletion g a \<or> (\<forall>d. registered g d \<longrightarrow> ns_parent (deref g d) = Some a \<longrightarrow> \<not> ns_IsSub (deref g d)))
      | Update \<Rightarrow>
          Allowed (illegalIncludedNamespaceLabel c \<lparr>nsr_ns = ns, nsr_oldns = Some old, nsr_op = Update\<rparr>) \<and>
          tree_labels_kept (labels_of old) (labels_of ns) \<and>
          (get_str (nil_map (nsi_annotations ns)) AnnotationManagedBy \<in> {'''', MetaGroup} \<or> ns_parent (deref g a) = None)
      | _ \<Rightarrow>
          Allowed (illegalIncludedNamespaceLabel c \<lparr>nsr_ns = ns, nsr_oldns = None, nsr_op = Create\<rparr>) \<and>
          tree_labels_kept [] (labels_of ns)))"
proof -
  define req where "req = \<lparr>nsr_ns = ns, nsr_oldns = (if op = Update then Some old else None), nsr_op = op\<rparr>"
  have "Handle_namespace c groups op (Inr ns) (Inr (if op = Delete then ns else old)) f = handle_namespace c req f"
    using assms(5,6) by (auto simp: Handle_namespace_def decodeRequest_ns_def req_def)
  moreover obtain resp g a where "handle_namespace c req f = Some (resp, g)" "forest_inv g" "registered g a"
      "nm_of g a = nsi_name ns" "Allowed resp \<longleftrightarrow> namespace_ok c req a g"
    using handle_namespace_iff [of f req c] assms(1-4) by (auto simp: req_def)
  ultimately show ?thesis
    using assms(6) by (intro exI [of _ resp] exI [of _ g] exI [of _ a]) (auto simp: namespace_ok_def req_def Let_def)
qed

theorem handle_namespace_decides_witness:
  "\<exists>resp g. Handle_namespace ex_config [''system:masters''] Delete (Inr (ex_ns ''c'')) (Inr (ex_ns ''c'')) ex_line = Some (resp, g) \<and>
     forest_inv g"
proof -
  have "nsi_name (ex_ns ''c'') = ''c''" "distinct_keys (labels_of (ex_ns ''c''))" "\<not> Contains ''c'' LabelTreeDepthSuffix"
    "\<not> IsHNCServiceAccount ex_config (Some [''system:masters''])" by code_simp+
  then show ?thesis
    using handle_namespace_decides [OF ex_line_inv, of "ex_ns ''c''" ex_config "[''system:masters'']" Delete] by auto
qed

end
