(* ===== verification/Anchor_Properties.thy ===== *)
theory Anchor_Properties
  imports Admission Anchors Hierarchy_Properties
begin

text \<open>
  The contract of the anchor reconciler: when it creates the subnamespace of an anchor, when it deletes
  it, and when it lets go of the anchor.
\<close>

section \<open>Decisions\<close>

text \<open>The subnamespace goes with its anchor: it is a leaf, or it may be deleted with its descendants.\<close>

definition may_delete :: "Forest \<Rightarrow> string \<Rightarrow> bool" where
  "may_delete f nm \<longleftrightarrow> (case map_of (f_namespaces f) nm of
     None \<Rightarrow> True
   | Some a \<Rightarrow> ChildNames f a = [] \<or> AllowsCascadingDeletion f a)"

lemma may_delete_Get:
  assumes "forest_inv f" "nm \<noteq> ''''"
  shows "\<exists>a g. Get nm f = (Some a, g) \<and> forest_inv g \<and>
    (ChildNames g a = [] \<or> AllowsCascadingDeletion g a \<longleftrightarrow> may_delete f nm)"
proof (cases nm f rule: Get_cases)
  case 3
  have "ChildNames (alloc nm f) (length (f_heap f)) = []" by (simp add: ChildNames_def deref_alloc)
  then show ?thesis using 3 alloc_inv [OF assms(1)] by (auto simp: may_delete_def alloc_def)
qed (use assms in \<open>auto simp: may_delete_def\<close>)

text \<open>The anchor is bound to the namespace that was read.\<close>

definition bound :: "SubnamespaceAnchor \<Rightarrow> NamespaceInst \<Rightarrow> bool" where
  "bound inst ns \<longleftrightarrow> nsi_name ns \<noteq> '''' \<and> get_str (nil_map (nsi_annotations ns)) SubnamespaceOf = an_namespace inst"

lemma updateState_state:
  "an_state (updateState inst ns) = Ok \<longleftrightarrow> bound inst ns"
  "an_state (updateState inst ns) = Missing \<longleftrightarrow> nsi_name ns = ''''"
  by (auto simp: updateState_def bound_def Let_def)

lemma updateState_frame [simp]:
  "an_name (updateState inst ns) = an_name inst" "an_finalizers (updateState inst ns) = an_finalizers inst"
  "an_deletionTimestamp (updateState inst ns) = an_deletionTimestamp inst"
  "an_namespace (updateState inst ns) = an_namespace inst"
  by (auto simp: updateState_def Let_def)

definition delete_now :: "SubnamespaceAnchor \<Rightarrow> NamespaceInst \<Rightarrow> Forest \<Rightarrow> bool" where
  "delete_now inst ns f \<longleftrightarrow> bound inst ns \<and> has_finalizer inst \<and> IsZero (nsi_deletionTimestamp ns) \<and> may_delete f (an_name inst)"

lemma shouldDeleteSubns_eq:
  assumes "forest_inv f" "an_name inst \<noteq> ''''"
  shows "\<exists>g. shouldDeleteSubns (updateState inst ns) ns crd f = Some (\<not> crd \<and> delete_now inst ns f, g) \<and> forest_inv g"
proof -
  obtain a g where g: "Get (an_name inst) f = (Some a, g)" "forest_inv g"
      "ChildNames g a = [] \<or> AllowsCascadingDeletion g a \<longleftrightarrow> may_delete f (an_name inst)"
    using may_delete_Get [OF assms] by blast
  consider "an_state (updateState inst ns) = Ok" | "an_state (updateState inst ns) \<noteq> Ok" by blast
  then show ?thesis
  proof cases
    case 1
    then have "bound inst ns" by (simp add: updateState_state)
    then show ?thesis using 1 g assms(1) by (auto simp: shouldDeleteSubns_def delete_now_def GetP_def)
  next
    case 2
    then have "\<not> bound inst ns" by (simp add: updateState_state)
    then show ?thesis using 2 assms(1)
      by (auto simp: shouldDeleteSubns_def delete_now_def split: SubnamespaceAnchorState.splits)
  qed
qed

lemma shouldFinalizeAnchor_eq:
  "shouldFinalizeAnchor (updateState inst ns) ns \<longleftrightarrow> has_finalizer inst \<and> (bound inst ns \<longrightarrow> IsZero (nsi_deletionTimestamp ns))"
  using updateState_state(1) [of inst ns] by (auto simp: shouldFinalizeAnchor_def split: SubnamespaceAnchorState.splits)

section \<open>The contract\<close>

text \<open>
  What one reconciliation of the anchor \<open>pnm/nm\<close> writes. \<open>keep\<close> tells whether the written anchor keeps
  its finalizer.
\<close>

datatype anchor_action =
  Leave | Fail
| Write_anchor SubnamespaceAnchorState bool
| Make_namespace SubnamespaceAnchorState
| Drop_namespace NamespaceInst

definition deleting_spec :: "AnchorReads \<Rightarrow> SubnamespaceAnchor \<Rightarrow> NamespaceInst \<Rightarrow> Forest \<Rightarrow> anchor_action" where
  "deleting_spec rd inst ns f =
     (case IsDeletingCRD (ard_CRD rd) of
        Inl err \<Rightarrow> Fail
      | Inr crd \<Rightarrow>
          if \<not> crd \<and> delete_now inst ns f then Drop_namespace ns
          else if has_finalizer inst \<and> (bound inst ns \<longrightarrow> IsZero (nsi_deletionTimestamp ns))
          then Write_anchor (an_state (updateState inst ns)) False
          else Leave)"

definition anchor_spec :: "Config \<Rightarrow> AnchorReads \<Rightarrow> string \<Rightarrow> string \<Rightarrow> Forest \<Rightarrow> anchor_action" where
  "anchor_spec c rd pnm nm f =
     (case ard_anchor rd of
        NotFound \<Rightarrow> Leave
      | ReadError err \<Rightarrow> Fail
      | Found inst \<Rightarrow>
          if \<not> IsManagedNamespace c pnm then (if has_finalizer inst then Write_anchor (an_state inst) False else Leave)
          else if \<not> IsManagedNamespace c nm
          then (if an_state inst \<noteq> Forbidden \<or> has_finalizer inst then Write_anchor Forbidden False else Leave)
          else (case getNamespace_anchor rd of
              Inl err \<Rightarrow> Fail
            | Inr ns \<Rightarrow>
                (let st = an_state (updateState inst ns) in
                 if IsZero (an_deletionTimestamp inst)
                 then (if st = Missing then Make_namespace Missing else Write_anchor st True)
                 else deleting_spec rd inst ns f)))"

definition written_anchor :: "string \<Rightarrow> string \<Rightarrow> SubnamespaceAnchorState \<Rightarrow> bool \<Rightarrow> AnchorWrite \<Rightarrow> bool" where
  "written_anchor pnm nm st keep w \<longleftrightarrow> (case w of
     CreateAnchor i \<Rightarrow> an_name i = nm \<and> an_namespace i = pnm \<and> an_state i = st \<and> has_finalizer i = keep
   | UpdateAnchor i \<Rightarrow> an_name i = nm \<and> an_namespace i = pnm \<and> an_state i = st \<and> has_finalizer i = keep
   | _ \<Rightarrow> False)"

definition new_subns :: "string \<Rightarrow> string \<Rightarrow> NamespaceInst" where
  "new_subns pnm nm = \<lparr>nsi_name = nm, nsi_labels = None, nsi_annotations = Some [(SubnamespaceOf, pnm)], nsi_deletionTimestamp = 0\<rparr>"

fun performs :: "string \<Rightarrow> string \<Rightarrow> anchor_action \<Rightarrow> AnchorWrite list \<Rightarrow> bool" where
  "performs pnm nm (Write_anchor st keep) ws = (\<exists>w. ws = [w] \<and> written_anchor pnm nm st keep w)"
| "performs pnm nm (Make_namespace st) ws =
     (\<exists>w. ws = [CreateNamespace (new_subns pnm nm), w] \<and> written_anchor pnm nm st True w)"
| "performs pnm nm (Drop_namespace ns) ws = (ws = [DeleteNamespace ns])"
| "performs pnm nm Leave ws = (ws = [])"
| "performs pnm nm Fail ws = (ws = [])"

lemma writeInstance_performs:
  assumes "an_name i = nm" "an_namespace i = pnm"
  shows "\<exists>w err. writeInstance wr i = ([w], err) \<and> written_anchor pnm nm (an_state i) (has_finalizer i) w"
  using assms by (auto simp: writeInstance_def written_anchor_def Let_def)

lemma onDeleting_performs:
  assumes "forest_inv f" "an_name inst = nm" "an_namespace inst = pnm" "nm \<noteq> ''''"
  shows "\<exists>ws err g. onDeleting rd wr (updateState inst ns) ns f = Some (ws, err, g) \<and> forest_inv g \<and>
    performs pnm nm (deleting_spec rd inst ns f) ws"
proof (cases "IsDeletingCRD (ard_CRD rd)")
  case (Inr crd)
  define del where "del \<longleftrightarrow> \<not> crd \<and> delete_now inst ns f"
  define fin where "fin \<longleftrightarrow> has_finalizer inst \<and> (bound inst ns \<longrightarrow> IsZero (nsi_deletionTimestamp ns))"
  obtain g where g: "shouldDeleteSubns (updateState inst ns) ns crd f = Some (del, g)" "forest_inv g"
    using shouldDeleteSubns_eq [OF assms(1), of inst ns crd] assms unfolding del_def by blast
  obtain w err where w: "writeInstance wr (RemoveFinalizer (updateState inst ns)) = ([w], err)"
      "written_anchor pnm nm (an_state (updateState inst ns)) False w"
    using writeInstance_performs [of "RemoveFinalizer (updateState inst ns)" nm pnm wr] assms
    by (auto simp: RemoveFinalizer_def)
  then show ?thesis using g Inr
    unfolding onDeleting_def deleting_spec_def shouldFinalizeAnchor_eq del_def [symmetric] fin_def [symmetric]
    by (cases del; cases fin) (simp_all add: deleteNamespace_def del_def [symmetric] fin_def [symmetric])
qed (use assms in \<open>simp add: onDeleting_def deleting_spec_def\<close>)

lemma Reconcile_anchor_performs:
  assumes "forest_inv f" "nm \<noteq> ''''" "ard_anchor rd = Found inst" "an_name inst = nm" "an_namespace inst = pnm"
  shows "\<exists>ws err g. Reconcile_anchor c rd wr pnm nm f = Some (ws, err, g) \<and> forest_inv g \<and>
    performs pnm nm (anchor_spec c rd pnm nm f) ws"
proof -
  have wi: "\<exists>w err. writeInstance wr i = ([w], err) \<and> written_anchor pnm nm (an_state i) (has_finalizer i) w"
    if "an_name i = nm" "an_namespace i = pnm" for i
    using that by (rule writeInstance_performs)
  obtain w1 e1 where w1: "writeInstance wr (RemoveFinalizer inst) = ([w1], e1)" "written_anchor pnm nm (an_state inst) False w1"
    using wi [of "RemoveFinalizer inst"] assms(4,5) by (auto simp: RemoveFinalizer_def)
  obtain w2 e2 where w2: "writeInstance wr (RemoveFinalizer (inst\<lparr>an_state := Forbidden\<rparr>)) = ([w2], e2)" "written_anchor pnm nm Forbidden False w2"
    using wi [of "RemoveFinalizer (inst\<lparr>an_state := Forbidden\<rparr>)"] assms(4,5) by (auto simp: RemoveFinalizer_def)
  show ?thesis
  proof (cases "IsManagedNamespace c pnm \<and> IsManagedNamespace c nm")
    case False
    then show ?thesis using assms w1 w2
      by (simp add: Reconcile_anchor_def anchor_spec_def IsManagedNamespace_def)
  next
    case managed: True
    show ?thesis
    proof (cases "getNamespace_anchor rd")
      case (Inr ns)
      define i where "i = AddFinalizer (updateState inst ns)"
      have i: "an_state i = an_state (updateState inst ns)" "has_finalizer i" "an_name i = nm" "an_namespace i = pnm"
        using assms(4,5) by (auto simp: i_def AddFinalizer_def)
      obtain w3 e3 where w3: "writeInstance wr i = ([w3], e3)" "written_anchor pnm nm (an_state i) True w3"
        using wi [OF i(3,4)] i(2) by auto
      have "writeNamespace_anchor wr nm pnm = ([CreateNamespace (new_subns pnm nm)], wr (CreateNamespace (new_subns pnm nm)))"
        by (simp add: writeNamespace_anchor_def new_subns_def SetAnnotation_ns_def blank_ns_def Let_def)
      then show ?thesis
        using assms managed Inr onDeleting_performs [OF assms(1,4,5,2), of rd wr ns] w3 i
        by (cases "IsZero (an_deletionTimestamp inst)"; cases "an_state (updateState inst ns) = Missing"; cases "wr (CreateNamespace (new_subns pnm nm))")
          (simp_all add: Reconcile_anchor_def anchor_spec_def IsManagedNamespace_def Let_def i_def [symmetric])
    qed (use assms managed in \<open>simp add: Reconcile_anchor_def anchor_spec_def IsManagedNamespace_def\<close>)
  qed
qed

text \<open>
  C17: the anchor reconciler always returns and keeps the forest invariant. It deletes a namespace exactly
  when the parent and the subnamespace are managed, the anchor is being deleted and still has its
  finalizer, the namespace that was read names this parent in its subnamespace-of annotation and is not
  being deleted yet, the anchor CRD is known not to be under deletion, and the namespace is a leaf or may
  be deleted with its descendants. It creates a namespace exactly when both names are managed, the anchor
  is not being deleted and no namespace of that name exists; the new one names the parent in its annotation. On managed names it takes the finalizer
  off only while the anchor is being deleted, and only if a namespace bound to the anchor is not being
  deleted and is to stay.
\<close>

theorem Reconcile_anchor_contract:
  assumes "forest_inv f" "nm \<noteq> ''''" "ard_anchor rd = Found inst" "an_name inst = nm" "an_namespace inst = pnm"
    and "case ard_namespace rd of Found ns \<Rightarrow> nsi_name ns = nm | _ \<Rightarrow> True"
  shows "\<exists>ws err g. Reconcile_anchor c rd wr pnm nm f = Some (ws, err, g) \<and> forest_inv g \<and>
    (\<forall>ns. DeleteNamespace ns \<in> set ws \<longleftrightarrow>
       IsManagedNamespace c pnm \<and> IsManagedNamespace c nm \<and> \<not> IsZero (an_deletionTimestamp inst) \<and> has_finalizer inst \<and>
       ard_namespace rd = Found ns \<and> get_str (nil_map (nsi_annotations ns)) SubnamespaceOf = pnm \<and>
       IsZero (nsi_deletionTimestamp ns) \<and> IsDeletingCRD (ard_CRD rd) = Inr False \<and> may_delete f nm) \<and>
    (\<forall>ns. CreateNamespace ns \<in> set ws \<longleftrightarrow>
       IsManagedNamespace c pnm \<and> IsManagedNamespace c nm \<and> IsZero (an_deletionTimestamp inst) \<and>
       ard_namespace rd = NotFound \<and> ns = new_subns pnm nm) \<and>
    (\<forall>i. (UpdateAnchor i \<in> set ws \<or> CreateAnchor i \<in> set ws) \<and> \<not> has_finalizer i \<and>
       IsManagedNamespace c pnm \<and> IsManagedNamespace c nm \<longrightarrow>
       \<not> IsZero (an_deletionTimestamp inst) \<and>
       (\<forall>ns. ard_namespace rd = Found ns \<and> get_str (nil_map (nsi_annotations ns)) SubnamespaceOf = pnm \<longrightarrow>
          IsZero (nsi_deletionTimestamp ns) \<and> (IsDeletingCRD (ard_CRD rd) = Inr True \<or> \<not> may_delete f nm)))"
proof -
  obtain ws err g where g: "Reconcile_anchor c rd wr pnm nm f = Some (ws, err, g)" "forest_inv g"
      "performs pnm nm (anchor_spec c rd pnm nm f) ws"
    using Reconcile_anchor_performs [OF assms(1-5)] by blast
  have ns: "bound inst ns \<longleftrightarrow> get_str (nil_map (nsi_annotations ns)) SubnamespaceOf = pnm" "nsi_name ns \<noteq> ''''"
    if "ard_namespace rd = Found ns" for ns
    using that assms(2,5,6) by (auto simp: bound_def)
  have blank: "nsi_name blank_ns = ''''" "\<not> bound inst blank_ns" by (auto simp: blank_ns_def bound_def)
  show ?thesis
    using g assms(3-5) ns blank
    by (auto simp: anchor_spec_def deleting_spec_def getNamespace_anchor_def delete_now_def written_anchor_def updateState_state Let_def
        split: if_splits read.splits sum.splits)
qed

definition ex_anchor :: SubnamespaceAnchor where
  "ex_anchor = \<lparr>an_name = ''c'', an_namespace = ''b'', an_creationTimestamp = 1, an_deletionTimestamp = 5,
     an_finalizers = [MetaGroup], an_labels = [], an_annotations = [], an_state = Ok\<rparr>"

definition ex_subns :: NamespaceInst where
  "ex_subns = \<lparr>nsi_name = ''c'', nsi_labels = None, nsi_annotations = Some [(SubnamespaceOf, ''b'')], nsi_deletionTimestamp = 0\<rparr>"

definition ex_anchor_reads :: AnchorReads where
  "ex_anchor_reads = \<lparr>ard_anchor = Found ex_anchor, ard_namespace = Found ex_subns, ard_CRD = Found 0\<rparr>"

definition ex_kv :: K8sValidation where
  "ex_kv = \<lparr>kv_IsQualifiedName = (\<lambda>k. []), kv_IsValidLabelValue = (\<lambda>v. [])\<rparr>"

lemma ex_anchor_facts:
  "an_name ex_anchor = ''c''" "an_namespace ex_anchor = ''b''" "an_state ex_anchor = Ok" "has_finalizer ex_anchor"
  "\<not> IsZero (an_deletionTimestamp ex_anchor)" "bound ex_anchor ex_subns" "IsZero (nsi_deletionTimestamp ex_subns)"
  "get_str (nil_map (nsi_annotations ex_subns)) SubnamespaceOf = ''b''" "nsi_name ex_subns = ''c''"
  "ard_anchor ex_anchor_reads = Found ex_anchor" "ard_namespace ex_anchor_reads = Found ex_subns"
  "IsDeletingCRD (ard_CRD ex_anchor_reads) = Inr False"
  "IsManagedNamespace ex_config ''b''" "IsManagedNamespace ex_config ''c''"
  by code_simp+

lemma ex_line_leaf: "may_delete ex_line ''c''" "\<not> may_delete ex_line ''b''"
  by code_simp+

theorem Reconcile_anchor_contract_witness:
  "\<exists>ws err g. Reconcile_anchor ex_config ex_anchor_reads (\<lambda>w. None) ''b'' ''c'' ex_line = Some (ws, err, g) \<and>
     forest_inv g \<and> DeleteNamespace ex_subns \<in> set ws"
  using Reconcile_anchor_contract [OF ex_line_inv, of "''c''" ex_anchor_reads ex_anchor "''b''" ex_config "\<lambda>w. None"]
    ex_anchor_facts ex_line_leaf by auto

section \<open>The webhook and the reconciler\<close>

lemma may_delete_stable: "Get nm f = (Some a, g) \<Longrightarrow> may_delete g nm = may_delete f nm"
  by (cases nm f rule: Get_cases) (auto simp: may_delete_def alloc_def [symmetric] ChildNames_def deref_alloc update_conv')

text \<open>
  C18: the webhook and the reconciler agree on the deletion of a subnamespace. For a bound anchor with its
  finalizer and valid managed metadata, the webhook admits the request of a user to delete the anchor
  exactly if the reconciler, on the forest the webhook leaves behind, then decides to delete the
  namespace (while the CRD is not being deleted and the namespace is not either).
\<close>

theorem Handle_anchor_agrees:
  assumes "forest_inv f" "an_name inst \<noteq> ''''" "\<not> IsHNCServiceAccount c (Some groups)" "an_state inst = Ok" "has_finalizer inst"
    and "ValidateManagedLabels kv c (an_labels inst) = []" "ValidateManagedAnnotations kv c (an_annotations inst) = []"
    and "nsi_name ns = an_name inst" "get_str (nil_map (nsi_annotations ns)) SubnamespaceOf = an_namespace inst"
    and "IsZero (nsi_deletionTimestamp ns)"
  shows "\<exists>resp g del h. Handle_anchor kv isDNS c groups Delete new (Inr inst) f = Some (resp, g) \<and>
    shouldDeleteSubns (updateState inst ns) ns False g = Some (del, h) \<and> (Allowed resp \<longleftrightarrow> del) \<and> (del \<longleftrightarrow> may_delete f (an_name inst))"
proof -
  obtain a g where g: "Get (an_name inst) f = (Some a, g)" "forest_inv g"
      "ChildNames g a = [] \<or> AllowsCascadingDeletion g a \<longleftrightarrow> may_delete f (an_name inst)"
    using may_delete_Get [OF assms(1,2)] by blast
  have "delete_now inst ns g \<longleftrightarrow> may_delete f (an_name inst)"
    using assms may_delete_stable [OF g(1)] by (auto simp: delete_now_def bound_def)
  moreover obtain h where "shouldDeleteSubns (updateState inst ns) ns False g = Some (delete_now inst ns g, h)"
    using shouldDeleteSubns_eq [OF g(2) assms(2), of ns False] by auto
  ultimately show ?thesis
    using g assms(3-7) by (cases "may_delete f (an_name inst)")
      (auto simp: Handle_anchor_def decodeRequest_anchor_def handle_anchor_def)
qed

theorem Handle_anchor_agrees_witness:
  "\<exists>resp g del h. Handle_anchor ex_kv (\<lambda>nm. []) ex_config [''system:masters''] Delete (Inl '''') (Inr ex_anchor) ex_line = Some (resp, g) \<and>
     shouldDeleteSubns (updateState ex_anchor ex_subns) ex_subns False g = Some (del, h) \<and> Allowed resp \<and> del"
proof -
  have "\<not> IsHNCServiceAccount ex_config (Some [''system:masters''])"
    "ValidateManagedLabels ex_kv ex_config (an_labels ex_anchor) = []"
    "ValidateManagedAnnotations ex_kv ex_config (an_annotations ex_anchor) = []" by code_simp+
  then show ?thesis
    using Handle_anchor_agrees [OF ex_line_inv, of ex_anchor ex_config "[''system:masters'']" ex_kv ex_subns "\<lambda>nm. []" "Inl ''''"]
      ex_anchor_facts ex_line_leaf by auto
qed

end
