(* ===== verification/Object_Frame.thy ===== *)
theory Object_Frame
  imports Config_Modes Quota_Bounds Admission_Properties Anchor_Properties
begin

text \<open>
  What the hierarchy and the quota code leaves alone: the source objects and the type syncers.

  Any property of a forest that lookups, the removal of a name, and updates of a namespace that keep its name
  and its source objects preserve, is preserved by every operation of the hierarchy
  reconciler, the quota reconcilers and the webhooks. The locale proves this once; it is used for the
  well-formedness of the source objects together with the list of type syncers.
\<close>

locale object_frame =
  fixes P :: "Forest \<Rightarrow> bool"
  assumes frame_Get: "P f \<Longrightarrow> P (snd (Get nm f))"
    and frame_modify: "P f \<Longrightarrow> (\<And>n. ns_sourceObjects (u n) = ns_sourceObjects n \<and> ns_name (u n) = ns_name n) \<Longrightarrow> P (modify a u f)"
    and frame_names: "P f \<Longrightarrow> P (f\<lparr>f_namespaces := m\<rparr>)"
begin

lemma frame_GetP: "GetP nm f = Some (a, g) \<Longrightarrow> P f \<Longrightarrow> P g"
  using frame_Get [of f nm] by (auto simp: GetP_def split: prod.splits option.splits)

lemma frame_Get_result: "Get nm f = (a, g) \<Longrightarrow> P f \<Longrightarrow> P g"
  using frame_Get [of f nm] by simp

lemma frame_populateDescendants: "populateDescendants f cs d = Some (d', g) \<Longrightarrow> P f \<Longrightarrow> P g"
  by (induction f cs d arbitrary: d' g rule: populateDescendants.induct)
    (auto split: if_splits prod.splits option.splits dest: frame_Get_result)

lemma frame_DescendantNames: "DescendantNames ns f = Some (ds, g) \<Longrightarrow> P f \<Longrightarrow> P g"
  by (auto simp: DescendantNames_def bind_eq_Some_conv dest: frame_populateDescendants)

lemma frame_limits_loop: "limits_loop nms rs f = Some (l, g) \<Longrightarrow> P f \<Longrightarrow> P g"
  by (induction nms arbitrary: rs f) (auto simp: bind_eq_Some_conv dest: frame_GetP)

lemma frame_Limits: "Limits n f = Some (l, g) \<Longrightarrow> P f \<Longrightarrow> P g"
  unfolding Limits_def by (rule frame_limits_loop)

lemma frame_use_loop: "use_loop delta nms f = Some g \<Longrightarrow> P f \<Longrightarrow> P g"
proof (induction nms arbitrary: f)
  case (Cons nm nms)
  then obtain ns f1 l f2 where s: "GetP nm f = Some (ns, f1)" "Limits ns f1 = Some (l, f2)"
      "use_loop delta nms (modify ns (\<lambda>n. n\<lparr>ns_used_subtree := FilterUnlimited (Add delta (ns_used_subtree (deref f1 ns))) l\<rparr>) f2) = Some g"
    by (auto simp: bind_eq_Some_conv Let_def)
  show ?case by (rule Cons.IH [OF s(3)]) (auto intro!: frame_modify frame_Limits [OF s(2)] frame_GetP [OF s(1)] Cons.prems)
qed simp

lemma frame_UseResources: "UseResources n u f = Some g \<Longrightarrow> P f \<Longrightarrow> P g"
  by (auto simp: UseResources_def bind_eq_Some_conv Let_def split: if_splits
      dest!: frame_Limits elim!: frame_use_loop intro!: frame_modify)

lemma frame_clean: "P f \<Longrightarrow> P (clean ns f)"
  by (simp add: clean_def Let_def frame_names)

lemma frame_links: "P f \<Longrightarrow> P (unlink_parent ns f)" "P f \<Longrightarrow> P (link_parent ns p f)"
  by (auto simp: unlink_parent_def link_parent_def Let_def split: option.split intro!: frame_modify frame_clean)

lemma frame_SetParent: "SetParent ns p f = Some g \<Longrightarrow> P f \<Longrightarrow> P g"
  by (auto simp: SetParent_def bind_eq_Some_conv Let_def split: if_splits option.splits
      elim!: frame_UseResources intro!: frame_links)

lemma frame_UnsetExists: "UnsetExists ns f = Some (b, g) \<Longrightarrow> P f \<Longrightarrow> P g"
  by (auto simp: UnsetExists_def bind_eq_Some_conv Let_def elim!: frame_SetParent intro!: frame_clean frame_modify)

lemma frame_SetCondition: "P f \<Longrightarrow> P (SetCondition now ns tp reason msg f)"
  by (auto simp: SetCondition_def intro!: frame_modify)

lemma frame_enqueueAffected [simp]: "env_forest (enqueueAffected xs e) = env_forest e"
  by (simp add: enqueueAffected_def)

lemma frame_enqueue_descendants: "enqueue_descendants ns e = Some e' \<Longrightarrow> P (env_forest e) \<Longrightarrow> P (env_forest e')"
  by (auto simp: enqueue_descendants_def bind_eq_Some_conv dest: frame_DescendantNames)

lemma frame_onMissingNamespace: "onMissingNamespace nm e = Some e' \<Longrightarrow> P (env_forest e) \<Longrightarrow> P (env_forest e')"
  by (auto simp: onMissingNamespace_def bind_eq_Some_conv Let_def split: if_splits
      elim!: frame_UnsetExists elim: frame_GetP)

lemma frame_syncExternalNamespace: "syncExternalNamespace nsInst ns e = Some e' \<Longrightarrow> P (env_forest e) \<Longrightarrow> P (env_forest e')"
  by (auto simp: syncExternalNamespace_def bind_eq_Some_conv Let_def split: if_splits
      intro!: frame_modify elim: frame_enqueue_descendants)

lemma frame_syncSubnamespaceParent:
  "syncSubnamespaceParent now inst nsInst ns pa e = (inst', e') \<Longrightarrow> P (env_forest e) \<Longrightarrow> P (env_forest e')"
  by (auto simp: syncSubnamespaceParent_def Let_def split: if_splits option.splits intro!: frame_modify frame_SetCondition)

lemma frame_conditions:
  "P f \<Longrightarrow> P (setCycleCondition now ns f)" "P f \<Longrightarrow> P (parent_condition now c parent ns p f)" "P f \<Longrightarrow> P (ClearConditions ns f)"
  by (auto simp: setCycleCondition_def parent_condition_def ClearConditions_def Let_def split: option.split
      intro!: frame_SetCondition frame_modify)

lemma frame_syncParent:
  assumes "syncParent now c inst ns e = Some e'" "P (env_forest e)"
  shows "P (env_forest e')"
proof -
  obtain e1 where e1: "syncParent_body now c inst ns e = Some e1" "e' = on_forest (setCycleCondition now ns) e1"
    using assms(1) by (auto simp: syncParent_def bind_eq_Some_conv)
  have "P (env_forest e1)"
  proof (cases "IsExternal (env_forest e) ns")
    case True
    then show ?thesis using e1(1) assms(2)
      by (auto simp: syncParent_body_def bind_eq_Some_conv Let_def split: option.splits elim!: frame_SetParent)
  next
    case False
    obtain p f where g: "Get (hc_parent inst) (env_forest e) = (p, f)" by fastforce
    let ?f = "parent_condition now c (hc_parent inst) ns p f"
    have f: "P ?f" by (rule frame_conditions(2) [OF frame_Get_result [OF g assms(2)]])
    show ?thesis
    proof (cases "p = ns_parent (deref ?f ns)")
      case True
      then show ?thesis using e1(1) False g f by (auto simp: syncParent_body_def)
    next
      case n: False
      then show ?thesis using e1(1) False g f
        by (auto simp: syncParent_body_def bind_eq_Some_conv Let_def elim!: frame_enqueue_descendants frame_SetParent)
    qed
  qed
  then show ?thesis by (simp add: e1(2) frame_conditions)
qed

lemma frame_marks:
  "P (env_forest e) \<Longrightarrow> P (env_forest (markExisting ns e))" "P (env_forest e) \<Longrightarrow> P (env_forest (syncAnchors ns anms e))"
  "P f \<Longrightarrow> P (snd (SetLabels ns l f))" "P f \<Longrightarrow> P (snd (UpdateAllowCascadingDeletion ns b f))"
proof -
  have q: "env_forest (fold (\<lambda>x e. enqueueAffected [x] e) xs e) = env_forest e" for xs e by (induction xs arbitrary: e) auto
  show "P (env_forest e) \<Longrightarrow> P (env_forest (markExisting ns e))"
    by (auto simp: markExisting_def SetExists_def OnChangeNamespace_def Let_def intro!: frame_modify)
  show "P (env_forest e) \<Longrightarrow> P (env_forest (syncAnchors ns anms e))"
    by (auto simp: syncAnchors_def SetAnchors_def Let_def q split: prod.split intro!: frame_modify)
  show "P f \<Longrightarrow> P (snd (SetLabels ns l f))" "P f \<Longrightarrow> P (snd (UpdateAllowCascadingDeletion ns b f))"
    by (auto simp: SetLabels_def UpdateAllowCascadingDeletion_def intro!: frame_modify)
qed

lemma frame_managed_from_spec:
  assumes "P f" "\<And>k f. P f \<Longrightarrow> P (set_cond k f)"
  shows "P (snd (managed_from_spec legal set_cond kvps f))"
proof -
  have "P (snd (fold (\<lambda>kvp (managed, f). if \<not> legal (kvp_key kvp) then (managed, set_cond (kvp_key kvp) f)
      else (AList.update (kvp_key kvp) (kvp_value kvp) managed, f)) kvps (m, f)))" for m
    using assms(1) by (induction kvps arbitrary: m f) (auto intro: assms(2))
  then show ?thesis by (simp add: managed_from_spec_def)
qed

lemma frame_syncAnnotations:
  assumes "syncAnnotations now c inst nsInst ns e = Some (nsInst', e')" "P (env_forest e)"
  shows "P (env_forest e')"
proof -
  obtain managed f where m: "managed_from_spec (IsManagedAnnotation c)
       (\<lambda>k. SetCondition now ns ConditionBadConfiguration ReasonIllegalManagedAnnotation
          (''Not a legal managed annotation (set via --managed-namespace-annotation): '' @ k))
       (hc_annotations inst) (env_forest e) = (managed, f)" by fastforce
  have "P f" using frame_managed_from_spec [of "env_forest e"] frame_SetCondition assms(2) m by (metis snd_conv)
  then show ?thesis using assms(1) m
    by (auto simp: syncAnnotations_def bind_eq_Some_conv Let_def split: if_splits prod.splits
        elim!: frame_enqueue_descendants intro!: frame_modify)
qed

lemma frame_syncLabels:
  assumes "syncLabels now c inst nsInst ns e = Some (nsInst', e')" "P (env_forest e)"
  shows "P (env_forest e')"
proof -
  obtain managed f where m: "managed_from_spec (IsManagedLabel c)
       (\<lambda>k. SetCondition now ns ConditionBadConfiguration ReasonIllegalManagedLabel
          (''Not a legal managed label (set via --managed-namespace-label): '' @ k))
       (hc_labels inst) (env_forest e) = (managed, f)" by fastforce
  have f: "P f" using frame_managed_from_spec [of "env_forest e"] frame_SetCondition assms(2) m by (metis snd_conv)
  obtain labels m2 where st: "strip_labels c (IsExternal f ns) (nsi_labels nsInst) managed = (labels, m2)" by fastforce
  let ?m = "if length m2 = 0 then None else Some m2" and ?ns = "nsInst\<lparr>nsi_labels := labels\<rparr>" and ?e = "e\<lparr>env_forest := f\<rparr>"
  let ?enq = "if \<not> DeepEqual_map (ns_ManagedLabels (deref f ns)) ?m
    then enqueue_descendants ns (on_forest (modify ns (\<lambda>n. n\<lparr>ns_ManagedLabels := ?m\<rparr>)) ?e) else Some ?e"
  have sl: "syncLabels now c inst nsInst ns e = do {
      e \<leftarrow> ?enq;
      let (nsInst, e) = (if IsExternal (env_forest e) ns
        then (let nsInst = SetLabel_ns ?ns (nsi_name ?ns @ LabelTreeDepthSuffix) ''0''
              in (nsInst, on_forest (\<lambda>f. snd (SetLabels ns (nsi_labels nsInst) f)) e))
        else (?ns, e));
      nsInst \<leftarrow> label_walk (env_forest e) (Some ns) 0 nsInst;
      let (updated, f) = SetLabels ns (nsi_labels nsInst) (env_forest e);
      let e = e\<lparr>env_forest := f\<rparr>;
      Some (nsInst, if updated then OnChangeNamespace ns e else e) }"
    unfolding syncLabels_def m by (simp add: st Let_def)
  then obtain e1 where e1: "?enq = Some e1" using assms(1) by (cases ?enq) simp_all
  then have "P (env_forest e1)" using f by (auto split: if_splits elim!: frame_enqueue_descendants intro!: frame_modify)
  moreover have "P (env_forest e')" if "P (env_forest e1)"
    using assms(1) that unfolding sl e1
    by (auto simp: bind_eq_Some_conv Let_def OnChangeNamespace_def SetLabels_def split: if_splits intro!: frame_modify)
  ultimately show ?thesis by blast
qed

lemma frame_syncConditions:
  "syncConditions inst ns wasHalted e = Some (inst', e') \<Longrightarrow> P (env_forest e) \<Longrightarrow> P (env_forest e')"
  by (auto simp: syncConditions_def bind_eq_Some_conv split: if_splits elim: frame_enqueue_descendants)

lemma frame_syncWithForest:
  assumes "syncWithForest now c nsInst inst deletingCRD anms pa e = Some (nsInst', inst', e')" "P (env_forest e)"
  shows "P (env_forest e')"
proof -
  obtain ns f1 where g: "GetP (nsi_name nsInst) (env_forest e) = Some (ns, f1)"
    using assms(1) by (cases "GetP (nsi_name nsInst) (env_forest e)") (auto simp: syncWithForest_def)
  let ?f = "if deletingCRD then SetCondition now ns ConditionActivitiesHalted ReasonDeletingCRD
    ''The HierarchyConfiguration CRD is being deleted; all propagation is disabled.'' (ClearConditions ns f1) else ClearConditions ns f1"
  have f: "P ?f" using frame_GetP [OF g assms(2)] by (simp add: frame_conditions frame_SetCondition)
  obtain e1 where e1: "syncExternalNamespace nsInst ns (e\<lparr>env_forest := ?f\<rparr>) = Some e1"
    using assms(1) g by (cases "syncExternalNamespace nsInst ns (e\<lparr>env_forest := ?f\<rparr>)") (simp_all add: syncWithForest_def Let_def)
  obtain inst1 e2 where e2: "syncSubnamespaceParent now inst nsInst ns pa e1 = (inst1, e2)" by fastforce
  have 2: "P (env_forest e2)"
    using frame_syncSubnamespaceParent [OF e2 frame_syncExternalNamespace [OF e1]] f by simp
  have fin: "env_forest (if b then OnChangeNamespace ns e else e) = env_forest e" for b e by (simp add: OnChangeNamespace_def)
  obtain e3 nsInst4 e4 nsInst5 e5 inst6 e6 where s: "syncParent now c inst1 ns e2 = Some e3"
      "syncLabels now c inst1 nsInst ns (markExisting ns e3) = Some (nsInst4, e4)"
      "syncAnnotations now c inst1 nsInst4 ns e4 = Some (nsInst5, e5)"
      "syncConditions (inst1\<lparr>hc_children := ChildNames (snd (UpdateAllowCascadingDeletion ns (hc_allowCascadingDeletion inst1)
          (env_forest (syncAnchors ns anms e5)))) ns\<rparr>) ns (IsHalted f1 (Some ns))
        (on_forest (\<lambda>f. snd (UpdateAllowCascadingDeletion ns (hc_allowCascadingDeletion inst1) f)) (syncAnchors ns anms e5)) = Some (inst6, e6)"
      "env_forest e' = env_forest e6"
    using assms(1) g e1 e2 by (auto simp: syncWithForest_def Let_def bind_eq_Some_conv fin)
  show ?thesis unfolding s(5)
    by (rule frame_syncConditions [OF s(4)])
      (auto intro!: frame_marks frame_syncAnnotations [OF s(3)] frame_syncLabels [OF s(2)] frame_syncParent [OF s(1) 2])
qed

lemma frame_Reconcile_hc:
  assumes "Reconcile_hc now c rd wr nm e = Some (ws, err, e')" "P (env_forest e)"
  shows "P (env_forest e')"
  using assms
  by (auto simp: Reconcile_hc_def reconcile_hc_def bind_eq_Some_conv Let_def case_prod_unfold split: if_splits read.splits sum.splits
      elim!: frame_syncWithForest frame_onMissingNamespace)

text \<open>The quota code.\<close>

lemma frame_limits_writes: "P f \<Longrightarrow> P (RemoveLimits n nm f)" "P f \<Longrightarrow> P (snd (UpdateLimits n nm l f))"
  by (auto simp: RemoveLimits_def UpdateLimits_def intro!: frame_modify)

lemma frame_syncLimits: "syncLimits inst f = Some (b, g) \<Longrightarrow> P f \<Longrightarrow> P g"
  using frame_limits_writes(2) [of _ _ "hrq_name inst" "hrq_spec_hard inst"]
  by (auto simp: syncLimits_def bind_eq_Some_conv split: if_splits dest!: frame_GetP intro!: frame_limits_writes)
    (metis snd_conv)

lemma frame_syncWithForest_hrq: "syncWithForest_hrq qstr inst f = Some (b, b', inst', g) \<Longrightarrow> P f \<Longrightarrow> P g"
  by (auto simp: syncWithForest_hrq_def syncUsages_def bind_eq_Some_conv Let_def split: if_splits
      dest!: frame_syncLimits frame_GetP)

lemma frame_enqueue_rqs:
  "P (qe_forest e) \<Longrightarrow>
   P (qe_forest (fold (\<lambda>nm e. (let (a, f) = Get nm (qe_forest e) in OnChangeNamespace_rq a (e\<lparr>qe_forest := f\<rparr>))) nms e))"
  by (induction nms arbitrary: e) (simp_all add: OnChangeNamespace_rq_def Let_def case_prod_unfold frame_Get)

lemma frame_EnqueueSubtree:
  assumes "EnqueueSubtree nm e = Some e'" "P (qe_forest e)"
  shows "P (qe_forest e')"
proof -
  obtain ns f where g: "GetP nm (qe_forest e) = Some (ns, f)"
    using assms(1) by (cases "GetP nm (qe_forest e)") (auto simp: EnqueueSubtree_def)
  obtain ds f' where d: "DescendantNames ns f = Some (ds, f')"
    using assms(1) g by (cases "DescendantNames ns f") (auto simp: EnqueueSubtree_def)
  have "P (qe_forest (e\<lparr>qe_forest := f'\<rparr>))" using frame_DescendantNames [OF d frame_GetP [OF g assms(2)]] by simp
  from frame_enqueue_rqs [OF this, of "ds @ [nm]"] show ?thesis using assms(1) g d by (simp add: EnqueueSubtree_def)
qed

lemma frame_Reconcile_hrq:
  assumes "Reconcile_hrq qstr rd wr req e = Some (ws, err, e')" "P (qe_forest e)"
  shows "P (qe_forest e')"
  using assms
  by (auto simp: Reconcile_hrq_def bind_eq_Some_conv Let_def split: read.splits option.splits if_splits
      dest!: frame_syncWithForest_hrq elim!: frame_EnqueueSubtree)

lemma frame_ancestor_hrqs: "ancestor_hrqs nms names f = Some (ns, g) \<Longrightarrow> P f \<Longrightarrow> P g"
  by (induction nms arbitrary: names f) (auto simp: bind_eq_Some_conv dest: frame_GetP)

lemma frame_syncWithForest_rq: "syncWithForest_rq inst e = Some (b, inst', e') \<Longrightarrow> P (qe_forest e) \<Longrightarrow> P (qe_forest e')"
  by (auto simp: syncWithForest_rq_def syncResourceLimits_def bind_eq_Some_conv split: if_splits
      dest!: frame_GetP frame_Limits frame_UseResources frame_ancestor_hrqs)

lemma frame_reportHRQEvent: "reportHRQEvent readable inst err e = Some e' \<Longrightarrow> P (qe_forest e) \<Longrightarrow> P (qe_forest e')"
  by (auto simp: reportHRQEvent_def getAncestorHRQs_def bind_eq_Some_conv case_prod_unfold Let_def
      elim!: frame_ancestor_hrqs intro!: frame_Get)

lemma frame_Reconcile_rq:
  assumes "Reconcile_rq rd wr readable req e = Some (ws, err, e')" "P (qe_forest e)"
  shows "P (qe_forest e')"
  using assms
  by (auto simp: Reconcile_rq_def writeSingleton_def bind_eq_Some_conv Let_def split: sum.splits option.splits if_splits prod.splits
      dest!: frame_syncWithForest_rq frame_reportHRQEvent)

lemma frame_can_use_loop: "can_use_loop qstr inc nms f = Some (err, g) \<Longrightarrow> P f \<Longrightarrow> P g"
proof (induction nms arbitrary: f)
  case (Cons nm nms)
  obtain ns h where h: "GetP nm f = Some (ns, h)" using Cons.prems(1) by (cases "GetP nm f") auto
  have "P h" by (rule frame_GetP [OF h Cons.prems(2)])
  then show ?case using Cons.prems(1) Cons.IH [of h] h
    by (cases "checkLimits (ns_limits (deref h ns)) (AddIfExists inc (ns_used_subtree (deref h ns)))")
      (auto simp: Let_def split: bool.splits)
qed simp

lemma frame_Handle_rqstatus:
  assumes "Handle_rqstatus qstr nm user decoded f = Some (resp, g)" "P f"
  shows "P g"
  using assms
  by (auto simp: Handle_rqstatus_def handle_rqstatus_def TryUseResources_def canUseResources_def bind_eq_Some_conv Let_def
      split: sum.splits option.splits if_splits dest!: frame_GetP frame_can_use_loop frame_UseResources)

lemma frame_rectify_loop: "rectify_loop us nses upd f = Some (upd', g) \<Longrightarrow> P f \<Longrightarrow> P g"
proof (induction nses arbitrary: upd f)
  case (Cons x nses)
  obtain nm ns where x: "x = (nm, ns)" by fastforce
  obtain l h where h: "Limits ns f = Some (l, h)" using Cons.prems(1) x by (cases "Limits ns f") auto
  have "P h" "P (modify ns (\<lambda>n. n\<lparr>ns_used_subtree := u\<rparr>) h)" for u
    using frame_Limits [OF h Cons.prems(2)] by (auto intro: frame_modify)
  then show ?case using Cons.prems(1) Cons.IH h by (auto simp: x Let_def split: if_splits)
qed simp

text \<open>The webhooks and the anchors.\<close>

lemma frame_handle_hc:
  assumes "handle_hc lib kv c srv ui hc f = Some (resp, g)" "P f" "forest_inv f" "sources_ok lib f" "hc_namespace hc \<noteq> ''''"
  shows "P g"
proof -
  obtain a f1 new h r1 r2 where s: "Get (hc_namespace hc) f = (Some a, f1)" "Get (hc_parent hc) f1 = (new, h)"
    "checkForest lib c hc f = (if \<not> Allowed r1 then Some ([], r1, h) else if \<not> Allowed r2 then Some ([], r2, h)
      else Some (getServerChecks c h (ns_parent (deref f1 a)) new, Allow '''', h))"
    using checkForest_steps [OF assms(3-5), of c] by metis
  have "P h" by (rule frame_Get_result [OF s(2) frame_Get_result [OF s(1) assms(2)]])
  then show ?thesis using assms(1,2) by (auto simp: handle_hc_def Let_def s(3) split: if_splits)
qed

lemma frame_conflict_loop: "conflict_loop lib c inst ds acc f = Some (cs, g) \<Longrightarrow> P f \<Longrightarrow> P g"
  by (induction ds arbitrary: acc f) (auto simp: bind_eq_Some_conv split: if_splits dest!: frame_GetP)

lemma frame_hasConflict: "hasConflict lib c inst f = Some (b, cs, g) \<Longrightarrow> P f \<Longrightarrow> P g"
  by (auto simp: hasConflict_def bind_eq_Some_conv split: if_splits dest!: frame_GetP frame_DescendantNames frame_conflict_loop)

lemma frame_external_loop: "external_loop nm nms f = Some (resp, g) \<Longrightarrow> P f \<Longrightarrow> P g"
  by (induction nms arbitrary: f) (auto simp: bind_eq_Some_conv split: if_splits dest!: frame_GetP)

lemma frame_subns_loop: "subns_loop nms f = Some (resp, g) \<Longrightarrow> P f \<Longrightarrow> P g"
  by (induction nms arbitrary: f) (auto simp: bind_eq_Some_conv split: if_splits dest!: frame_GetP)

lemma frame_cannotDeleteSubnamespace: "cannotDeleteSubnamespace req f = Some (resp, g) \<Longrightarrow> P f \<Longrightarrow> P g"
  by (auto simp: cannotDeleteSubnamespace_def bind_eq_Some_conv Let_def split: if_splits dest!: frame_GetP)

lemma frame_handle_namespace:
  assumes "handle_namespace c req f = Some (resp, g)" "P f"
  shows "P g"
proof -
  obtain ns h where h: "Get (nsi_name (nsr_ns req)) f = (ns, h)" by fastforce
  have "P h" by (rule frame_Get_result [OF h assms(2)])
  then show ?thesis using assms(1) h
    by (cases "nsr_op req")
      (auto simp: handle_namespace_def nameExistsInExternalHierarchy_def illegalCascadingDeletion_def bind_eq_Some_conv split: if_splits
        dest!: frame_external_loop frame_cannotDeleteSubnamespace frame_subns_loop)
qed

lemma frame_handle_anchor:
  assumes "handle_anchor kv isDNS c anchor op f = Some (resp, g)" "P f"
  shows "P g"
proof -
  obtain ns h where h: "Get (an_name anchor) f = (ns, h)" by fastforce
  have "P h" by (rule frame_Get_result [OF h assms(2)])
  then show ?thesis using assms(1) h
    by (cases op) (auto simp: handle_anchor_def Let_def bind_eq_Some_conv split: if_splits)
qed

lemma frame_shouldDeleteSubns: "shouldDeleteSubns inst nsInst d f = Some (b, g) \<Longrightarrow> P f \<Longrightarrow> P g"
  by (auto simp: shouldDeleteSubns_def bind_eq_Some_conv split: if_splits SubnamespaceAnchorState.splits dest!: frame_GetP)

lemma frame_onDeleting: "onDeleting rd wr inst snsInst f = Some (ws, err, g) \<Longrightarrow> P f \<Longrightarrow> P g"
  by (auto simp: onDeleting_def bind_eq_Some_conv Let_def case_prod_unfold split: sum.splits dest!: frame_shouldDeleteSubns)

lemma frame_Reconcile_anchor: "Reconcile_anchor c rd wr pnm nm f = Some (ws, err, g) \<Longrightarrow> P f \<Longrightarrow> P g"
  by (auto simp: Reconcile_anchor_def Let_def case_prod_unfold split: read.splits if_splits sum.splits option.splits
      dest!: frame_onDeleting)

end

text \<open>The instance: the sources keep their well-formedness and the type syncers their kinds and modes.\<close>

lemma types_Get [simp]: "f_types (snd (Get nm f)) = f_types f"
  by (cases nm f rule: Get_cases) (auto simp: alloc_def)

lemma types_valid_frame:
  "types_valid (snd (Get nm f)) = types_valid f" "types_valid (modify a u f) = types_valid f"
  "types_valid (f\<lparr>f_namespaces := m\<rparr>) = types_valid f"
  by (simp_all add: types_valid_def types_ok_def modify_def)

interpretation kept: object_frame "\<lambda>f. sources_ok lib f \<and> types_valid f" for lib
proof unfold_locales
  fix f nm assume "sources_ok lib f \<and> types_valid f"
  then show "sources_ok lib (snd (Get nm f)) \<and> types_valid (snd (Get nm f))"
    by (simp add: sources_ok_Get types_valid_frame)
next
  fix f a and u :: "Namespace \<Rightarrow> Namespace"
  assume "sources_ok lib f \<and> types_valid f" "\<And>n. ns_sourceObjects (u n) = ns_sourceObjects n \<and> ns_name (u n) = ns_name n"
  then show "sources_ok lib (modify a u f) \<and> types_valid (modify a u f)"
    by (simp add: sources_ok_modify types_valid_frame)
next
  fix f m assume "sources_ok lib f \<and> types_valid f"
  then show "sources_ok lib (f\<lparr>f_namespaces := m\<rparr>) \<and> types_valid (f\<lparr>f_namespaces := m\<rparr>)"
    by (simp add: types_valid_frame heap_all_def)
qed

end
