(* ===== verification/Service.thy ===== *)
theory Service
  imports Object_Frame
begin

text \<open>
  Every handler of the manager keeps the invariant of the shared forest and returns.

  The reconcilers and the webhooks share one forest. The invariant \<open>hnc_inv\<close> is what all of them rely
  on: a well-formed forest whose parents exist and whose cycles are halted, well-formed source objects, and at most
  one type syncer per kind. This theory has one lemma for each handler: from a state with the invariant, and for
  a request as the API server sends it, the handler does not panic, ends, and leaves a state with the invariant.
\<close>

definition hnc_inv :: "SelectorLib \<Rightarrow> Forest \<Rightarrow> bool" where
  "hnc_inv lib f \<longleftrightarrow> forest_inv f \<and> sources_ok lib f \<and> types_valid f"

lemma hnc_invI: "forest_inv g \<Longrightarrow> sources_ok lib g \<and> types_valid g \<Longrightarrow> hnc_inv lib g"
  by (simp add: hnc_inv_def)

lemma hnc_invD:
  assumes "hnc_inv lib f"
  shows "forest_inv f" "sources_ok lib f" "types_valid f" "wf_forest f" "sources_ok lib f \<and> types_valid f"
  using assms by (simp_all add: hnc_inv_def forest_inv_def)

lemma NewForest_inv: "hnc_inv lib NewForest"
  by (simp add: hnc_inv_def forest_inv_def NewForest_def wf_forest_def parents_exist_def cycles_halted_def types_valid_def
      types_ok_def heap_all_def registered_def)

section \<open>The hierarchy and the anchors\<close>

lemma Reconcile_hc_served:
  assumes "hnc_inv lib (env_forest e)" "reads_ns nm rd"
  shows "\<exists>ws err e'. Reconcile_hc now c rd wr nm e = Some (ws, err, e') \<and> hnc_inv lib (env_forest e')"
  using Reconcile_hc_ok [OF hnc_invD(1) [OF assms(1)] assms(2), of now c wr] kept.frame_Reconcile_hc [OF _ hnc_invD(5) [OF assms(1)]]
  by (metis hnc_invI)

definition reads_anchor :: "string \<Rightarrow> string \<Rightarrow> AnchorReads \<Rightarrow> bool" where
  "reads_anchor pnm nm rd = (nm \<noteq> '''' \<and>
     (case ard_anchor rd of Found inst \<Rightarrow> an_name inst = nm \<and> an_namespace inst = pnm | _ \<Rightarrow> True))"

lemma Reconcile_anchor_served:
  assumes "hnc_inv lib f" "reads_anchor pnm nm rd"
  shows "\<exists>ws err g. Reconcile_anchor c rd wr pnm nm f = Some (ws, err, g) \<and> hnc_inv lib g"
proof -
  have "\<exists>ws err g. Reconcile_anchor c rd wr pnm nm f = Some (ws, err, g) \<and> forest_inv g"
  proof (cases "ard_anchor rd")
    case (Found inst)
    then show ?thesis
      using Reconcile_anchor_performs [OF hnc_invD(1) [OF assms(1)] _ Found] assms(2) by (fastforce simp: reads_anchor_def)
  qed (use hnc_invD(1) [OF assms(1)] in \<open>simp_all add: Reconcile_anchor_def\<close>)
  then show ?thesis using kept.frame_Reconcile_anchor [OF _ hnc_invD(5) [OF assms(1)]] by (metis hnc_invI)
qed

lemma handle_hc_served:
  assumes "hnc_inv lib f" "hc_namespace hc \<noteq> ''''"
  shows "\<exists>resp g. handle_hc lib kv c srv ui hc f = Some (resp, g) \<and> hnc_inv lib g"
  using handle_hc_ok [OF hnc_invD(1,2) [OF assms(1)] assms(2), of kv c srv ui]
    kept.frame_handle_hc [OF _ hnc_invD(5,1,2) [OF assms(1)] assms(2)] by (metis hnc_invI)

lemma handle_anchor_served:
  assumes "hnc_inv lib f" "an_name anchor \<noteq> ''''"
  shows "\<exists>resp g. handle_anchor kv isDNS c anchor op f = Some (resp, g) \<and> hnc_inv lib g"
proof -
  obtain a h where h: "Get (an_name anchor) f = (Some a, h)" "forest_inv h"
    using GetP_inv [OF hnc_invD(1) [OF assms(1)] assms(2)] by (auto simp: GetP_def split: prod.splits option.splits)
  then have "\<exists>resp. handle_anchor kv isDNS c anchor op f = Some (resp, h)"
    by (cases op) (simp_all add: handle_anchor_def Let_def)
  then show ?thesis using h(2) kept.frame_handle_anchor [OF _ hnc_invD(5) [OF assms(1)]] by (metis hnc_invI)
qed

lemma handle_namespace_served:
  assumes "hnc_inv lib f" "nsi_name (nsr_ns req) \<noteq> ''''" "distinct_keys (labels_of (nsr_ns req))"
    and "\<not> Contains (nsi_name (nsr_ns req)) LabelTreeDepthSuffix"
  shows "\<exists>resp g. handle_namespace c req f = Some (resp, g) \<and> hnc_inv lib g"
  using handle_namespace_iff [OF hnc_invD(1) [OF assms(1)] assms(2,3), of c] assms(4)
    kept.frame_handle_namespace [OF _ hnc_invD(5) [OF assms(1)]] by (metis hnc_invI)

section \<open>Objects and the configuration\<close>

lemma GetP_again:
  assumes "forest_inv f" "nm \<noteq> ''''"
  shows "\<exists>a g. GetP nm f = Some (a, g) \<and> GetP nm g = Some (a, g) \<and> forest_inv g \<and> registered g a \<and> nm_of g a = nm \<and>
    f_types g = f_types f"
proof -
  obtain a g where g: "GetP nm f = Some (a, g)" "forest_inv g" "registered g a" "nm_of g a = nm" using GetP_inv [OF assms] by blast
  have "snd (Get nm f) = g" using g(1) by (auto simp: GetP_def split: prod.splits option.splits)
  then have "f_types g = f_types f" using types_Get [of nm f] by simp
  then show ?thesis using g GetP_registered [of g a] by (auto simp: forest_inv_def)
qed

definition reads_obj :: "SelectorLib \<Rightarrow> NamespacedName \<Rightarrow> Unstructured read \<Rightarrow> bool" where
  "reads_obj lib req rd \<longleftrightarrow> nnm_namespace req \<noteq> '''' \<and> nnm_name req \<noteq> '''' \<and>
     (case rd of Found i \<Rightarrow> obj_namespace i = nnm_namespace req \<and> obj_name i = nnm_name req \<and> GetTreeSelector lib i \<noteq> None
      | _ \<Rightarrow> True)"

lemma reads_obj_read:
  assumes "reads_obj lib req rd"
  shows "obj_namespace (read_obj f r req rd) = nnm_namespace req" "obj_name (read_obj f r req rd) = nnm_name req"
    "GetTreeSelector lib (read_obj f r req rd) \<noteq> None" "nnm_namespace req \<noteq> ''''" "nnm_name req \<noteq> ''''"
proof -
  have "GetTreeSelector lib (source_ref gvk nnm) = Some (Inr None)" for gvk nnm
    by (simp add: GetTreeSelector_def GetTreeSelectorAnnotation_def annotation_def source_ref_def get_str_def)
  then show "obj_namespace (read_obj f r req rd) = nnm_namespace req" "obj_name (read_obj f r req rd) = nnm_name req"
      "GetTreeSelector lib (read_obj f r req rd) \<noteq> None" "nnm_namespace req \<noteq> ''''" "nnm_name req \<noteq> ''''"
    using assms by (auto simp: reads_obj_def read_obj_def source_ref_def split: read.splits)
qed

lemma obj_frame_inv:
  assumes "obj_frame lib a f g" "hnc_inv lib f"
  shows "hnc_inv lib g"
proof -
  have t: "map (\<lambda>t. (ts_GVK t, ts_Mode t)) (f_types g) = map (\<lambda>t. (ts_GVK t, ts_Mode t)) (f_types f)"
    using assms(1) by (simp add: obj_frame_def same_types_def)
  then have "map fst (map (\<lambda>t. (ts_GVK t, ts_Mode t)) (f_types g)) = map fst (map (\<lambda>t. (ts_GVK t, ts_Mode t)) (f_types f))"
    "list_all documented (map snd (map (\<lambda>t. (ts_GVK t, ts_Mode t)) (f_types g))) =
     list_all documented (map snd (map (\<lambda>t. (ts_GVK t, ts_Mode t)) (f_types f)))" by simp_all
  then have "types_valid g = types_valid f"
    by (simp add: types_valid_def types_ok_def comp_def list_all_iff)
  then show ?thesis using assms quiet_inv [OF calm_quiet] by (auto simp: obj_frame_def hnc_inv_def)
qed

lemma Reconcile_obj_served:
  assumes "hnc_inv lib (oe_forest e)" "reads_obj lib req rd" "r < length (f_types (oe_forest e))"
  shows "\<exists>ws err e'. Reconcile_obj lib c wr r req rd e = Some (ws, err, e') \<and> hnc_inv lib (oe_forest e')"
proof (cases "\<not> IsManagedNamespace c (nnm_namespace req) \<or> GetMode (oe_forest e) r = Ignore \<or> (\<exists>err. rd = ReadError err) \<or>
    \<not> IsZero (obj_deletionTimestamp (read_obj (oe_forest e) r req rd))")
  case True
  then show ?thesis using assms(1)
    by (cases rd) (auto simp: Reconcile_obj_def syncWithForest_obj_def skipNamespace_def operate_def read_obj_def source_ref_def)
next
  case False
  obtain a g where g: "GetP (nnm_namespace req) (oe_forest e) = Some (a, g)" "GetP (nnm_namespace req) g = Some (a, g)" "forest_inv g"
      "registered g a" "nm_of g a = nnm_namespace req" "f_types g = f_types (oe_forest e)"
    using GetP_again [OF hnc_invD(1) [OF assms(1)] reads_obj_read(4) [OF assms(2)]] by blast
  let ?e = "e\<lparr>oe_forest := g\<rparr>"
  have inv: "hnc_inv lib g" using g(3) kept.frame_GetP [OF g(1) hnc_invD(5) [OF assms(1)]] by (rule hnc_invI)
  have ty: "GetMode g r = GetMode (oe_forest e) r" "GetGVK g r = GetGVK (oe_forest e) r"
    using g(6) by (simp_all add: GetMode_def GetGVK_def ts_deref_def)
  have rd: "read_obj g r req rd = read_obj (oe_forest e) r req rd" by (cases rd) (simp_all add: read_obj_def ty)
  have skip: "skipNamespace (read_obj (oe_forest e) r req rd) e = skipNamespace (read_obj (oe_forest e) r req rd) ?e"
    using g(1,2) reads_obj_read(1) [OF assms(2)] False by (simp add: skipNamespace_def)
  have "Reconcile_obj lib c wr r req rd e = Reconcile_obj lib c wr r req rd ?e"
    using False skip by (cases rd) (auto simp: Reconcile_obj_def syncWithForest_obj_def ty read_obj_def)
  moreover have "obj_ready lib r g a (read_obj g r req rd)"
    using inv g(4,5,6) assms(3) reads_obj_read [OF assms(2)] by (simp add: obj_ready_def hnc_inv_def types_valid_def)
  ultimately show ?thesis
    using Reconcile_obj_eq [of c req ?e r rd lib a wr] False ty obj_frame_inv [OF _ inv] by (fastforce)
qed

lemma hasConflict_served:
  assumes "hnc_inv lib f" "GetTreeSelector lib inst \<noteq> None"
  shows "\<exists>b cs g. hasConflict lib c inst f = Some (b, cs, g) \<and> hnc_inv lib g"
proof (cases "obj_namespace inst = ''''")
  case True
  then show ?thesis using assms(1) by (auto simp: hasConflict_def)
next
  case False
  obtain a g where g: "GetP (obj_namespace inst) f = Some (a, g)" "GetP (obj_namespace inst) g = Some (a, g)" "forest_inv g"
      "registered g a" "nm_of g a = obj_namespace inst"
    using GetP_again [OF hnc_invD(1) [OF assms(1)] False] by blast
  then have "hasConflict lib c inst f = hasConflict lib c inst g" using False by (simp add: hasConflict_def)
  moreover have "hnc_inv lib g" using g(3) kept.frame_GetP [OF g(1) hnc_invD(5) [OF assms(1)]] by (rule hnc_invI)
  ultimately show ?thesis using hasConflict_eq [OF g(3,4) g(5) [symmetric] assms(2), of c] by auto
qed

lemma handle_obj_served:
  assumes "hnc_inv lib f" "GetTreeSelector lib (req_obj req) \<noteq> None"
  shows "\<exists>resp g. handle_obj lib c rd req f = Some (resp, g) \<and> hnc_inv lib g"
proof (cases "hasPropagatedLabel (req_obj req) \<or> hasPropagatedLabel (req_oldObj req)")
  case True
  then show ?thesis using assms(1) by (simp add: handle_obj_inherited)
next
  case False
  have "validateTreeSelectorChange lib (req_obj req) (req_oldObj req) \<noteq> None"
    using assms(2) by (auto simp: validateTreeSelectorChange_def)
  then show ?thesis
    using handle_obj_source [of req lib c rd f] False hasConflict_served [OF assms, of c] assms(1)
    by (fastforce split: if_splits)
qed

lemma checkForest_loop_served:
  "wf_forest f \<Longrightarrow> sources_ok lib f \<Longrightarrow> \<exists>resp. checkForest_loop lib c gvks f = Some (resp, f)"
proof (induction gvks)
  case (Cons x gvks)
  obtain cs where "checkConflictsForGVK lib c (fst x) (snd x) f = Some (cs, f)"
    using checkConflictsForGVK_exact [OF Cons.prems] by blast
  then show ?case using Cons by (cases x) auto
qed simp

lemma Handle_config_served:
  assumes "hnc_inv lib f"
  shows "\<exists>resp. Handle_config lib c m groups op nm decoded f = Some (resp, f)"
  using checkForest_loop_served [OF hnc_invD(4,2) [OF assms]]
  by (auto simp: Handle_config_def handle_config_def checkForest_config_def split: sum.split prod.split)

lemma Reconcile_config_served:
  assumes "hnc_inv lib (oe_forest (ce_obj e))"
  shows "\<exists>ws err e'. Reconcile_config now m lst st rd wr e = Some (ws, err, e') \<and> hnc_inv lib (oe_forest (ce_obj e'))"
proof -
  obtain ws err e' where e': "Reconcile_config now m lst st rd wr e = Some (ws, err, e')" "types_valid (oe_forest (ce_obj e'))"
      "only_types (oe_forest (ce_obj e)) (oe_forest (ce_obj e'))"
    using Reconcile_config_effect [OF hnc_invD(1,3) [OF assms]] by blast
  moreover have "sources_ok lib (oe_forest (ce_obj e'))"
    using hnc_invD(2) [OF assms] e'(3) unfolding only_types_def by (metis sources_ok_types)
  ultimately show ?thesis using only_types_inv [OF e'(3) hnc_invD(1) [OF assms]] by (auto simp: hnc_inv_def)
qed

section \<open>Quotas\<close>

lemma usage_only_inv:
  assumes "usage_only f g" "forest_inv f"
  shows "forest_inv g"
proof (rule quiet_inv [OF _ assms(2)])
  show "quiet f g"
    using usage_only_shape [OF assms(1)] usage_only_exists [OF assms(1)] usage_only_field [OF assms(1), of ns_conditions]
    by (simp add: quiet_def IsHalted_def)
qed

lemma limits_writes_inv:
  "forest_inv f \<Longrightarrow> forest_inv (RemoveLimits n nm f)" "forest_inv f \<Longrightarrow> forest_inv (snd (UpdateLimits n nm l f))"
  by (auto simp: RemoveLimits_def UpdateLimits_def intro!: quiet_inv [OF quiet_modify])

lemma syncLimits_returns:
  assumes "forest_inv f" "hrq_namespace inst \<noteq> ''''"
  shows "\<exists>b g. syncLimits inst f = Some (b, g) \<and> forest_inv g"
proof -
  obtain a g where g: "GetP (hrq_namespace inst) f = Some (a, g)" "forest_inv g" using GetP_inv [OF assms] by blast
  then show ?thesis
    using limits_writes_inv [OF g(2)] by (cases "UpdateLimits a (hrq_name inst) (hrq_spec_hard inst) g")
      (auto simp: syncLimits_def, metis snd_conv)
qed

lemma syncUsages_returns:
  assumes "forest_inv f" "hrq_namespace inst \<noteq> ''''"
  shows "\<exists>inst' g. syncUsages qstr inst f = Some (inst', g) \<and> forest_inv g \<and> hrq_namespace inst' = hrq_namespace inst"
proof -
  obtain a g where "GetP (hrq_namespace inst) f = Some (a, g)" "forest_inv g" using GetP_inv [OF assms] by blast
  then show ?thesis using assms(1) by (simp add: syncUsages_def Let_def)
qed

lemma syncWithForest_hrq_returns:
  assumes "forest_inv f" "hrq_namespace inst \<noteq> ''''"
  shows "\<exists>b b' inst' g. syncWithForest_hrq qstr inst f = Some (b, b', inst', g) \<and> forest_inv g \<and>
    hrq_namespace inst' = hrq_namespace inst"
proof -
  let ?i = "if Equals (hrq_spec_hard inst) (hrq_status_hard inst) then inst else inst\<lparr>hrq_status_hard := hrq_spec_hard inst\<rparr>"
  have ns: "hrq_namespace ?i = hrq_namespace inst" by simp
  obtain b g where g: "syncLimits ?i f = Some (b, g)" "forest_inv g"
    using syncLimits_returns [OF assms(1), of ?i] assms(2) ns by metis
  obtain inst' h where "syncUsages qstr ?i g = Some (inst', h)" "forest_inv h" "hrq_namespace inst' = hrq_namespace ?i"
    using syncUsages_returns [OF g(2), of ?i] assms(2) ns by metis
  then show ?thesis using g(1) ns by (auto simp: syncWithForest_hrq_def Let_def split: if_splits)
qed

lemma EnqueueSubtree_returns:
  assumes "forest_inv (qe_forest e)" "nm \<noteq> ''''"
  shows "\<exists>e'. EnqueueSubtree nm e = Some e' \<and> forest_inv (qe_forest e')"
proof -
  obtain a g where g: "GetP nm (qe_forest e) = Some (a, g)" "forest_inv g" "registered g a" using GetP_inv [OF assms] by blast
  obtain ps where ps: "DescendantNames a g = Some (map (nm_of g) ps, g)"
    using DescendantNames_ptrs [of g a] g by (auto simp: forest_inv_def)
  have "forest_inv (qe_forest e) \<Longrightarrow> forest_inv (qe_forest
      (fold (\<lambda>nm e. (let (a, f) = Get nm (qe_forest e) in OnChangeNamespace_rq a (e\<lparr>qe_forest := f\<rparr>))) nms e))" for nms e
    by (induction nms arbitrary: e) (simp_all add: OnChangeNamespace_rq_def Let_def case_prod_unfold Get_inv)
  from this [of "e\<lparr>qe_forest := g\<rparr>" "map (nm_of g) ps @ [nm]"] show ?thesis using g(1,2) ps by (simp add: EnqueueSubtree_def)
qed

definition reads_hrq :: "NamespacedName \<Rightarrow> HierarchicalResourceQuota read \<Rightarrow> bool" where
  "reads_hrq req rd \<longleftrightarrow> nnm_namespace req \<noteq> '''' \<and> (case rd of Found i \<Rightarrow> hrq_namespace i \<noteq> '''' | _ \<Rightarrow> True)"

lemma Reconcile_hrq_served:
  assumes "hnc_inv lib (qe_forest e)" "reads_hrq req rd"
  shows "\<exists>ws err e'. Reconcile_hrq qstr rd wr req e = Some (ws, err, e') \<and> hnc_inv lib (qe_forest e')"
proof -
  have "\<exists>ws err e'. Reconcile_hrq qstr rd wr req e = Some (ws, err, e') \<and> forest_inv (qe_forest e')"
  proof (cases "\<exists>err. rd = ReadError err")
    case True
    then show ?thesis using hnc_invD(1) [OF assms(1)] by (auto simp: Reconcile_hrq_def)
  next
    case False
    define i0 where "i0 = (case rd of Found i \<Rightarrow> i | _ \<Rightarrow> blank_hrq)"
    define inst where "inst = (if isDeleted i0 then i0\<lparr>hrq_name := nnm_name req, hrq_namespace := nnm_namespace req\<rparr> else i0)"
    have "hrq_namespace inst \<noteq> ''''"
      using assms(2) by (auto simp: inst_def i0_def reads_hrq_def isDeleted_def blank_hrq_def split: read.splits)
    then obtain b b' i1 g where s: "syncWithForest_hrq qstr inst (qe_forest e) = Some (b, b', i1, g)" "forest_inv g"
        "hrq_namespace i1 \<noteq> ''''"
      using syncWithForest_hrq_returns [OF hnc_invD(1) [OF assms(1)], of inst] by metis
    obtain e2 where e2: "EnqueueSubtree (hrq_namespace i1) (e\<lparr>qe_forest := g\<rparr>) = Some e2" "forest_inv (qe_forest e2)"
      using EnqueueSubtree_returns [of "e\<lparr>qe_forest := g\<rparr>"] s(2,3) by auto
    let ?ws = "if \<not> isDeleted i1 \<and> b then [i1] else []"
    have "Reconcile_hrq qstr rd wr req e = (case (if ?ws = [] then None else wr i1) of
        Some err \<Rightarrow> Some (?ws, Some err, e\<lparr>qe_forest := g\<rparr>)
      | None \<Rightarrow> if b' then Some (?ws, None, e2) else Some (?ws, None, e\<lparr>qe_forest := g\<rparr>))"
      using False s(1) e2(1) by (cases rd; cases "isDeleted i0")
        (simp_all add: Reconcile_hrq_def Let_def inst_def i0_def split: option.split)
    then show ?thesis using s(2) e2(2) by (simp split: option.split)
  qed
  then show ?thesis using kept.frame_Reconcile_hrq [OF _ hnc_invD(5) [OF assms(1)]] by (metis hnc_invI)
qed

lemma ancestor_hrqs_eq:
  "wf_forest f \<Longrightarrow> (\<And>p. p \<in> set ps \<Longrightarrow> registered f p) \<Longrightarrow> \<exists>l. ancestor_hrqs (map (nm_of f) ps) names f = Some (l, f)"
  by (induction ps arbitrary: names) (simp_all add: GetP_registered)

lemma ancestor_hrqs_returns:
  assumes "wf_forest f" "\<And>b. a = Some b \<Longrightarrow> registered f b"
  shows "\<exists>l. ancestor_hrqs (AncestryNames f a) names f = Some (l, f)"
proof (cases a)
  case (Some b)
  show ?thesis unfolding Some AncestryNames_ptrs rev_map
    by (rule ancestor_hrqs_eq [OF assms(1)]) (use registered_ancestry [OF assms(1) assms(2) [OF Some]] in auto)
qed simp

lemma syncWithForest_rq_returns:
  assumes "forest_inv (qe_forest e)" "rq_namespace inst \<noteq> ''''"
  shows "\<exists>b inst' e'. syncWithForest_rq inst e = Some (b, inst', e') \<and> forest_inv (qe_forest e') \<and> rq_namespace inst' \<noteq> ''''"
proof -
  obtain a g where g: "GetP (rq_namespace inst) (qe_forest e) = Some (a, g)" "forest_inv g" "registered g a"
    using GetP_inv [OF assms] by blast
  have wf: "wf_forest g" using g(2) by (simp add: forest_inv_def)
  define i1 where "i1 = (if Equals (limits_of g a) (nil_map (rq_spec_hard inst)) then inst else inst\<lparr>rq_spec_hard := Some (limits_of g a)\<rparr>)"
  have i1: "syncResourceLimits a inst g = Some (\<not> Equals (limits_of g a) (nil_map (rq_spec_hard inst)), i1, g)" "rq_namespace i1 \<noteq> ''''"
    using assms(2) by (simp_all add: syncResourceLimits_def Limits_eq [OF wf g(3)] i1_def)
  obtain h where h: "UseResources a (rq_status_used i1) g = Some h" "usage_only g h"
    using UseResources_total [OF wf g(3)] by blast
  have inv: "forest_inv h" by (rule usage_only_inv [OF h(2) g(2)])
  have "registered h a" "wf_forest h" using g(3) wf by (simp_all add: shape_simps [OF usage_only_shape [OF h(2)]])
  then obtain l where "ancestor_hrqs (AncestryNames h (Some a)) [] h = Some (l, h)" using ancestor_hrqs_returns [of h "Some a"] by auto
  then show ?thesis using g(1) i1 h(1) inv by (simp add: syncWithForest_rq_def)
qed

lemma reportHRQEvent_returns:
  assumes "forest_inv (qe_forest e)"
  shows "\<exists>e'. reportHRQEvent readable inst err e = Some e' \<and> forest_inv (qe_forest e')"
proof -
  obtain a g where g: "Get (rq_namespace inst) (qe_forest e) = (a, g)" by fastforce
  have inv: "forest_inv g" using Get_inv [OF assms, of "rq_namespace inst"] g by simp
  have "wf_forest g" "wf_forest (qe_forest e)" using inv assms by (simp_all add: forest_inv_def)
  moreover have "registered g b" if "a = Some b" for b
    using Get_registered_result(1) [OF \<open>wf_forest (qe_forest e)\<close>, of "rq_namespace inst" b] g that by simp
  ultimately obtain l where "ancestor_hrqs (AncestryNames g a) [] g = Some (l, g)" using ancestor_hrqs_returns by blast
  then show ?thesis using inv by (simp add: reportHRQEvent_def getAncestorHRQs_def g)
qed

lemma writeSingleton_returns:
  assumes "forest_inv (qe_forest e)"
  shows "\<exists>ws err e'. writeSingleton wr readable inst e = Some (ws, err, e') \<and> forest_inv (qe_forest e')"
proof -
  have rep: "\<exists>e'. reportHRQEvent readable i err e = Some e' \<and> forest_inv (qe_forest e')" for i err
    by (rule reportHRQEvent_returns [OF assms])
  define i1 where "i1 = inst\<lparr>rq_labels := Some (AList.update HRQLabelCleanup ''true'' (nil_map (rq_labels inst))),
     rq_annotations := Some (AList.update NonPropagateAnnotation ''true'' (nil_map (rq_annotations inst)))\<rparr>"
  show ?thesis
  proof (cases "IsZero (rq_creationTimestamp inst)")
    case True
    then show ?thesis unfolding writeSingleton_def Let_def i1_def [symmetric]
      using assms rep [of i1] by (cases "wr (CreateRQ i1)") (simp_all, metis bind.bind_lunit)
  next
    case False
    then show ?thesis unfolding writeSingleton_def
      using assms rep [of inst] by (cases "wr (UpdateRQ inst)") (simp_all, metis bind.bind_lunit)
  qed
qed

definition reads_rq :: "NamespacedName \<Rightarrow> ResourceQuota read \<Rightarrow> bool" where
  "reads_rq req rd \<longleftrightarrow> nnm_namespace req \<noteq> '''' \<and> (case rd of Found i \<Rightarrow> rq_namespace i \<noteq> '''' | _ \<Rightarrow> True)"

lemma Reconcile_rq_served:
  assumes "hnc_inv lib (qe_forest e)" "reads_rq req rd"
  shows "\<exists>ws err e'. Reconcile_rq rd wr readable req e = Some (ws, err, e') \<and> hnc_inv lib (qe_forest e')"
proof -
  note inv = hnc_invD(1) [OF assms(1)]
  have "\<exists>ws err e'. Reconcile_rq rd wr readable req e = Some (ws, err, e') \<and> forest_inv (qe_forest e')"
  proof (cases "nnm_name req \<noteq> ResourceQuotaSingleton \<or> (\<exists>err. getSingleton_rq (nnm_namespace req) rd = Inl err)")
    case True
    then show ?thesis using inv by (auto simp: Reconcile_rq_def)
  next
    case False
    then obtain inst where inst: "getSingleton_rq (nnm_namespace req) rd = Inr inst" by (cases "getSingleton_rq (nnm_namespace req) rd") auto
    then have "rq_namespace inst \<noteq> ''''" using assms(2) by (auto simp: getSingleton_rq_def reads_rq_def split: read.splits)
    then obtain b i1 e1 where s: "syncWithForest_rq inst e = Some (b, i1, e1)" "forest_inv (qe_forest e1)"
      using syncWithForest_rq_returns [OF inv] by blast
    then show ?thesis using False inst writeSingleton_returns [OF s(2), of wr readable i1]
      by (auto simp: Reconcile_rq_def split: prod.split)
  qed
  then show ?thesis using kept.frame_Reconcile_rq [OF _ hnc_invD(5) [OF assms(1)]] by (metis hnc_invI)
qed

lemma TryUseResources_returns:
  assumes "forest_inv f" "registered f n"
  shows "\<exists>err g. TryUseResources qstr n u f = Some (err, g) \<and> forest_inv g"
proof -
  have wf: "wf_forest f" using assms(1) by (simp add: forest_inv_def)
  have "\<exists>err. can_use_loop qstr inc (AncestryNames f (Some n)) f = Some (err, f)" for inc
    using can_use_loop_ok [OF wf, of "rev (ancestry_ptrs f (Some n) {})" qstr inc] registered_ancestry [OF wf assms(2)]
    by (auto simp: AncestryNames_ptrs rev_map)
  then obtain err where "canUseResources qstr n u f = Some (err, f)" unfolding canUseResources_def Let_def by blast
  moreover obtain g where "UseResources n u f = Some g" "usage_only f g" using UseResources_total [OF wf assms(2)] by blast
  ultimately show ?thesis using assms(1) usage_only_inv by (cases err) (auto simp: TryUseResources_def)
qed

lemma Handle_rqstatus_served:
  assumes "hnc_inv lib f" "\<forall>inst. decoded = Inr inst \<longrightarrow> rq_namespace inst \<noteq> ''''"
  shows "\<exists>resp g. Handle_rqstatus qstr nm user decoded f = Some (resp, g) \<and> hnc_inv lib g"
proof -
  have "\<exists>resp g. handle_rqstatus qstr inst f = Some (resp, g) \<and> forest_inv g" if d: "decoded = Inr inst" for inst
  proof -
    obtain a g where g: "GetP (rq_namespace inst) f = Some (a, g)" "forest_inv g" "registered g a"
      using GetP_inv [OF hnc_invD(1) [OF assms(1)] assms(2) [rule_format, OF d]] by blast
    obtain err h where "TryUseResources qstr a (rq_status_used inst) g = Some (err, h)" "forest_inv h"
      using TryUseResources_returns [OF g(2,3)] by blast
    then show ?thesis using g(1) by (simp add: handle_rqstatus_def)
  qed
  then have "\<exists>resp g. Handle_rqstatus qstr nm user decoded f = Some (resp, g) \<and> forest_inv g"
    using hnc_invD(1) [OF assms(1)] unfolding Handle_rqstatus_def by (cases decoded) simp_all
  then show ?thesis using kept.frame_Handle_rqstatus [OF _ hnc_invD(5) [OF assms(1)]] by (metis hnc_invI)
qed

end
