(* ===== verification/HNC_Manager.thy ===== *)
theory HNC_Manager
  imports Service
begin

text \<open>
  The manager: the reconcilers and the webhooks around one shared forest (\<^verbatim>\<open>internal/setup\<close>).

  \<^verbatim>\<open>setup.Create\<close> gives every reconciler and every webhook the same forest. Each handler takes
  the lock of the forest, so the manager runs them one after the other, in an order that the API
  server and the work queues choose. A request carries the key the handler runs on together with the answers of the API server
  during that run; \<open>serve\<close> runs the handler. The states that a sequence of requests can
  reach from the empty forest are \<open>reachable\<close>.
\<close>

section \<open>The state\<close>

text \<open>
  The forest, and what the handlers leave for each other: the work queues, the namespaces for which
  \<^verbatim>\<open>Forest.OnChangeNamespace\<close> was called, the events, and the two maps of the configuration reconciler.
\<close>

record Manager =
  mgr_forest :: Forest
  mgr_affected :: "string list"
  mgr_changed :: "nsptr list"
  mgr_objects :: "Unstructured list"
  mgr_objEvents :: "ObjEvent list"
  mgr_rqs :: "string list"
  mgr_hrqs :: "NamespacedName list"
  mgr_quotaEvents :: "(NamespacedName \<times> string) list"
  mgr_activeGVKMode :: "(GroupResource, GroupVersionKind \<times> SynchronizationMode) gomap"
  mgr_activeGR :: "(GroupVersionKind, GroupResource) gomap"


definition hc_env :: "Manager \<Rightarrow> HCEnv" where
  "hc_env m = \<lparr>env_forest = mgr_forest m, env_affected = mgr_affected m, env_changed = mgr_changed m\<rparr>"

definition put_hc :: "HCEnv \<Rightarrow> Manager \<Rightarrow> Manager" where
  "put_hc e m = m\<lparr>mgr_forest := env_forest e, mgr_affected := env_affected e, mgr_changed := env_changed e\<rparr>"

definition obj_env :: "Manager \<Rightarrow> ObjEnv" where
  "obj_env m = \<lparr>oe_forest = mgr_forest m, oe_affected = mgr_objects m, oe_events = mgr_objEvents m\<rparr>"

definition put_obj :: "ObjEnv \<Rightarrow> Manager \<Rightarrow> Manager" where
  "put_obj e m = m\<lparr>mgr_forest := oe_forest e, mgr_objects := oe_affected e, mgr_objEvents := oe_events e\<rparr>"

definition config_env :: "Manager \<Rightarrow> ConfigEnv" where
  "config_env m = \<lparr>ce_obj = obj_env m, ce_activeGVKMode = mgr_activeGVKMode m, ce_activeGR = mgr_activeGR m\<rparr>"

definition put_config :: "ConfigEnv \<Rightarrow> Manager \<Rightarrow> Manager" where
  "put_config e m = (put_obj (ce_obj e) m)\<lparr>mgr_activeGVKMode := ce_activeGVKMode e, mgr_activeGR := ce_activeGR e\<rparr>"

definition quota_env :: "Manager \<Rightarrow> QuotaEnv" where
  "quota_env m = \<lparr>qe_forest = mgr_forest m, qe_rqs = mgr_rqs m, qe_hrqs = mgr_hrqs m, qe_events = mgr_quotaEvents m\<rparr>"

definition put_quota :: "QuotaEnv \<Rightarrow> Manager \<Rightarrow> Manager" where
  "put_quota e m = m\<lparr>mgr_forest := qe_forest e, mgr_rqs := qe_rqs e, mgr_hrqs := qe_hrqs e, mgr_quotaEvents := qe_events e\<rparr>"

lemma env_forests [simp]:
  "env_forest (hc_env m) = mgr_forest m" "oe_forest (obj_env m) = mgr_forest m" "ce_obj (config_env m) = obj_env m"
  "qe_forest (quota_env m) = mgr_forest m" "mgr_forest (put_hc e m) = env_forest e" "mgr_forest (put_obj e1 m) = oe_forest e1"
  "mgr_forest (put_config e2 m) = oe_forest (ce_obj e2)" "mgr_forest (put_quota e3 m) = qe_forest e3"
  by (simp_all add: hc_env_def obj_env_def config_env_def quota_env_def put_hc_def put_obj_def put_config_def put_quota_def)

section \<open>Set-up\<close>










section \<open>Requests\<close>









section \<open>Well-formed requests\<close>




section \<open>Every request is served\<close>






section \<open>Reachable states\<close>






end
