(* ===== verification/Forest_Refinement.thy ===== *)
theory Forest_Refinement
  imports Admission Hierarchy_Properties
begin

text \<open>
  The forest as an abstract data type. What its clients can observe is a map from names to the names of
  parents and the set of the names that exist; placeholders for namespaces that were only looked up,
  pointers, child maps and usages are hidden. Every operation on the forest refines the
  corresponding one on this abstract tree, and so does every sequence of operations.
\<close>

section \<open>The abstract tree\<close>

record name_tree =
  nt_parent :: "string \<rightharpoonup> string"
  nt_exists :: "string set"

definition edges :: "name_tree \<Rightarrow> (string \<times> string) set" where
  "edges t = {(c, p). nt_parent t c = Some p}"

definition view :: "Forest \<Rightarrow> (nsptr \<Rightarrow> nsptr option) \<Rightarrow> (nsptr \<Rightarrow> bool) \<Rightarrow> name_tree" where
  "view f par ex = \<lparr>
     nt_parent = (\<lambda>nm. case map_of (f_namespaces f) nm of None \<Rightarrow> None | Some a \<Rightarrow> map_option (nm_of f) (par a)),
     nt_exists = {nm. \<exists>a. map_of (f_namespaces f) nm = Some a \<and> ex a}\<rparr>"

definition tree_of :: "Forest \<Rightarrow> name_tree" where
  "tree_of f = view f (\<lambda>a. ns_parent (deref f a)) (\<lambda>a. ns_exists (deref f a))"

text \<open>The requests of the clients, on the abstract tree.\<close>

datatype forest_op = Lookup string | Arrive string | Leave string | Move string string

fun op_name :: "forest_op \<Rightarrow> string" where
  "op_name (Lookup nm) = nm" | "op_name (Arrive nm) = nm" | "op_name (Leave nm) = nm" | "op_name (Move nm pnm) = nm"

fun spec_op :: "forest_op \<Rightarrow> name_tree \<Rightarrow> name_tree" where
  "spec_op (Lookup nm) t = t"
| "spec_op (Arrive nm) t = t\<lparr>nt_exists := insert nm (nt_exists t)\<rparr>"
| "spec_op (Leave nm) t = t\<lparr>nt_parent := (nt_parent t)(nm := None), nt_exists := nt_exists t - {nm}\<rparr>"
| "spec_op (Move nm pnm) t =
     (if nm \<in> nt_exists t \<and> (pnm = '''' \<or> (pnm, nm) \<notin> (edges t)\<^sup>*)
      then t\<lparr>nt_parent := (nt_parent t)(nm := if pnm = '''' then None else Some pnm)\<rparr> else t)"

text \<open>
  The same requests on the forest, as the clients make them: look the names up, ask, and change. A change to the
  parent that a namespace already has is not made.
\<close>

fun exec_op :: "forest_op \<Rightarrow> Forest \<Rightarrow> Forest option" where
  "exec_op (Lookup nm) f = map_option snd (GetP nm f)"
| "exec_op (Arrive nm) f = do { (ns, f) \<leftarrow> GetP nm f; Some (snd (SetExists ns f)) }"
| "exec_op (Leave nm) f = do { (ns, f) \<leftarrow> GetP nm f; map_option snd (UnsetExists ns f) }"
| "exec_op (Move nm pnm) f = do {
     (ns, f) \<leftarrow> GetP nm f;
     let (p, f) = Get pnm f;
     if Exists f ns \<and> CanSetParent f ns p = '''' \<and> Parent f (Some ns) \<noteq> p then SetParent ns p f else Some f }"

primrec run_ops :: "(forest_op \<Rightarrow> 's \<Rightarrow> 's option) \<Rightarrow> forest_op list \<Rightarrow> 's \<Rightarrow> 's option" where
  "run_ops exec [] s = Some s"
| "run_ops exec (op # ops) s = Option.bind (exec op s) (run_ops exec ops)"

section \<open>Any store that refines the tree\<close>

locale tree_store =
  fixes inv :: "'s \<Rightarrow> bool" and tree :: "'s \<Rightarrow> name_tree" and exec :: "forest_op \<Rightarrow> 's \<Rightarrow> 's option"
  assumes exec_refines: "inv s \<Longrightarrow> op_name op \<noteq> '''' \<Longrightarrow> \<exists>s'. exec op s = Some s' \<and> inv s' \<and> tree s' = spec_op op (tree s)"
begin


lemma run_refines:
  assumes "inv s" "list_all (\<lambda>op. op_name op \<noteq> '''') ops"
  shows "\<exists>s'. run_ops exec ops s = Some s' \<and> inv s' \<and> tree s' = fold spec_op ops (tree s)"
  using assms
proof (induction ops arbitrary: s)
  case (Cons op ops)
  then obtain s' where "exec op s = Some s'" "inv s'" "tree s' = spec_op op (tree s)"
    using exec_refines [of s op] by auto
  then show ?case using Cons by fastforce
qed simp

end

text \<open>No request makes a cycle.\<close>


lemma spec_op_acyclic:
  assumes "acyclic (edges t)"
  shows "acyclic (edges (spec_op op t))"
proof (cases op)
  case (Leave nm)
  then have "edges (spec_op op t) \<subseteq> edges t" by (auto simp: edges_def split: if_splits)
  then show ?thesis using acyclic_subset [OF assms] by blast
next
  case (Move nm pnm)
  show ?thesis
  proof (cases "nm \<in> nt_exists t \<and> (pnm = '''' \<or> (pnm, nm) \<notin> (edges t)\<^sup>*)")
    case True
    then have "edges (spec_op op t) \<subseteq> (if pnm = '''' then edges t else insert (nm, pnm) (edges t))"
      using Move by (auto simp: edges_def split: if_splits)
    moreover have "acyclic (if pnm = '''' then edges t else insert (nm, pnm) (edges t))"
      using True assms by (auto simp: acyclic_insert)
    ultimately show ?thesis by (rule acyclic_subset [rotated])
  qed (use assms Move in auto)
qed (use assms in \<open>auto simp: edges_def\<close>)

lemma fold_acyclic: "acyclic (edges t) \<Longrightarrow> acyclic (edges (fold spec_op ops t))"
  by (induction ops arbitrary: t) (auto simp: spec_op_acyclic)

section \<open>The forest refines the tree\<close>

text \<open>
  Two forests with the same pointers have the same view if those that only the first one registers have no
  parent and do not exist.
\<close>

lemma tree_of_eq:
  assumes "wf_forest f" "wf_forest g" "\<And>a. registered g a \<Longrightarrow> registered f a"
    and "\<And>a. registered g a \<Longrightarrow> nm_of g a = nm_of f a"
    and "\<And>a. registered f a \<Longrightarrow> \<not> registered g a \<Longrightarrow> par a = None \<and> \<not> ex a"
    and "\<And>a. registered g a \<Longrightarrow> ns_parent (deref g a) = par a" "\<And>a. registered g a \<Longrightarrow> ns_exists (deref g a) = ex a"
  shows "tree_of g = view f par ex"
proof -
  have g: "map_of (f_namespaces g) nm = Some a \<longleftrightarrow> registered g a \<and> nm_of g a = nm" for nm a
    using wf_lookup_registered [OF assms(2)] wf_name [OF assms(2)] by (auto simp: registered_def)
  have f: "map_of (f_namespaces f) nm = Some a \<longleftrightarrow> registered f a \<and> nm_of f a = nm" for nm a
    using wf_lookup_registered [OF assms(1)] wf_name [OF assms(1)] by (auto simp: registered_def)
  have "(case map_of (f_namespaces g) nm of None \<Rightarrow> None | Some a \<Rightarrow> map_option (nm_of g) (ns_parent (deref g a))) =
      (case map_of (f_namespaces f) nm of None \<Rightarrow> None | Some a \<Rightarrow> map_option (nm_of f) (par a))" for nm
  proof (cases "map_of (f_namespaces g) nm")
    case None
    then have "par a = None" if "map_of (f_namespaces f) nm = Some a" for a
      using that assms(4,5) f [of nm a] g [of nm a] by auto
    then show ?thesis using None by (auto split: option.split)
  next
    case (Some a)
    then have a: "registered g a" "nm_of g a = nm" using g by auto
    then have "map_of (f_namespaces f) nm = Some a" using assms(3,4) f by auto
    moreover have "nm_of g p = nm_of f p" if "par a = Some p" for p
      using registered_parent [OF assms(2) a(1), of p] assms(4,6) a(1) that by simp
    ultimately show ?thesis using Some assms(6) [OF a(1)] by (cases "par a") auto
  qed
  moreover have "(\<exists>a. map_of (f_namespaces g) nm = Some a \<and> ns_exists (deref g a)) \<longleftrightarrow>
      (\<exists>a. map_of (f_namespaces f) nm = Some a \<and> ex a)" for nm
    unfolding f g using assms(3,4,5,7) by metis
  ultimately show ?thesis by (simp add: tree_of_def view_def)
qed

abbreviation store_inv :: "Forest \<Rightarrow> bool" where
  "store_inv f \<equiv> wf_forest f \<and> parents_exist f"

lemma alloc_view:
  assumes "store_inv f" "map_of (f_namespaces f) nm = None" "nm \<noteq> ''''"
  shows "store_inv (alloc nm f)" "tree_of (alloc nm f) = tree_of f"
proof -
  have wf: "wf_forest f" "parents_exist f" using assms(1) by auto
  note wfa = wf_alloc [OF wf(1) assms(2,3)] and reg = registered_alloc [OF wf(1) assms(2)]
  have new: "\<not> registered f (length (f_heap f))" using registered_valid [OF wf(1)] by (auto simp: valid_def)
  then have old: "registered f a \<Longrightarrow> deref (alloc nm f) a = deref f a" for a by (auto simp: deref_alloc)
  show "store_inv (alloc nm f)"
    using wfa wf old by (auto simp: parents_exist_iff [OF wfa] parents_exist_iff [OF wf(1)] reg deref_alloc)
  have "tree_of f = view (alloc nm f) (\<lambda>a. ns_parent (deref (alloc nm f) a)) (\<lambda>a. ns_exists (deref (alloc nm f) a))"
    by (rule tree_of_eq [OF wfa wf(1)]) (auto simp: reg old deref_alloc new)
  then show "tree_of (alloc nm f) = tree_of f" by (simp add: tree_of_def)
qed

lemma Get_view:
  assumes "store_inv f"
  shows "store_inv (snd (Get nm f))" "tree_of (snd (Get nm f)) = tree_of f"
  using alloc_view [OF assms, of nm] assms by (cases nm f rule: Get_cases; simp add: alloc_def)+

lemma GetP_view:
  assumes "store_inv f" "nm \<noteq> ''''"
  shows "\<exists>a g. GetP nm f = Some (a, g) \<and> store_inv g \<and> registered g a \<and> nm_of g a = nm \<and> tree_of g = tree_of f"
proof -
  obtain a where "fst (Get nm f) = Some a" "registered (snd (Get nm f)) a" "nm_of (snd (Get nm f)) a = nm"
    using Get_result [of f nm] assms by blast
  then show ?thesis using Get_view [OF assms(1), of nm] by (cases "Get nm f") (auto simp: GetP_def)
qed

lemma tree_lookup:
  assumes "wf_forest f" "registered f a"
  shows "nt_parent (tree_of f) (nm_of f a) = map_option (nm_of f) (ns_parent (deref f a))"
    "nm_of f a \<in> nt_exists (tree_of f) \<longleftrightarrow> ns_exists (deref f a)"
  using assms(2) by (auto simp: tree_of_def view_def registered_def)

lemma tree_reaches:
  assumes "wf_forest f" "registered f a" "registered f b"
  shows "(nm_of f a, nm_of f b) \<in> (edges (tree_of f))\<^sup>* \<longleftrightarrow> (a, b) \<in> (parent_rel f)\<^sup>*"
proof
  assume "(a, b) \<in> (parent_rel f)\<^sup>*"
  then show "(nm_of f a, nm_of f b) \<in> (edges (tree_of f))\<^sup>*" using assms(2)
  proof (induction rule: converse_rtrancl_induct)
    case (step x y)
    then have "registered f y" using registered_parent [OF assms(1)] by (auto simp: parent_rel_def)
    moreover have "(nm_of f x, nm_of f y) \<in> edges (tree_of f)"
      using step.hyps(1) tree_lookup [OF assms(1) step.prems] by (auto simp: edges_def parent_rel_def)
    ultimately show ?case using step.IH by (meson converse_rtrancl_into_rtrancl)
  qed simp
next
  assume "(nm_of f a, nm_of f b) \<in> (edges (tree_of f))\<^sup>*"
  moreover have "(n, m) \<in> (edges (tree_of f))\<^sup>* \<Longrightarrow> registered f x \<Longrightarrow> nm_of f x = n \<Longrightarrow>
      \<exists>y. registered f y \<and> nm_of f y = m \<and> (x, y) \<in> (parent_rel f)\<^sup>*" for n m x
  proof (induction arbitrary: x rule: converse_rtrancl_induct)
    case (step n n')
    obtain y where y: "ns_parent (deref f x) = Some y" "nm_of f y = n'"
      using step.hyps(1) tree_lookup(1) [OF assms(1) step.prems(1)] step.prems(2)
      by (cases "ns_parent (deref f x)") (auto simp: edges_def)
    then show ?case
      using step.IH [of y] registered_parent [OF assms(1) step.prems(1) y(1)] rtrancl_parent [of x _ f] by blast
  qed blast
  ultimately obtain y where "registered f y" "nm_of f y = nm_of f b" "(a, y) \<in> (parent_rel f)\<^sup>*" using assms(2) by blast
  then show "(a, b) \<in> (parent_rel f)\<^sup>*" using registered_inj [of f y b] assms(3) by simp
qed

lemma view_update:
  assumes "wf_forest f" "registered f ns"
  shows "view f (par(ns := p)) ex = (view f par ex)\<lparr>nt_parent := (nt_parent (view f par ex))(nm_of f ns := map_option (nm_of f) p)\<rparr>"
    "view f par (ex(ns := b)) = (view f par ex)\<lparr>nt_exists :=
       (if b then insert (nm_of f ns) (nt_exists (view f par ex)) else nt_exists (view f par ex) - {nm_of f ns})\<rparr>"
proof -
  have f: "map_of (f_namespaces f) nm = Some ns \<longleftrightarrow> nm = nm_of f ns" for nm
    using assms wf_name [OF assms(1), of nm ns] by (auto simp: registered_def)
  have "(case map_of (f_namespaces f) nm of None \<Rightarrow> None | Some a \<Rightarrow> map_option (nm_of f) ((par(ns := p)) a)) =
      ((\<lambda>nm. case map_of (f_namespaces f) nm of None \<Rightarrow> None | Some a \<Rightarrow> map_option (nm_of f) (par a))
        (nm_of f ns := map_option (nm_of f) p)) nm" for nm
    using f [of nm] by (cases "map_of (f_namespaces f) nm") auto
  then show "view f (par(ns := p)) ex = (view f par ex)\<lparr>nt_parent := (nt_parent (view f par ex))(nm_of f ns := map_option (nm_of f) p)\<rparr>"
    unfolding view_def by (simp add: fun_upd_def)
  have "{nm. \<exists>a. map_of (f_namespaces f) nm = Some a \<and> (ex(ns := b)) a} =
      (if b then insert (nm_of f ns) {nm. \<exists>a. map_of (f_namespaces f) nm = Some a \<and> ex a}
       else {nm. \<exists>a. map_of (f_namespaces f) nm = Some a \<and> ex a} - {nm_of f ns})" (is "?L = ?R")
  proof (rule set_eqI)
    fix nm
    show "nm \<in> ?L \<longleftrightarrow> nm \<in> ?R" using f [of nm] by (cases "map_of (f_namespaces f) nm"; cases b) auto
  qed
  then show "view f par (ex(ns := b)) = (view f par ex)\<lparr>nt_exists :=
       (if b then insert (nm_of f ns) (nt_exists (view f par ex)) else nt_exists (view f par ex) - {nm_of f ns})\<rparr>"
    unfolding view_def by simp
qed


lemma SetExists_view:
  assumes "store_inv f" "registered f ns"
  shows "store_inv (snd (SetExists ns f))"
    "tree_of (snd (SetExists ns f)) = tree_of f\<lparr>nt_exists := insert (nm_of f ns) (nt_exists (tree_of f))\<rparr>"
proof -
  let ?g = "snd (SetExists ns f)"
  have wf: "wf_forest f" using assms by simp
  have sh: "same_shape f ?g" by (simp add: SetExists_def same_shape_exists)
  have ex: "ns_exists (deref ?g a) = (a = ns \<or> ns_exists (deref f a))" for a
    using registered_valid [OF wf assms(2)] by (simp add: SetExists_def deref_modify)
  have wfg: "wf_forest ?g" using wf by (simp add: shape_simps [OF sh])
  show "store_inv ?g"
    using assms(1) wfg ex by (auto simp: parents_exist_iff [OF wf] parents_exist_iff [OF wfg] shape_simps [OF sh])
  have "tree_of ?g = view f (\<lambda>a. ns_parent (deref f a)) ((\<lambda>a. ns_exists (deref f a))(ns := True))"
    by (rule tree_of_eq [OF wf wfg]) (auto simp: shape_simps [OF sh] ex)
  then show "tree_of ?g = tree_of f\<lparr>nt_exists := insert (nm_of f ns) (nt_exists (tree_of f))\<rparr>"
    by (simp add: view_update [OF wf assms(2)] tree_of_def)
qed

lemma SetParent_view:
  assumes "store_inv f" "registered f ns" "can_relink f ns p" "ns_exists (deref f ns) \<or> p = None"
  shows "\<exists>g. SetParent ns p f = Some g \<and> store_inv g \<and> registered g ns \<and> nm_of g ns = nm_of f ns \<and>
    tree_of g = tree_of f\<lparr>nt_parent := (nt_parent (tree_of f))(nm_of f ns := map_option (nm_of f) p)\<rparr>"
proof -
  have wf: "wf_forest f" "parents_exist f" using assms by auto
  obtain g where g: "SetParent ns p f = Some g" "usage_only (relinked f ns p) g"
    using SetParent_total [OF wf(1) assms(2,3)] by blast
  note rf = relinked_facts [OF wf(1) assms(2,3)] and sh = shape_simps [OF usage_only_shape [OF g(2)]]
  have ex: "ns_exists (deref g a) = ns_exists (deref f a)" for a
    by (simp add: usage_only_exists [OF g(2)] relinked_exists)
  have wfg: "wf_forest g" using rf(1) by (simp add: sh)
  have reg: "registered g ns" using rf(2) assms(2) not_self_dropped [OF can_relink_safe [OF assms(3)]] by (simp add: sh)
  have "tree_of g = view f ((\<lambda>a. ns_parent (deref f a))(ns := p)) (\<lambda>a. ns_exists (deref f a))"
  proof (rule tree_of_eq [OF wf(1) wfg])
    fix a assume "registered f a" "\<not> registered g a"
    then have d: "dropped f ns a" using rf(2) by (simp add: sh)
    then have "a \<noteq> ns" using not_self_dropped [OF can_relink_safe [OF assms(3)]] by auto
    then show "((\<lambda>a. ns_parent (deref f a))(ns := p)) a = None \<and> \<not> ns_exists (deref f a)"
      using d safe_dropD [OF can_relink_safe [OF assms(3)]] by (auto simp: dropped_def)
  qed (use rf in \<open>auto simp: sh ex\<close>)
  then show ?thesis
    using g(1) wfg reg rf(4) parents_exist_SetParent [OF wf(1) assms(2,3) wf(2) assms(4) g(1)]
    by (simp add: view_update [OF wf(1) assms(2)] tree_of_def sh)
qed

lemma UnsetExists_view:
  assumes "store_inv f" "registered f ns"
  shows "\<exists>g. UnsetExists ns f = Some (ns_exists (deref f ns), g) \<and> store_inv g \<and>
    tree_of g = tree_of f\<lparr>nt_parent := (nt_parent (tree_of f))(nm_of f ns := None), nt_exists := nt_exists (tree_of f) - {nm_of f ns}\<rparr>"
proof -
  have "can_relink f ns None"
    using parents_exist_safe [of f ns] assms by (simp add: can_relink_def)
  then obtain g where g: "SetParent ns None f = Some g" "wf_forest g" "registered g ns" "nm_of g ns = nm_of f ns"
      "tree_of g = tree_of f\<lparr>nt_parent := (nt_parent (tree_of f))(nm_of f ns := None)\<rparr>"
    using SetParent_view [OF assms, of None] by auto
  obtain h where h: "UnsetExists ns f = Some (ns_exists (deref f ns), h)" "store_inv h" "ns_parent (deref h ns) = None"
    using UnsetExists_total [of f ns] assms by blast
  let ?m = "modify ns (\<lambda>n. n\<lparr>ns_exists := False\<rparr>) g"
  have hc: "h = clean ns ?m" using g(1) h(1) by (simp add: UnsetExists_def)
  note sh = shape_simps [OF same_shape_exists [of g ns False]]
  have de: "deref h a = deref ?m a" for a by (simp add: hc clean_def Let_def deref_set_namespaces)
  have reg: "registered h a \<Longrightarrow> registered g a" "registered g a \<Longrightarrow> a \<noteq> ns \<Longrightarrow> registered h a" for a
    using registered_inj [of g a ns] g(3)
    by (auto simp: registered_def hc clean_def Let_def deref_set_namespaces map_of_delete' sh split: if_splits)
  have ex: "ns_exists (deref h a) = (a \<noteq> ns \<and> ns_exists (deref g a))" for a
    using registered_valid [OF g(2,3)] by (simp add: de deref_modify)
  have "tree_of h = view g ((\<lambda>a. ns_parent (deref g a))) ((\<lambda>a. ns_exists (deref g a))(ns := False))"
  proof (rule tree_of_eq [OF g(2)])
    fix a assume "registered g a" "\<not> registered h a"
    then show "ns_parent (deref g a) = None \<and> \<not> ((\<lambda>a. ns_exists (deref g a))(ns := False)) a"
      using reg(2) h(3) de sh by auto
  qed (use h(2) reg(1) ex in \<open>auto simp: de sh\<close>)
  then show ?thesis
    using h(1,2) g(4,5) by (simp add: view_update [OF g(2,3)] tree_of_def)
qed

lemma Move_view:
  assumes "store_inv f" "registered f a" "\<And>q. p = Some q \<Longrightarrow> registered f q" "pnm = (case p of None \<Rightarrow> '''' | Some q \<Rightarrow> nm_of f q)"
  shows "\<exists>g. (if Exists f a \<and> CanSetParent f a p = '''' \<and> Parent f (Some a) \<noteq> p then SetParent a p f else Some f) = Some g \<and>
    store_inv g \<and> tree_of g = spec_op (Move (nm_of f a) pnm) (tree_of f)"
proof -
  have wf: "wf_forest f" "parents_exist f" using assms(1) by auto
  have ex: "nm_of f a \<in> nt_exists (tree_of f) \<longleftrightarrow> Exists f a" using tree_lookup(2) [OF wf(1) assms(2)] by (simp add: Exists_def)
  have nm: "(if pnm = '''' then None else Some pnm) = map_option (nm_of f) p"
    using registered_name [OF wf(1)] assms(3,4) by (cases p) auto
  have can: "CanSetParent f a p = '''' \<longleftrightarrow> pnm = '''' \<or> (pnm, nm_of f a) \<notin> (edges (tree_of f))\<^sup>*"
  proof (cases p)
    case None
    then show ?thesis using assms(4) by (simp add: CanSetParent_def)
  next
    case (Some q)
    then show ?thesis
      using CanSetParent_iff [OF wf(1) assms(2), of q] tree_reaches [OF wf(1) _ assms(2), of q] registered_name [OF wf(1), of q] assms(3,4)
      by simp
  qed
  have spec: "spec_op (Move (nm_of f a) pnm) (tree_of f) = (if Exists f a \<and> CanSetParent f a p = ''''
      then tree_of f\<lparr>nt_parent := (nt_parent (tree_of f))(nm_of f a := map_option (nm_of f) p)\<rparr> else tree_of f)"
    by (simp only: spec_op.simps ex can nm)
  show ?thesis
  proof (cases "Parent f (Some a) = p")
    case True
    then have "(nt_parent (tree_of f))(nm_of f a := map_option (nm_of f) p) = nt_parent (tree_of f)"
      using tree_lookup(1) [OF wf(1) assms(2)] by (simp add: Parent_def fun_upd_idem)
    then show ?thesis using True assms(1) unfolding spec by simp
  next
    case False
    have "can_relink f a p"
      using parents_exist_safe [OF wf assms(2)] assms(3) False
      by (auto simp: can_relink_def dropped_def Parent_def split: option.split)
    then show ?thesis
      using SetParent_view [OF assms(1,2), of p] False assms(1) unfolding spec by (auto simp: Exists_def)
  qed
qed

lemma exec_op_refines:
  assumes "store_inv f" "op_name op \<noteq> ''''"
  shows "\<exists>g. exec_op op f = Some g \<and> store_inv g \<and> tree_of g = spec_op op (tree_of f)"
proof -
  obtain a f1 where a: "GetP (op_name op) f = Some (a, f1)" "store_inv f1" "registered f1 a" "nm_of f1 a = op_name op"
      "tree_of f1 = tree_of f"
    using GetP_view [OF assms] by blast
  show ?thesis
  proof (cases op)
    case (Move nm pnm)
    obtain p f2 where g: "Get pnm f1 = (p, f2)" by fastforce
    then have p: "p = fst (Get pnm f1)" "f2 = snd (Get pnm f1)" by simp_all
    have f2: "store_inv f2" "tree_of f2 = tree_of f" using Get_view [OF a(2), of pnm] a(5) by (simp_all add: p)
    have a2: "registered f2 a" "nm_of f2 a = nm"
      using registered_Get [of f1 a pnm] deref_Get [OF registered_valid [of f1 a]] a Move by (auto simp: p)
    have q: "registered f2 q" "nm_of f2 q = pnm" if "p = Some q" for q
      using Get_registered_result [of f1 pnm q] a(2) that by (auto simp: p)
    have "pnm = (case p of None \<Rightarrow> '''' | Some q \<Rightarrow> nm_of f2 q)"
      using q g by (cases p; cases pnm f1 rule: Get_cases) auto
    then show ?thesis
      using Move_view [OF f2(1) a2(1) q(1), of p pnm] Move a(1) g a2(2) f2(2) by simp
  qed (use a SetExists_view [OF a(2,3)] UnsetExists_view [OF a(2,3)] in auto)
qed

interpretation fs: tree_store store_inv tree_of exec_op
  by unfold_locales (rule exec_op_refines)

lemma acyclic_edges:
  assumes "wf_forest f" "acyclic_forest f"
  shows "acyclic (edges (tree_of f))"
  unfolding acyclic_def
proof (intro allI notI)
  fix n assume "(n, n) \<in> (edges (tree_of f))\<^sup>+"
  then obtain m where m: "(n, m) \<in> edges (tree_of f)" "(m, n) \<in> (edges (tree_of f))\<^sup>*" by (meson tranclD)
  then obtain a p where a: "map_of (f_namespaces f) n = Some a" "ns_parent (deref f a) = Some p" "nm_of f p = m"
    by (auto simp: edges_def tree_of_def view_def split: option.splits)
  then have r: "registered f a" "nm_of f a = n" using wf_lookup_registered [OF assms(1)] wf_name [OF assms(1)] by auto
  then have "(p, a) \<in> (parent_rel f)\<^sup>*"
    using tree_reaches [OF assms(1), of p a] registered_parent [OF assms(1) r(1) a(2)] a(3) m(2) by simp
  then have "in_cycle f a" using a(2) by (simp add: in_cycle_def trancl_parent)
  then show False using assms(2) r(1) by (simp add: acyclic_forest_def)
qed

text \<open>
  C3: the forest is a map from names to parents. Any sequence of lookups, arrivals, departures and
  moves of namespaces, each made on the forest with pointers, child maps, placeholders and clean-up, runs
  to its end and leaves the tree that the same sequence leaves on the map from names to parent
  names: a lookup changes nothing, a departure detaches the namespace and keeps its children below
  it, and a move takes place exactly if the namespace exists and is not an ancestor of the new
  parent. A forest without cycles never gets one.
\<close>

theorem forest_refines_tree:
  assumes "wf_forest f" "parents_exist f" "list_all (\<lambda>op. op_name op \<noteq> '''') ops"
  shows "\<exists>g. run_ops exec_op ops f = Some g \<and> wf_forest g \<and> parents_exist g \<and>
    tree_of g = fold spec_op ops (tree_of f) \<and> (acyclic_forest f \<longrightarrow> acyclic (edges (tree_of g)))"
proof -
  have "store_inv f" using assms by simp
  then obtain g where "run_ops exec_op ops f = Some g" "store_inv g" "tree_of g = fold spec_op ops (tree_of f)"
    using fs.run_refines [of f ops] assms(3) by blast
  then show ?thesis using fold_acyclic acyclic_edges [OF assms(1)] by auto
qed

definition parent_name :: "Forest \<Rightarrow> string \<Rightarrow> string option" where
  "parent_name f nm = (case map_of (f_namespaces f) nm of None \<Rightarrow> None | Some a \<Rightarrow> map_option (nm_of f) (ns_parent (deref f a)))"

lemma parent_name: "nt_parent (tree_of f) nm = parent_name f nm"
  by (simp add: tree_of_def view_def parent_name_def)

text \<open>Starting from the line a, b, c: c moves to the new d, a may not move below b, and b leaves.\<close>

theorem forest_refines_tree_witness:
  "\<exists>g. run_ops exec_op [Arrive ''d'', Move ''c'' ''d'', Move ''a'' ''b'', Leave ''b''] ex_line = Some g \<and>
     nt_parent (tree_of g) ''c'' = Some ''d'' \<and> nt_parent (tree_of g) ''a'' = None \<and> nt_parent (tree_of g) ''b'' = None \<and>
     acyclic (edges (tree_of g))"
    (is "\<exists>g. run_ops exec_op ?ops ex_line = Some g \<and> _")
proof -
  obtain g where g: "run_ops exec_op ?ops ex_line = Some g" "acyclic (edges (tree_of g))"
    using forest_refines_tree [OF ex_line_facts(1,8), of ?ops] ex_line_acyclic by auto
  have "map_option (\<lambda>g. map (parent_name g) [''a'', ''b'', ''c'']) (run_ops exec_op ?ops ex_line) = Some [None, None, Some ''d'']"
    by code_simp
  then show ?thesis using g by (simp add: parent_name)
qed

end
