(* ===== verification/Kubectl.thy ===== *)
theory Kubectl
  imports HRQ HNCConfig
begin

text \<open>
  The kubectl plugin (\<^verbatim>\<open>internal/kubectl\<close>).

  A command is a function of the answers of the API server and of a terminal, which holds what was
  printed and written so far and the package variables of \<^verbatim>\<open>tree.go\<close>. \<^verbatim>\<open>os.Exit(1)\<close> is the outcome \<open>Exit\<close>. The
  answers of the server do not change while a command runs. The flags and arguments of a command are its
  arguments. Capitalisation (\<^verbatim>\<open>golang.org/x/text/cases\<close>) and the printed form of an age and of a
  quantity are parameters.
\<close>

section \<open>The server and the terminal\<close>

datatype KubectlWrite =
    PostHierarchy HierarchyConfiguration | PutHierarchy HierarchyConfiguration
  | PostAnchor SubnamespaceAnchor | DeleteAnchor string string
  | PostHNCConfig HNCConfiguration | PutHNCConfig HNCConfiguration

text \<open>An error of a namespace read carries its text, also when the namespace does not exist.\<close>

record Server =
  sv_namespace :: "string \<Rightarrow> string + NamespaceInst"
  sv_namespaces :: "string + string list"
  sv_hierarchy :: "string \<Rightarrow> HierarchyConfiguration read"
  sv_anchors :: "string \<Rightarrow> SubnamespaceAnchor list read"
  sv_HNCConfig :: "HNCConfiguration read"
  sv_HRQ :: "string \<Rightarrow> string \<Rightarrow> string + HierarchicalResourceQuota"
  sv_HRQs :: "string \<Rightarrow> string + HierarchicalResourceQuota list"
  sv_write :: "KubectlWrite \<Rightarrow> string option"

record Terminal =
  t_out :: "string list"
  t_writes :: "KubectlWrite list"
  t_footnotesByMsg :: "(string, nat) gomap"
  t_footnotes :: "string list"
  t_hasSubnamespace :: bool

datatype 'a outcome = Exit Terminal | Return 'a Terminal

fun and_then :: "'a outcome \<Rightarrow> ('a \<Rightarrow> Terminal \<Rightarrow> 'b outcome) \<Rightarrow> 'b outcome" where
  "and_then (Exit t) k = Exit t"
| "and_then (Return x t) k = k x t"

abbreviation newline :: string where
  "newline \<equiv> [CHR 0x0A]"

definition emit :: "string \<Rightarrow> Terminal \<Rightarrow> Terminal" where
  "emit s t = t\<lparr>t_out := t_out t @ [s]\<rparr>"

definition println :: "string \<Rightarrow> Terminal \<Rightarrow> Terminal" where
  "println s t = emit (s @ newline) t"

definition show_bool :: "bool \<Rightarrow> string" where
  "show_bool b = (if b then ''true'' else ''false'')"

section \<open>The client (root.go)\<close>

definition getHierarchy :: "Server \<Rightarrow> string \<Rightarrow> Terminal \<Rightarrow> HierarchyConfiguration outcome" where
  "getHierarchy sv nnm t =
     (case sv_namespace sv nnm of
        Inl err \<Rightarrow> Exit (println (''Error reading namespace '' @ nnm @ '': '' @ err) t)
      | Inr ns \<Rightarrow>
          (case sv_hierarchy sv nnm of
             Found hier \<Rightarrow> Return hier t
           | NotFound \<Rightarrow> Return \<lparr>hc_name = Singleton, hc_namespace = nnm, hc_creationTimestamp = 0, hc_deletionTimestamp = 0,
               hc_finalizers = [], hc_parent = '''', hc_allowCascadingDeletion = False, hc_labels = [], hc_annotations = [],
               hc_children = [], hc_conditions = []\<rparr> t
           | ReadError err \<Rightarrow> Exit (println (''Error reading hierarchy for '' @ nnm @ '': '' @ err) t)))"

fun show_state :: "SubnamespaceAnchorState \<Rightarrow> string" where
  "show_state Missing = ''Missing''"
| "show_state Ok = ''Ok''"
| "show_state Conflict = ''Conflict''"
| "show_state Forbidden = ''Forbidden''"
| "show_state (OtherState s) = s"

definition getAnchorStatus :: "Server \<Rightarrow> string \<Rightarrow> Terminal \<Rightarrow> (string, string) gomap outcome" where
  "getAnchorStatus sv nnm t =
     (case sv_anchors sv nnm of
        Found al \<Rightarrow> Return (fold (\<lambda>inst as. AList.update (an_name inst) (show_state (an_state inst)) as) al []) t
      | NotFound \<Rightarrow> Return [] t
      | ReadError err \<Rightarrow> Exit (println (''Error listing subnamespace anchors for '' @ nnm @ '': '' @ err) t))"

definition send :: "Server \<Rightarrow> KubectlWrite \<Rightarrow> (string \<Rightarrow> string) \<Rightarrow> Terminal \<Rightarrow> unit outcome" where
  "send sv w failure t = (let t = t\<lparr>t_writes := t_writes t @ [w]\<rparr> in
     case sv_write sv w of None \<Rightarrow> Return () t | Some err \<Rightarrow> Exit (println (failure err) t))"

definition updateHierarchy :: "Server \<Rightarrow> HierarchyConfiguration \<Rightarrow> string \<Rightarrow> Terminal \<Rightarrow> unit outcome" where
  "updateHierarchy sv hier reason =
     send sv (if IsZero (hc_creationTimestamp hier) then PostHierarchy hier else PutHierarchy hier)
       (\<lambda>err. newline @ ''Could not '' @ reason @ ''.'' @ newline @ ''Reason: '' @ err)"

definition createAnchor :: "Server \<Rightarrow> string \<Rightarrow> string \<Rightarrow> Terminal \<Rightarrow> unit outcome" where
  "createAnchor sv nnm hnnm t =
     and_then (send sv (PostAnchor \<lparr>an_name = hnnm, an_namespace = nnm, an_creationTimestamp = 0, an_deletionTimestamp = 0,
         an_finalizers = [], an_labels = [], an_annotations = [], an_state = OtherState ''''\<rparr>)
       (\<lambda>err. newline @ ''Could not create subnamespace anchor.'' @ newline @ ''Reason: '' @ err) t)
     (\<lambda>u t. Return () (println (''Successfully created '' @ quote hnnm @ '' subnamespace anchor in '' @ quote nnm @ '' namespace'') t))"

definition deleteAnchor :: "Server \<Rightarrow> string \<Rightarrow> string \<Rightarrow> Terminal \<Rightarrow> unit outcome" where
  "deleteAnchor sv nnm hnnm t =
     and_then (send sv (DeleteAnchor nnm hnnm)
       (\<lambda>err. newline @ ''Could not delete subnamespace anchor.'' @ newline @ ''Reason: '' @ err) t)
     (\<lambda>u t. Return () (println (''Successfully deleted '' @ quote hnnm @ '' subnamespace anchor in '' @ quote nnm @ '' namespace'') t))"

definition getHNCConfig :: "Server \<Rightarrow> Terminal \<Rightarrow> HNCConfiguration outcome" where
  "getHNCConfig sv t = (case sv_HNCConfig sv of
       Found config \<Rightarrow> Return config t
     | NotFound \<Rightarrow> Return \<lparr>cfg_name = HNCConfigSingleton, cfg_creationTimestamp = 0, cfg_resources = [], cfg_status = [],
         cfg_conditions = []\<rparr> t
     | ReadError err \<Rightarrow> Exit (println (''Error reading the HNC Configuration: '' @ err) t))"

definition updateHNCConfig :: "Server \<Rightarrow> HNCConfiguration \<Rightarrow> Terminal \<Rightarrow> unit outcome" where
  "updateHNCConfig sv config =
     send sv (if IsZero (cfg_creationTimestamp config) then PostHNCConfig config else PutHNCConfig config)
       (\<lambda>err. newline @ ''Could not update the HNC Configuration: '' @ err)"

fun read_HRQs :: "Server \<Rightarrow> string \<Rightarrow> string list \<Rightarrow> HierarchicalResourceQuota list \<Rightarrow> Terminal \<Rightarrow>
    HierarchicalResourceQuota list outcome" where
  "read_HRQs sv nnm [] items t = Return items t"
| "read_HRQs sv nnm (name # names) items t = (case sv_HRQ sv nnm name of
       Inl err \<Rightarrow> Exit (println (''Error reading hierarchicalresourcequota '' @ name @ '': '' @ err) t)
     | Inr hrq \<Rightarrow> read_HRQs sv nnm names (items @ [hrq]) t)"

definition getHRQ :: "Server \<Rightarrow> string list \<Rightarrow> string \<Rightarrow> Terminal \<Rightarrow> HierarchicalResourceQuota list outcome" where
  "getHRQ sv names nnm t =
     (if length names > 0 \<and> nnm \<noteq> '''' then read_HRQs sv nnm names [] t
      else (case sv_HRQs sv nnm of
          Inl err \<Rightarrow> Exit (println (''Error reading hierarchicalresourcequotas: '' @ err) t)
        | Inr items \<Rightarrow> Return items t))"

section \<open>set (set.go)\<close>

record hcUpdates =
  up_root :: bool
  up_parent :: string
  up_allowCD :: bool
  up_forbidCD :: bool

definition setRoot :: "HierarchyConfiguration \<Rightarrow> string \<Rightarrow> string \<Rightarrow> nat \<Rightarrow> Terminal \<Rightarrow> HierarchyConfiguration \<times> nat \<times> Terminal" where
  "setRoot hc oldpnm nnm numChanges t =
     (if oldpnm = '''' then (hc, numChanges, println (nnm @ '' is already a root namespace; unchanged '') t)
      else (hc\<lparr>hc_parent := ''''\<rparr>, numChanges + 1,
        println (''Unsetting the parent of '' @ nnm @ '' (was previously '' @ oldpnm @ '')'') t))"

definition setParent :: "HierarchyConfiguration \<Rightarrow> string \<Rightarrow> string \<Rightarrow> string \<Rightarrow> nat \<Rightarrow> Terminal \<Rightarrow>
    HierarchyConfiguration \<times> nat \<times> Terminal" where
  "setParent hc oldpnm pnm nnm numChanges t =
     (if oldpnm = pnm then (hc, numChanges, println (''Parent of '' @ nnm @ '' is already '' @ pnm @ ''; unchanged'') t)
      else (hc\<lparr>hc_parent := pnm\<rparr>, numChanges + 1,
        if oldpnm = '''' then println (''Setting the parent of '' @ nnm @ '' to '' @ pnm) t
        else println (''Changing the parent of '' @ nnm @ '' from '' @ oldpnm @ '' to '' @ pnm) t))"

definition setAllowCascadingDeletion :: "HierarchyConfiguration \<Rightarrow> string \<Rightarrow> bool \<Rightarrow> bool \<Rightarrow> nat \<Rightarrow> Terminal \<Rightarrow>
    (HierarchyConfiguration \<times> nat) outcome" where
  "setAllowCascadingDeletion hc nnm allow forbid numChanges t =
     (if allow \<and> forbid
      then Exit (println ''Cannot set both --allowCascadingDeletion and --forbidCascadingDeletion'' t)
      else if \<not> allow \<and> \<not> forbid then Return (hc, numChanges) t
      else if hc_allowCascadingDeletion hc = allow
      then Return (hc, numChanges) (println (''Cascading deletion for '' @ [CHR 0x27] @ nnm @ [CHR 0x27] @ '' is already set to '' @
        show_bool allow @ ''; unchanged'') t)
      else Return (hc\<lparr>hc_allowCascadingDeletion := allow\<rparr>, numChanges + 1)
        (if allow then println (''Allowing cascading deletion on '' @ [CHR 0x27] @ nnm @ [CHR 0x27]) t
         else println (''Forbidding cascading deletion on '' @ [CHR 0x27] @ nnm @ [CHR 0x27]) t))"

definition updateHC :: "Server \<Rightarrow> hcUpdates \<Rightarrow> string \<Rightarrow> Terminal \<Rightarrow> unit outcome" where
  "updateHC sv updates nnm t =
     and_then (getHierarchy sv nnm t) (\<lambda>hc t.
       let oldpnm = hc_parent hc in
       if up_root updates \<and> up_parent updates \<noteq> ''''
       then Exit (println ''Cannot give the namespace a parent and make it a root at the same time'' t)
       else
         let (hc, n, t) = (if up_root updates then setRoot hc oldpnm nnm 0 t else (hc, 0, t));
             (hc, n, t) = (if up_parent updates \<noteq> '''' then setParent hc oldpnm (up_parent updates) nnm n t else (hc, n, t))
         in and_then (setAllowCascadingDeletion hc nnm (up_allowCD updates) (up_forbidCD updates) n t) (\<lambda>(hc, n) t.
              if n > 0
              then and_then (updateHierarchy sv hc (''update the hierarchical configuration of '' @ nnm) t) (\<lambda>u t.
                Return () (println (''Succesfully updated '' @ show_nat n @ '' '' @ (if n > 1 then ''properties'' else ''property'') @
                  '' of the hierarchical configuration of '' @ nnm) t))
              else Return () (println ''No changes made'' t)))"

section \<open>create and delete (create.go, delete.go)\<close>

definition create_cmd :: "Server \<Rightarrow> string \<Rightarrow> string \<Rightarrow> Terminal \<Rightarrow> unit outcome" where
  "create_cmd sv parent nnm t =
     (if parent = '''' then Exit (println ''Error: parent must be set via --namespace or -n'' t)
      else createAnchor sv parent nnm t)"

definition delete_cmd :: "Server \<Rightarrow> string \<Rightarrow> bool \<Rightarrow> string \<Rightarrow> Terminal \<Rightarrow> unit outcome" where
  "delete_cmd sv parent allowCD nnm t =
     (if parent = '''' then Exit (println ''Error: parent must be set via --namespace or -n'' t)
      else and_then
        (if allowCD
         then and_then (getHierarchy sv nnm t) (\<lambda>hc t.
           if hc_allowCascadingDeletion hc
           then Return () (println (''Cascading deletion for '' @ [CHR 0x27] @ nnm @ [CHR 0x27] @ '' is already set to 'true'; unchanged'') t)
           else updateHierarchy sv (hc\<lparr>hc_allowCascadingDeletion := True\<rparr>) (''update the hierarchical configuration of '' @ nnm)
             (println (''Allowing cascading deletion on '' @ [CHR 0x27] @ nnm @ [CHR 0x27]) t))
         else Return () t)
        (\<lambda>u t. deleteAnchor sv parent nnm t))"

section \<open>The configuration (configset.go, configdelete.go, configdescribe.go)\<close>

definition mode_of :: "string \<Rightarrow> SynchronizationMode" where
  "mode_of s = (if s = ''Propagate'' then Propagate else if s = ''Ignore'' then Ignore else if s = ''Remove'' then Remove
     else if s = ''AllowPropagate'' then AllowPropagate else if s = '''' then UnsetMode else OtherMode s)"

definition normalizeMode :: "(string \<Rightarrow> string) \<Rightarrow> string \<Rightarrow> SynchronizationMode" where
  "normalizeMode title modeStr = (let mode = title modeStr in
     if mode = ''Allowpropagate'' then AllowPropagate else mode_of mode)"

text \<open>The loop over the resources: \<open>None\<close> if the change needs the flag, otherwise the resources and whether one matched.\<close>

fun set_resource_loop :: "string \<Rightarrow> string \<Rightarrow> SynchronizationMode \<Rightarrow> bool \<Rightarrow> ResourceSpec list \<Rightarrow> (ResourceSpec list \<times> bool) option" where
  "set_resource_loop grp resource mode force [] = Some ([], False)"
| "set_resource_loop grp resource mode force (r # rs) =
     (if rs_group r = grp \<and> rs_resource r = resource
      then (if rs_mode r = Ignore \<and> (mode = Propagate \<or> mode = AllowPropagate) \<and> \<not> force then None
            else Some (r\<lparr>rs_mode := mode\<rparr> # rs, True))
      else map_option (\<lambda>(rs, exist). (r # rs, exist)) (set_resource_loop grp resource mode force rs))"

definition ignore_warning :: "string \<Rightarrow> string list" where
  "ignore_warning resource =
     [''Switching directly from 'Ignore' to 'Propagate' mode or 'AllowPropagate' mode could cause existing '' @ quote resource @
        '' objects in child namespaces to be overwritten by objects from ancestor namespaces.'',
      ''If you are sure you want to proceed with this operation, use the '--force' flag.'',
      ''If you are not sure and would like to see what source objects would be overwritten,'' @
        ''please switch to 'Remove' first. To see how to enable propagation safely, refer to '' @
        ''https://github.com/kubernetes-sigs/hierarchical-namespaces/blob/master/docs/user-guide/how-to.md#admin-types'']"

definition set_resource_cmd :: "(string \<Rightarrow> string) \<Rightarrow> Server \<Rightarrow> string \<Rightarrow> string \<Rightarrow> bool \<Rightarrow> string \<Rightarrow> Terminal \<Rightarrow> unit outcome" where
  "set_resource_cmd title sv grp modeStr force resource t =
     (let mode = normalizeMode title modeStr in
      and_then (getHNCConfig sv t) (\<lambda>config t.
        case set_resource_loop grp resource mode force (cfg_resources config) of
          None \<Rightarrow> Exit (fold println (ignore_warning resource) t)
        | Some (rs, exist) \<Rightarrow>
            updateHNCConfig sv (config\<lparr>cfg_resources :=
              (if exist then rs else rs @ [\<lparr>rs_group = grp, rs_resource = resource, rs_mode = mode\<rparr>])\<rparr>) t))"

definition config_delete_cmd :: "Server \<Rightarrow> string \<Rightarrow> string \<Rightarrow> Terminal \<Rightarrow> unit outcome" where
  "config_delete_cmd sv grp resource t =
     and_then (getHNCConfig sv t) (\<lambda>config t.
       let (newRscs, exist) = fold (\<lambda>r (newRscs, exist).
             if rs_group r = grp \<and> rs_resource r = resource then (newRscs, True) else (newRscs @ [r], exist))
           (cfg_resources config) ([], False)
       in if \<not> exist
          then Return () (println (''Nothing to delete; No configuration for type with group: '' @ grp @ '', resource: '' @ resource) t)
          else and_then (updateHNCConfig sv (config\<lparr>cfg_resources := newRscs\<rparr>) t) (\<lambda>u t.
            Return () (println (''Configuration for type with group: '' @ grp @ '', resource: '' @ resource @ '' is deleted'') t)))"

fun show_action_of_mode :: "SynchronizationMode \<Rightarrow> string" where
  "show_action_of_mode Propagate = ''Propagating''"
| "show_action_of_mode Remove = ''Removing''"
| "show_action_of_mode AllowPropagate = ''AllowPropagate''"
| "show_action_of_mode m = ''Ignoring''"

definition show_condition :: "Condition \<Rightarrow> string" where
  "show_condition c = cond_type c @ '' ('' @ cond_reason c @ ''): '' @ cond_message c"

definition config_describe_cmd :: "Server \<Rightarrow> Terminal \<Rightarrow> unit outcome" where
  "config_describe_cmd sv t =
     and_then (getHNCConfig sv t) (\<lambda>config t.
       let t = println ''Synchronized resources:'' t;
           t = fold (\<lambda>r. println (''* '' @ show_action_of_mode (rst_mode r) @ '': '' @ rst_resource r @ '' ('' @ rst_group r @ ''/'' @
             rst_version r @ '')'')) (cfg_status config) t;
           t = println (newline @ ''Conditions:'') t
       in Return () (fold (\<lambda>c. println (show_condition c)) (cfg_conditions config) t))"

section \<open>describe (describe.go)\<close>

text \<open>The children by their status, and the lines of the description before the events.\<close>

definition childrenAndStatus :: "string list \<Rightarrow> (string, string) gomap \<Rightarrow> (string, string) gomap" where
  "childrenAndStatus children as =
     fold (\<lambda>(cn, st) m. AList.update cn (if has_key m cn then ''subnamespace'' else st @ '' subnamespace'') m) as
       (fold (\<lambda>cn m. AList.update cn '''' m) children [])"

definition show_children :: "(string, string) gomap \<Rightarrow> string list" where
  "show_children m = sort (map (\<lambda>(cn, status). if status = '''' then cn else cn @ '' ('' @ status @ '')'') m)"

definition describeConditions :: "Condition list \<Rightarrow> Terminal \<Rightarrow> Terminal" where
  "describeConditions cs t =
     (if length cs = 0 then println ''  No conditions'' t
      else fold (\<lambda>c. println (''  - '' @ show_condition c)) cs (println ''  Conditions:'' t))"

definition describe_hierarchy :: "Server \<Rightarrow> string \<Rightarrow> Terminal \<Rightarrow> unit outcome" where
  "describe_hierarchy sv nnm t =
     (let t = println (''Hierarchy configuration for namespace '' @ nnm) t in
      and_then (getHierarchy sv nnm t) (\<lambda>hier t.
      and_then (getAnchorStatus sv nnm t) (\<lambda>as t.
        let t = (if hc_parent hier \<noteq> '''' then println (''  Parent: '' @ hc_parent hier) t else println ''  No parent'' t);
            m = childrenAndStatus (hc_children hier) as;
            t = (if length m > 0 then println (''  Children:'' @ newline @ ''  - '' @ Join (show_children m) (newline @ ''  - '')) t
                 else println ''  No children'' t);
            t = println (''  Allows Cascading Deletion: '' @ show_bool (hc_allowCascadingDeletion hier)) t
        in Return () (describeConditions (hc_conditions hier) t))))"

section \<open>hrq (hrq.go)\<close>

text \<open>\<open>age\<close> is \<^verbatim>\<open>duration.HumanDuration\<close> of the time since the timestamp.\<close>

definition translateTimestampSince :: "(Time \<Rightarrow> string) \<Rightarrow> Time \<Rightarrow> string" where
  "translateTimestampSince age timestamp = (if IsZero timestamp then ''<unknown>'' else age timestamp)"

definition printHierarchicalResourceQuota :: "(Quantity \<Rightarrow> string) \<Rightarrow> (Time \<Rightarrow> string) \<Rightarrow> HierarchicalResourceQuota \<Rightarrow> string list" where
  "printHierarchicalResourceQuota qstr age hrq =
     (let resources = sort (keys (hrq_status_hard hrq));
          (requestColumn, limitColumn) = fold (\<lambda>resource (requestColumn, limitColumn).
             let usedQuantity = qty (hrq_status_used hrq) resource;
                 hardQuantity = qty (hrq_status_hard hrq) resource;
                 cell = resource @ '': '' @ qstr usedQuantity @ ''/'' @ qstr hardQuantity @ '', '';
                 pieces = Split resource (CHR ''.'')
             in if length pieces > 1 \<and> hd pieces = ''limits'' then (requestColumn, limitColumn @ cell)
                else (requestColumn @ cell, limitColumn)) resources ('''', '''')
      in [hrq_name hrq, translateTimestampSince age (hrq_creationTimestamp hrq), TrimSuffix requestColumn '', '',
          TrimSuffix limitColumn '', ''])"

definition printHierarchicalResourceQuotaList ::
  "(Quantity \<Rightarrow> string) \<Rightarrow> (Time \<Rightarrow> string) \<Rightarrow> HierarchicalResourceQuota list \<Rightarrow> string list list" where
  "printHierarchicalResourceQuotaList qstr age items = fold (\<lambda>hrq rows. rows @ [printHierarchicalResourceQuota qstr age hrq]) items []"

text \<open>The rows that are handed to the table printer.\<close>

definition hrq_rows :: "(Quantity \<Rightarrow> string) \<Rightarrow> (Time \<Rightarrow> string) \<Rightarrow> Server \<Rightarrow> bool \<Rightarrow> string \<Rightarrow> string list \<Rightarrow> Terminal \<Rightarrow>
    string list list outcome" where
  "hrq_rows qstr age sv allNamespaces namespace args t =
     (let namespace = (if allNamespaces then '''' else namespace) in
      and_then (getHRQ sv args namespace t) (\<lambda>items t.
        if length items < 1
        then Exit (println (if allNamespaces then ''No resources found'' else ''No resources found in '' @ namespace @ '' namespace.'') t)
        else Return (printHierarchicalResourceQuotaList qstr age items) t))"

section \<open>tree (tree.go)\<close>

fun footnotes_loop :: "Condition list \<Rightarrow> bool \<Rightarrow> nat list \<Rightarrow> Terminal \<Rightarrow> bool \<times> nat list \<times> Terminal" where
  "footnotes_loop [] cycle notes t = (cycle, notes, t)"
| "footnotes_loop (cond # conds) cycle notes t =
     (let cycle = (cond_reason cond = ReasonInCycle \<or> cycle); txt = show_condition cond in
      case map_of (t_footnotesByMsg t) txt of
        Some idx \<Rightarrow> footnotes_loop conds cycle (notes @ [idx]) t
      | None \<Rightarrow>
          (let t = t\<lparr>t_footnotes := t_footnotes t @ [txt]\<rparr>; n = length (t_footnotes t);
               t = t\<lparr>t_footnotesByMsg := AList.update txt n (t_footnotesByMsg t)\<rparr>
           in footnotes_loop conds cycle (notes @ [n]) t))"

definition nameAndFootnotes :: "HierarchyConfiguration \<Rightarrow> Terminal \<Rightarrow> string \<times> bool \<times> Terminal" where
  "nameAndFootnotes hier t =
     (let (cycle, notes, t) = footnotes_loop (hc_conditions hier) False [] t in
      if length notes = 0 then (hc_namespace hier, False, t)
      else (hc_namespace hier @ '' ('' @ Join (map show_nat (sort notes)) '','' @ '')'', cycle, t))"

text \<open>The box-drawing characters in UTF-8.\<close>

definition tee :: string where
  "tee = [CHR 0xE2, CHR 0x94, CHR 0x9C, CHR 0xE2, CHR 0x94, CHR 0x80, CHR 0xE2, CHR 0x94, CHR 0x80, CHR 0x20]"
definition corner :: string where
  "corner = [CHR 0xE2, CHR 0x94, CHR 0x94, CHR 0xE2, CHR 0x94, CHR 0x80, CHR 0xE2, CHR 0x94, CHR 0x80, CHR 0x20]"
definition bar :: string where
  "bar = [CHR 0xE2, CHR 0x94, CHR 0x82, CHR 0x20, CHR 0x20, CHR 0x20]"

text \<open>
  The recursion of \<^verbatim>\<open>printSubtree\<close>, with a stack of the calls that have not returned: the prefix,
  whether the namespace is in a cycle, and the children that are left. It runs forever if the children
  that the server reports form a cycle whose members are not marked.
\<close>

definition print_child :: "Server \<Rightarrow> string \<Rightarrow> bool \<Rightarrow> bool \<Rightarrow> string \<Rightarrow> Terminal \<Rightarrow> (string \<times> bool \<times> string list) option outcome" where
  "print_child sv prefix inCycle notLast cn t =
     and_then (getHierarchy sv cn t) (\<lambda>ch t.
       case nameAndFootnotes ch t of (txt, cycle, t) \<Rightarrow>
         if cycle \<and> inCycle then Return None t
         else (case sv_namespace sv cn of
             Inl err \<Rightarrow> Exit (println (''Could not get namespaces: '' @ err) t)
           | Inr ns \<Rightarrow>
               (let sub = has_key (nil_map (nsi_annotations ns)) SubnamespaceOf;
                    txt = (if sub then ''[s] '' @ txt else txt);
                    t = (if sub then t\<lparr>t_hasSubnamespace := True\<rparr> else t)
                in if notLast
                   then Return (Some (prefix @ bar, cycle, hc_children ch)) (println (prefix @ tee @ txt) t)
                   else Return (Some (prefix @ ''    '', cycle, hc_children ch)) (println (prefix @ corner @ txt) t))))"

partial_function (option) printSubtree :: "Server \<Rightarrow> (string \<times> bool \<times> string list) list \<Rightarrow> Terminal \<Rightarrow> unit outcome option" where
  "printSubtree sv stack t =
     (case stack of
        [] \<Rightarrow> Some (Return () t)
      | (prefix, inCycle, cns) # stack' \<Rightarrow>
          (case cns of
             [] \<Rightarrow> printSubtree sv stack' t
           | cn # cns' \<Rightarrow>
               (case print_child sv prefix inCycle (cns' \<noteq> []) cn t of
                  Exit t' \<Rightarrow> Some (Exit t')
                | Return frame t' \<Rightarrow>
                    (case frame of
                       None \<Rightarrow> printSubtree sv ((prefix, inCycle, cns') # stack') t'
                     | Some fr \<Rightarrow> printSubtree sv (fr # (prefix, inCycle, cns') # stack') t'))))"

declare printSubtree.simps [code]

definition getAllNamespaces :: "Server \<Rightarrow> Terminal \<Rightarrow> string list outcome" where
  "getAllNamespaces sv t = (case sv_namespaces sv of
       Inl err \<Rightarrow> Exit (println (''Could not list namespaces: '' @ err) t)
     | Inr names \<Rightarrow> Return (sort names) t)"

fun tree_loop :: "Server \<Rightarrow> bool \<Rightarrow> string list \<Rightarrow> Terminal \<Rightarrow> unit outcome option" where
  "tree_loop sv defaultList [] t = Some (Return () t)"
| "tree_loop sv defaultList (nnm # nnms) t =
     (case getHierarchy sv nnm t of
        Exit t \<Rightarrow> Some (Exit t)
      | Return hier t \<Rightarrow>
          (case nameAndFootnotes hier t of (txt, cycle, t) \<Rightarrow>
             if defaultList \<and> (\<not> cycle \<and> hc_parent hier \<noteq> '''') then tree_loop sv defaultList nnms t
             else (case printSubtree sv [('''', cycle, hc_children hier)] (println txt t) of
                 None \<Rightarrow> None
               | Some (Exit t) \<Rightarrow> Some (Exit t)
               | Some (Return u t) \<Rightarrow> tree_loop sv defaultList nnms t)))"

definition tree_footer :: "Terminal \<Rightarrow> Terminal" where
  "tree_footer t =
     (let t = (if t_hasSubnamespace t then println (newline @ ''[s] indicates subnamespaces'') t else t) in
      if length (t_footnotes t) > 0
      then fold (\<lambda>(i, n). println (show_nat (i + 1) @ '') '' @ n)) (enumerate 0 (t_footnotes t)) (println (newline @ ''Conditions:'') t)
      else t)"

definition tree_cmd :: "Server \<Rightarrow> bool \<Rightarrow> string list \<Rightarrow> Terminal \<Rightarrow> unit outcome option" where
  "tree_cmd sv allNamespaces args t =
     (let t = t\<lparr>t_footnotesByMsg := [], t_footnotes := []\<rparr>; defaultList = (length args = 0) in
      case (if allNamespaces then getAllNamespaces sv t else Return args t) of
        Exit t \<Rightarrow> Some (Exit t)
      | Return nsList t \<Rightarrow>
          if defaultList \<and> \<not> allNamespaces
          then Some (Exit (println ''Error: Must specify the root of the tree(s) to display or else specify --all-namespaces'' t))
          else (case tree_loop sv defaultList nsList t of
              None \<Rightarrow> None
            | Some (Exit t) \<Rightarrow> Some (Exit t)
            | Some (Return u t) \<Rightarrow> Some (Return () (tree_footer t))))"

end
