(* ===== verification/Kubectl_Properties.thy ===== *)
theory Kubectl_Properties
  imports Kubectl Admission Config_Properties
begin

text \<open>
  What the commands of the plugin show and write.

  The server reports a forest if the objects it returns are those that the hierarchy reconciler writes for it: the
  parent, the children and the mark of a cycle. Then \<^verbatim>\<open>kubectl hns tree\<close> ends, and what it displays is
  known exactly.
\<close>

section \<open>Cycles and trees of the forest\<close>














section \<open>Lines\<close>



lemma t_out_println [simp]: "t_out (println s t) = t_out t @ [s @ newline]"
  by (simp add: println_def emit_def)



section \<open>The walk\<close>

definition parent_name :: "Forest \<Rightarrow> nsptr \<Rightarrow> string" where
  "parent_name f a = (case ns_parent (deref f a) of None \<Rightarrow> [] | Some p \<Rightarrow> nm_of f p)"












text \<open>The server that holds the objects of a forest.\<close>

definition hc_of :: "Forest \<Rightarrow> nsptr \<Rightarrow> HierarchyConfiguration" where
  "hc_of f a = \<lparr>hc_name = Singleton, hc_namespace = nm_of f a, hc_creationTimestamp = 1, hc_deletionTimestamp = 0, hc_finalizers = [],
     hc_parent = parent_name f a, hc_allowCascadingDeletion = False, hc_labels = [], hc_annotations = [], hc_children = ChildNames f a,
     hc_conditions = (if CycleNames f a \<noteq> [] then [\<lparr>cond_type = ConditionActivitiesHalted, cond_status = True,
       cond_lastTransitionTime = 0, cond_reason = ReasonInCycle, cond_message = ''''\<rparr>] else [])\<rparr>"

definition server_of :: "Forest \<Rightarrow> Server" where
  "server_of f = \<lparr>sv_namespace = (\<lambda>nm. case map_of (f_namespaces f) nm of
         Some a \<Rightarrow> if ns_exists (deref f a)
           then Inr \<lparr>nsi_name = nm, nsi_labels = None, nsi_annotations = None, nsi_deletionTimestamp = 0\<rparr> else Inl ''not found''
       | None \<Rightarrow> Inl ''not found''),
     sv_namespaces = Inr (map fst (filter (\<lambda>(nm, a). ns_exists (deref f a)) (f_namespaces f))),
     sv_hierarchy = (\<lambda>nm. case map_of (f_namespaces f) nm of Some a \<Rightarrow> Found (hc_of f a) | None \<Rightarrow> NotFound),
     sv_anchors = (\<lambda>nm. NotFound), sv_HNCConfig = NotFound, sv_HRQ = (\<lambda>ns nm. Inl ''not found''), sv_HRQs = (\<lambda>ns. Inr []),
     sv_write = (\<lambda>w. None)\<rparr>"


definition ex_terminal :: Terminal where
  "ex_terminal = \<lparr>t_out = [], t_writes = [], t_footnotesByMsg = [], t_footnotes = [], t_hasSubnamespace = False\<rparr>"



section \<open>The configuration\<close>

text \<open>Setting a resource changes the first entry for it, or adds one.\<close>

definition set_entry :: "string \<Rightarrow> string \<Rightarrow> SynchronizationMode \<Rightarrow> ResourceSpec list \<times> bool \<Rightarrow> ResourceSpec list" where
  "set_entry grp res mode r = (if snd r then fst r else fst r @ [\<lparr>rs_group = grp, rs_resource = res, rs_mode = mode\<rparr>])"

lemma set_resource_loop_find:
  assumes "NamespacedKindFor m \<lparr>gr_group = grp, gr_resource = res\<rparr> = Inr gvk"
  shows "set_resource_loop grp res mode force rs = Some r \<Longrightarrow>
    \<forall>x \<in> set rs. maps_to m gvk x \<longrightarrow> rs_group x = grp \<and> rs_resource x = res \<Longrightarrow>
    map_option rs_mode (find (maps_to m g) (set_entry grp res mode r)) =
      (if g = gvk then Some mode else map_option rs_mode (find (maps_to m g) rs))"
proof (induction rs arbitrary: r)
  case Nil
  then show ?case using assms by (auto simp: set_entry_def maps_to_def gr_of_def)
next
  case (Cons x rs)
  show ?case
  proof (cases "rs_group x = grp \<and> rs_resource x = res")
    case True
    then have r: "r = (x\<lparr>rs_mode := mode\<rparr> # rs, True)" using Cons.prems(1) by (auto split: if_splits)
    have "maps_to m h x \<longleftrightarrow> h = gvk" "maps_to m h (x\<lparr>rs_mode := mode\<rparr>) \<longleftrightarrow> h = gvk" for h
      using True assms by (auto simp: maps_to_def gr_of_def)
    then show ?thesis by (simp add: r set_entry_def)
  next
    case False
    then obtain r' where r': "set_resource_loop grp res mode force rs = Some r'" "r = (x # fst r', snd r')"
      using Cons.prems(1) by (auto simp: case_prod_unfold)
    have e: "set_entry grp res mode r = x # set_entry grp res mode r'" by (simp add: r'(2) set_entry_def)
    have "\<not> maps_to m gvk x" using Cons.prems(2) False by auto
    then show ?thesis using Cons.IH [OF r'(1)] Cons.prems(2) by (auto simp: e)
  qed
qed

text \<open>
  C25: what \<^verbatim>\<open>kubectl hns config set-resource\<close> writes is what the reconciler of the configuration
  then applies. If the command succeeds for a resource of a kind that is not enforced and that no
  other resource of the configuration maps to, it writes the configuration once, and any
  reconciliation of the types of the written configuration that reports no error gives the kind the mode of the command line
  and every other kind the mode it had with the old configuration.
\<close>

theorem set_resource_takes_effect:
  assumes "sv_HNCConfig sv = Found cfg" "set_resource_cmd title sv grp modeStr force res t = Return () t'"
    and "NamespacedKindFor m \<lparr>gr_group = grp, gr_resource = res\<rparr> = Inr gvk"
    and "\<forall>x \<in> set (cfg_resources cfg). maps_to m gvk x \<longrightarrow> rs_group x = grp \<and> rs_resource x = res"
    and "\<not> list_ex (maps_to m gvk) EnforcedTypes"
  shows "\<exists>cfg' w. t_writes t' = t_writes t @ [w] \<and> w = (if IsZero (cfg_creationTimestamp cfg) then PostHNCConfig cfg' else PutHNCConfig cfg') \<and>
    (\<forall>now e inst e'. reconcileTypes now m cfg' e = (None, inst, e') \<longrightarrow> (\<forall>g. active_mode e' g =
       (if g = gvk then Some (normalizeMode title modeStr)
        else map_option rs_mode (find (maps_to m g) (EnforcedTypes @ cfg_resources cfg)))))"
proof -
  let ?mode = "normalizeMode title modeStr"
  obtain r where r: "set_resource_loop grp res ?mode force (cfg_resources cfg) = Some r"
    using assms(1,2) by (cases "set_resource_loop grp res ?mode force (cfg_resources cfg)")
      (simp_all add: set_resource_cmd_def getHNCConfig_def Let_def)
  let ?cfg = "cfg\<lparr>cfg_resources := set_entry grp res ?mode r\<rparr>"
  have "updateHNCConfig sv ?cfg t = Return () t'"
    using assms(1,2) r by (cases r) (auto simp: set_resource_cmd_def getHNCConfig_def Let_def set_entry_def split: if_splits)
  then have w: "t_writes t' = t_writes t @ [if IsZero (cfg_creationTimestamp cfg) then PostHNCConfig ?cfg else PutHNCConfig ?cfg]"
    by (auto simp: updateHNCConfig_def send_def Let_def split: option.splits if_splits)
  have "find (maps_to m gvk) EnforcedTypes = None" using assms(5) by (auto simp: find_None_iff list_ex_iff)
  then have "map_option rs_mode (find (maps_to m g) (EnforcedTypes @ cfg_resources ?cfg)) =
      (if g = gvk then Some ?mode else map_option rs_mode (find (maps_to m g) (EnforcedTypes @ cfg_resources cfg)))" for g
    using set_resource_loop_find [OF assms(3) r assms(4), of g] by (auto simp: find_append_case split: option.split)
  then show ?thesis using w reconcileTypes_modes [of _ m ?cfg]
    by (intro exI [of _ ?cfg] exI [of _ "if IsZero (cfg_creationTimestamp cfg) then PostHNCConfig ?cfg else PutHNCConfig ?cfg"]) simp
qed

definition ex_config_server :: Server where
  "ex_config_server = (server_of NewForest)\<lparr>sv_HNCConfig := Found (ex_hnc [ex_spec Remove])\<rparr>"

theorem set_resource_takes_effect_witness:
  "\<exists>t' cfg'. set_resource_cmd (\<lambda>s. s) ex_config_server '''' ''Propagate'' False ''secrets'' ex_terminal = Return () t' \<and>
     t_writes t' = [PutHNCConfig cfg'] \<and> (\<forall>now e inst e'. reconcileTypes now ex_mapper cfg' e = (None, inst, e') \<longrightarrow>
       active_mode e' \<lparr>gvk_group = '''', gvk_version = ''v1'', gvk_kind = ''Secret''\<rparr> = Some Propagate)"
proof -
  let ?gvk = "\<lparr>gvk_group = '''', gvk_version = ''v1'', gvk_kind = ''Secret''\<rparr>"
  have f: "NamespacedKindFor ex_mapper \<lparr>gr_group = '''', gr_resource = ''secrets''\<rparr> = Inr ?gvk"
    "\<not> list_ex (maps_to ex_mapper ?gvk) EnforcedTypes"
    "list_all (\<lambda>x. maps_to ex_mapper ?gvk x \<longrightarrow> rs_group x = '''' \<and> rs_resource x = ''secrets'') (cfg_resources (ex_hnc [ex_spec Remove]))"
    "normalizeMode (\<lambda>s. s) ''Propagate'' = Propagate" by code_simp+
  have sv: "sv_HNCConfig ex_config_server = Found (ex_hnc [ex_spec Remove])" by (simp add: ex_config_server_def)
  have "case set_resource_cmd (\<lambda>s. s) ex_config_server '''' ''Propagate'' False ''secrets'' ex_terminal of Return u t \<Rightarrow> True | Exit t \<Rightarrow> False"
    by code_simp
  then obtain t' where t': "set_resource_cmd (\<lambda>s. s) ex_config_server '''' ''Propagate'' False ''secrets'' ex_terminal = Return () t'"
    by (auto split: outcome.splits)
  obtain cfg' where c: "t_writes t' = t_writes ex_terminal @ [PutHNCConfig cfg']" "\<And>now e inst e' g.
      reconcileTypes now ex_mapper cfg' e = (None, inst, e') \<Longrightarrow> active_mode e' g = (if g = ?gvk then Some (normalizeMode (\<lambda>s. s) ''Propagate'')
        else map_option rs_mode (find (maps_to ex_mapper g) (EnforcedTypes @ cfg_resources (ex_hnc [ex_spec Remove]))))"
    using set_resource_takes_effect [OF sv t' f(1) f(3) [unfolded list_all_iff] f(2)] by (auto simp: ex_hnc_def)
  show ?thesis
    using t' c(1) c(2) [of _ _ _ _ ?gvk] f(4) by (intro exI [of _ t'] exI [of _ cfg']) (simp add: ex_terminal_def)
qed

section \<open>Quotas and hierarchy\<close>

text \<open>The columns of \<^verbatim>\<open>kubectl hns hrq\<close> are the summaries that the reconciler stores in the status.\<close>

lemma printHierarchicalResourceQuota_columns:
  "printHierarchicalResourceQuota qstr age hrq = [hrq_name hrq, translateTimestampSince age (hrq_creationTimestamp hrq),
     summary qstr hrq (filter (\<lambda>rn. \<not> is_limit rn) (sort (keys (hrq_status_hard hrq)))),
     summary qstr hrq (filter is_limit (sort (keys (hrq_status_hard hrq))))]"
proof -
  let ?cell = "\<lambda>rn. rn @ '': '' @ qstr (qty (hrq_status_used hrq) rn) @ ''/'' @ qstr (qty (hrq_status_hard hrq) rn) @ '', ''"
  have "fold (\<lambda>rn (req, lim). if length (Split rn (CHR ''.'')) > 1 \<and> hd (Split rn (CHR ''.'')) = ''limits''
        then (req, lim @ ?cell rn) else (req @ ?cell rn, lim)) rns (r, l) =
      (r @ concat (map ?cell (filter (\<lambda>rn. \<not> is_limit rn) rns)), l @ concat (map ?cell (filter is_limit rns)))" for rns r l
    by (induction rns arbitrary: r l) (auto simp: is_limit_def Let_def)
  then show ?thesis by (simp only: printHierarchicalResourceQuota_def summary_def Let_def prod.case append_Nil)
qed

lemma printed_summaries:
  assumes "syncUsages qstr inst f = Some (inst', g)" "\<not> isDeleted inst"
  shows "printHierarchicalResourceQuota qstr age inst' = [hrq_name inst', translateTimestampSince age (hrq_creationTimestamp inst'),
     hrq_requestsSummary inst', hrq_limitsSummary inst']"
  using assms by (auto simp: syncUsages_def printHierarchicalResourceQuota_columns Let_def summary_def bind_eq_Some_conv)

text \<open>\<^verbatim>\<open>kubectl hns set\<close> writes exactly if the parent or the flag changes, and writes the requested values.\<close>

lemma updateHC_writes:
  assumes "getHierarchy sv nnm t = Return hc t" "\<not> (up_root u \<and> up_parent u \<noteq> '''')" "\<not> (up_allowCD u \<and> up_forbidCD u)"
    and "updateHC sv u nnm t = Return () t'"
  defines "parent \<equiv> if up_root u then '''' else if up_parent u = '''' then hc_parent hc else up_parent u"
    and "allow \<equiv> if up_allowCD u then True else if up_forbidCD u then False else hc_allowCascadingDeletion hc"
  shows "t_writes t' = t_writes t @ (if parent = hc_parent hc \<and> allow = hc_allowCascadingDeletion hc then []
    else [let hc' = hc\<lparr>hc_parent := parent, hc_allowCascadingDeletion := allow\<rparr>
          in if IsZero (hc_creationTimestamp hc) then PostHierarchy hc' else PutHierarchy hc'])"
  using assms(1-4) unfolding parent_def allow_def
  by (auto simp: updateHC_def setRoot_def setParent_def setAllowCascadingDeletion_def updateHierarchy_def send_def Let_def
      println_def emit_def split: if_splits option.splits)

end
