(* ===== verification/ApiExtension.thy ===== *)
theory ApiExtension
  imports Conditions "HOL-Library.Product_Lexorder"
begin

text \<open>
  The API extension server, which lists the objects of a namespace and of all its descendants
  (src/internal/apiextension): the cache of the resource types of the cluster, the authentication of
  the aggregator, and the HTTP handlers.

  The workers that \<^verbatim>\<open>listHandler\<close> starts run concurrently; they are a step relation over the list
  of the running workers, with one step for every call to the API server and for every value sent on a
  channel, so every interleaving is a sequence of steps. Discovery, the clients, the cache of namespaces,
  the REST mapper, the parser of label selectors and JSON are parameters. Encoding a response, the stream
  of events of a watch and the round tripper that asks for tables are not modelled.
\<close>

section \<open>Resource types (apiresources.go)\<close>

record APIResource =
  ar_Name :: string
  ar_Group :: string
  ar_Version :: string
  ar_Kind :: string
  ar_Verbs :: "string list"
  ar_Namespaced :: bool
  ar_ShortNames :: "string list"
  ar_StorageVersionHash :: string

text \<open>What the discovery client returns: a list of resources for every group and version.\<close>

record APIResourceList =
  arl_GroupVersion :: string
  arl_APIResources :: "APIResource list"

record apiResourceWatcher =
  w_toSync :: bool
  w_apiResources :: "APIResource list"
  w_resourceMap :: "(string, APIResource) gomap"
  w_retries :: nat

record GroupVersionResource =
  gvr_group :: string
  gvr_version :: string
  gvr_resource :: string

definition ResourcesGroupVersion :: string where
  "ResourcesGroupVersion = ''resources.hnc.x-k8s.io/v1alpha2''"

definition WatchAPIResources :: apiResourceWatcher where
  "WatchAPIResources = \<lparr>w_toSync = False, w_apiResources = [], w_resourceMap = [], w_retries = 0\<rparr>"

definition List_api :: "apiResourceWatcher \<Rightarrow> APIResource list" where
  "List_api a = w_apiResources a"

definition Get_api :: "apiResourceWatcher \<Rightarrow> string \<Rightarrow> string \<Rightarrow> APIResource option" where
  "Get_api a resource grp =
     (if grp = '''' then map_of (w_resourceMap a) resource
      else map_of (w_resourceMap a) (grp @ ''.'' @ resource))"

text \<open>An error of the API server; \<open>%w\<close> keeps whether it is a \<^verbatim>\<open>NotFound\<close>.\<close>

datatype ApiError = NotFound string | OtherError string

fun wrap_error :: "string \<Rightarrow> ApiError \<Rightarrow> ApiError" where
  "wrap_error msg (NotFound s) = NotFound (msg @ s)"
| "wrap_error msg (OtherError s) = OtherError (msg @ s)"

definition GetKindForResource :: "(GroupVersionResource \<Rightarrow> ApiError + GroupVersionKind) \<Rightarrow> GroupVersionResource \<Rightarrow> ApiError + string" where
  "GetKindForResource kindFor gvr = (case kindFor gvr of
       Inl err \<Rightarrow> Inl (wrap_error (''failed to look up kind for resource '' @ gvr_resource gvr @ '', '') err)
     | Inr gvk \<Rightarrow> Inr (gvk_kind gvk))"

definition group_version :: "string \<Rightarrow> string \<times> string" where
  "group_version s = (let gv = Split s (CHR ''/'') in if length gv > 1 then (gv ! 0, gv ! 1) else ('''', gv ! 0))"

definition api_resource :: "(string \<Rightarrow> string \<Rightarrow> string \<Rightarrow> string) \<Rightarrow> string \<Rightarrow> string \<Rightarrow> APIResource \<Rightarrow> APIResource" where
  "api_resource hash grp version r =
     \<lparr>ar_Name = (if grp \<noteq> '''' then grp @ ''.'' @ ar_Name r else ar_Name r), ar_Group = grp, ar_Version = version,
      ar_Kind = ar_Kind r, ar_Verbs = [''list'', ''watch''], ar_Namespaced = True, ar_ShortNames = ar_ShortNames r,
      ar_StorageVersionHash = hash grp version (ar_Kind r)\<rparr>"

definition setAPIResources :: "(string \<Rightarrow> string \<Rightarrow> string \<Rightarrow> string) \<Rightarrow> string + APIResourceList list \<Rightarrow> apiResourceWatcher \<Rightarrow>
    string option \<times> apiResourceWatcher" where
  "setAPIResources hash discovered a = (case discovered of
       Inl err \<Rightarrow> (Some err, a)
     | Inr resourceList \<Rightarrow>
         (let (result, m) = fold (\<lambda>resource (result, m).
                if arl_GroupVersion resource = ResourcesGroupVersion then (result, m)
                else (case group_version (arl_GroupVersion resource) of (grp, version) \<Rightarrow>
                  fold (\<lambda>r (result, m). let resource = api_resource hash grp version r in
                      (result @ [resource], AList.update (ar_Name resource) resource m))
                    (arl_APIResources resource) (result, m)))
              resourceList ([], w_resourceMap a)
          in (None, a\<lparr>w_resourceMap := m, w_apiResources := result\<rparr>)))"

text \<open>The flag is an \<^verbatim>\<open>int32\<close> that is only ever 0 or 1; it is swapped atomically.\<close>

definition needToSync :: "apiResourceWatcher \<Rightarrow> bool \<times> apiResourceWatcher" where
  "needToSync a = (w_toSync a, a\<lparr>w_toSync := False\<rparr>)"

definition refreshAll :: "(string \<Rightarrow> string \<Rightarrow> string \<Rightarrow> string) \<Rightarrow> string + APIResourceList list \<Rightarrow> apiResourceWatcher \<Rightarrow>
    string option \<times> apiResourceWatcher" where
  "refreshAll hash discovered a = (case needToSync a of (need, a) \<Rightarrow>
     if \<not> need then (None, a) else setAPIResources hash discovered a)"

text \<open>
  An event of a definition or of a retry sets the flag at once; the body of the goroutine runs later.
  A goroutine that fails asks for a retry.
\<close>

definition queueRefresh :: "apiResourceWatcher \<Rightarrow> apiResourceWatcher" where
  "queueRefresh a = a\<lparr>w_toSync := True\<rparr>"

definition queued_refresh :: "(string \<Rightarrow> string \<Rightarrow> string \<Rightarrow> string) \<Rightarrow> string + APIResourceList list \<Rightarrow> apiResourceWatcher \<Rightarrow> apiResourceWatcher" where
  "queued_refresh hash discovered a = (case refreshAll hash discovered a of
       (None, a) \<Rightarrow> a
     | (Some err, a) \<Rightarrow> a\<lparr>w_toSync := True, w_retries := w_retries a + 1\<rparr>)"

section \<open>Requests (handlers.go)\<close>

definition allowedCNKey :: string where
  "allowedCNKey = ''requestheader-allowed-names''"

definition workers :: nat where
  "workers = 3"

definition hnsLabelSuffix :: string where
  "hnsLabelSuffix = ''.tree.hnc.x-k8s.io/depth''"

text \<open>
  The middleware: the calls to \<^verbatim>\<open>http.Error\<close> with which it answers, or none if the request is passed on.
  After the error for a configuration without the key the code goes on, with the empty text.
\<close>

definition AuthenticateMiddleware :: "(string \<Rightarrow> string + string list) \<Rightarrow> string + (string, string) gomap \<Rightarrow> string list \<Rightarrow> (nat \<times> string) list \<times> bool" where
  "AuthenticateMiddleware unmarshal config peerCNs = (case peerCNs of
       [] \<Rightarrow> ([(401, ''user is not authenticated'')], False)
     | requestCN # _ \<Rightarrow> (case config of
           Inl err \<Rightarrow> ([(500, ''could not authenticate API server, error: '' @ err)], False)
         | Inr data \<Rightarrow>
             (let errs = (if has_key data allowedCNKey then []
                          else [(500, ''could not authenticate API server, invalid extension config'')])
              in case unmarshal (get_str data allowedCNKey) of
                   Inl err \<Rightarrow> (errs @ [(500, ''could not authenticate API server, error: '' @ err)], False)
                 | Inr allowedCN \<Rightarrow>
                     if requestCN \<notin> set allowedCN
                     then (errs @ [(401, ''user '' @ requestCN @ '' not allowed'')], False)
                     else (errs, True))))"

record UnstructuredList =
  ul_object :: "(string, json) gomap"
  ul_items :: "Unstructured list"
  ul_resourceVersion :: string

text \<open>The answers of the clients: \<open>as_watch None\<close> watches all namespaces.\<close>

record ApiServer =
  as_client :: "GroupVersionResource \<Rightarrow> string option"
  as_parse :: "string \<Rightarrow> string + ((string, string) gomap \<Rightarrow> bool)"
  as_namespaces :: "((string, string) gomap \<Rightarrow> bool) \<Rightarrow> string + NamespaceInst list"
  as_watch :: "string option \<Rightarrow> ApiError option"
  as_listAll :: "ApiError + UnstructuredList"
  as_list :: "string \<Rightarrow> ApiError + UnstructuredList option"
  as_listOne :: "ApiError + UnstructuredList"
  as_kindFor :: "GroupVersionResource \<Rightarrow> ApiError + GroupVersionKind"

datatype HttpResponse =
    HttpError nat string
  | Resources "APIResource list"
  | Forwarded UnstructuredList
  | Watching "string option list"
  | ResponseData string string string "Unstructured list"
  | ResponseTable string "json list option" "json list"

fun error_text :: "ApiError \<Rightarrow> string" where
  "error_text (NotFound s) = s"
| "error_text (OtherError s) = s"

text \<open>The response of \<^verbatim>\<open>isErrorAndHandleError\<close> to an error.\<close>

fun handleError :: "ApiError \<Rightarrow> HttpResponse" where
  "handleError (NotFound s) = HttpError 404 s"
| "handleError (OtherError s) = HttpError 500 s"

definition DiscoveryHandler :: "apiResourceWatcher \<Rightarrow> HttpResponse" where
  "DiscoveryHandler apis = Resources (List_api apis)"

definition gvrFromVars :: "(string, string) gomap \<Rightarrow> apiResourceWatcher \<Rightarrow> string + GroupVersionResource" where
  "gvrFromVars vars apis =
     (let groupResource = Split (get_str vars ''resource'') (CHR ''.'');
          grp = (if length groupResource > 1 then Join (butlast groupResource) ''.'' else '''');
          resourceName = last groupResource
      in case Get_api apis resourceName grp of
           None \<Rightarrow> Inl (''could not find resource '' @ get_str vars ''resource'')
         | Some resource \<Rightarrow> Inr \<lparr>gvr_group = grp, gvr_version = ar_Version resource, gvr_resource = resourceName\<rparr>)"

fun open_watchers :: "ApiServer \<Rightarrow> string list \<Rightarrow> string option list \<Rightarrow> ApiError + string option list" where
  "open_watchers sv [] watchers = Inr watchers"
| "open_watchers sv (ns # nss) watchers = (case as_watch sv (Some ns) of
       Some err \<Rightarrow> Inl err
     | None \<Rightarrow> open_watchers sv nss (watchers @ [Some ns]))"

definition getWatchers :: "ApiServer \<Rightarrow> string list \<Rightarrow> ApiError + string option list" where
  "getWatchers sv namespaces =
     (if length namespaces = 0
      then (case as_watch sv None of Some err \<Rightarrow> Inl err | None \<Rightarrow> Inr [None])
      else open_watchers sv namespaces [])"

definition Forwarder :: "ApiServer \<Rightarrow> apiResourceWatcher \<Rightarrow> (string, string) gomap \<Rightarrow> bool \<Rightarrow> HttpResponse" where
  "Forwarder sv apis vars watch = (case gvrFromVars vars apis of
       Inl err \<Rightarrow> HttpError 404 err
     | Inr resource \<Rightarrow> (case as_client sv resource of
           Some err \<Rightarrow> HttpError 500 err
         | None \<Rightarrow>
             if watch then (case getWatchers sv [] of Inl err \<Rightarrow> handleError err | Inr ws \<Rightarrow> Watching ws)
             else (case as_listAll sv of Inl err \<Rightarrow> handleError err | Inr resources \<Rightarrow> Forwarded resources)))"

section \<open>Listing the objects of several namespaces\<close>

text \<open>A type assertion to \<^verbatim>\<open>[]interface{}\<close>, nil if it fails.\<close>

fun as_array :: "json option \<Rightarrow> json list option" where
  "as_array (Some (JArr xs)) = Some xs"
| "as_array j = None"

definition ul_rows :: "UnstructuredList \<Rightarrow> json list" where
  "ul_rows l = (case as_array (map_of (ul_object l) ''rows'') of None \<Rightarrow> [] | Some rows \<Rightarrow> rows)"

definition ul_columns :: "UnstructuredList \<Rightarrow> json list option" where
  "ul_columns l = as_array (map_of (ul_object l) ''columnDefinitions'')"

text \<open>\<^verbatim>\<open>strconv.Atoi\<close>, and zero after an error, which a number that does not fit into 64 bits gives too.\<close>

definition parse_version :: "string \<Rightarrow> int" where
  "parse_version s = (let (neg, ds) = (case s of
        c # cs \<Rightarrow> if c = CHR ''-'' then (True, cs) else if c = CHR ''+'' then (False, cs) else (False, s)
      | [] \<Rightarrow> (False, []))
    in if ds = [] then 0
       else (case digits ds 0 of None \<Rightarrow> 0
             | Some i \<Rightarrow> (let n = (if neg then - i else i) in if - (2 ^ 63) \<le> n \<and> n < 2 ^ 63 then n else 0)))"

text \<open>
  A worker calls the API server for its namespace, and then sends the resource version, the rows and the
  items that are left. \<open>ls_err\<close> is the first error, which the group of workers keeps and which cancels
  their context; \<open>ls_refused\<close> says that the loop stopped because of that.
\<close>

datatype Worker = Fetching string | Sending "int list" "json list" "Unstructured list"

record ListState =
  ls_waiting :: "string list"
  ls_running :: "Worker list"
  ls_items :: "Unstructured list"
  ls_rows :: "json list"
  ls_latest :: int
  ls_columns :: "json list option"
  ls_err :: "ApiError option"
  ls_refused :: bool

definition list_start :: "string list \<Rightarrow> ListState" where
  "list_start namespaces = \<lparr>ls_waiting = namespaces, ls_running = [], ls_items = [], ls_rows = [], ls_latest = 0,
     ls_columns = None, ls_err = None, ls_refused = False\<rparr>"

definition sends :: "UnstructuredList \<Rightarrow> Worker" where
  "sends l = Sending (if length (ul_items l) > 0 \<or> length (ul_rows l) > 0 then [parse_version (ul_resourceVersion l)] else [])
     (ul_rows l) (ul_items l)"

text \<open>One step of a worker: what is left of it, and the state.\<close>

fun work :: "(string \<Rightarrow> ApiError + UnstructuredList option) \<Rightarrow> Worker \<Rightarrow> ListState \<Rightarrow> Worker option \<times> ListState" where
  "work answer (Fetching ns) s = (case answer ns of
       Inl err \<Rightarrow> (None, s\<lparr>ls_err := (case ls_err s of None \<Rightarrow> Some err | Some e \<Rightarrow> Some e)\<rparr>)
     | Inr None \<Rightarrow> (None, s)
     | Inr (Some l) \<Rightarrow> (Some (sends l), s\<lparr>ls_columns := ul_columns l\<rparr>))"
| "work answer (Sending (rv # rvs) rows items) s =
     (Some (Sending rvs rows items), s\<lparr>ls_latest := (if rv > ls_latest s then rv else ls_latest s)\<rparr>)"
| "work answer (Sending [] (r # rows) items) s = (Some (Sending [] rows items), s\<lparr>ls_rows := ls_rows s @ [r]\<rparr>)"
| "work answer (Sending [] [] (i # items)) s = (Some (Sending [] [] items), s\<lparr>ls_items := ls_items s @ [i]\<rparr>)"
| "work answer (Sending [] [] []) s = (None, s)"

text \<open>
  The loop starts a worker when the semaphore has a place left, or gives up once the context is cancelled;
  any of the running workers makes the next step.
\<close>

inductive list_step :: "(string \<Rightarrow> ApiError + UnstructuredList option) \<Rightarrow> ListState \<Rightarrow> ListState \<Rightarrow> bool" for answer where
  start: "ls_waiting s = ns # nss \<Longrightarrow> length (ls_running s) < workers \<Longrightarrow>
    list_step answer s (s\<lparr>ls_waiting := nss, ls_running := ls_running s @ [Fetching ns]\<rparr>)"
| refuse: "ls_waiting s \<noteq> [] \<Longrightarrow> ls_err s \<noteq> None \<Longrightarrow>
    list_step answer s (s\<lparr>ls_waiting := [], ls_refused := True\<rparr>)"
| run: "ls_running s = ws @ w # ws' \<Longrightarrow> work answer w s = (w', s') \<Longrightarrow>
    list_step answer s (s'\<lparr>ls_running := ws @ (case w' of None \<Rightarrow> [] | Some w \<Rightarrow> [w]) @ ws'\<rparr>)"

inductive_cases list_stepE: "list_step answer s s'"

definition list_done :: "ListState \<Rightarrow> bool" where
  "list_done s = (ls_waiting s = [] \<and> ls_running s = [])"

text \<open>
  The order of \<^verbatim>\<open>sortItems\<close> and \<^verbatim>\<open>sortRows\<close>: by namespace, then by name. Two rows without an object
  are equal in this order, and \<^verbatim>\<open>sort.Slice\<close> does not say how it arranges equal elements.
\<close>

definition item_key :: "Unstructured \<Rightarrow> string \<times> string" where
  "item_key i = (obj_namespace i, obj_name i)"

fun json_field :: "string \<Rightarrow> json option \<Rightarrow> json option" where
  "json_field k (Some (JObj m)) = map_of m k"
| "json_field k j = None"

definition json_string :: "json option \<Rightarrow> string" where
  "json_string j = (case j of Some (JStr s) \<Rightarrow> s | _ \<Rightarrow> '''')"

definition row_key :: "json \<Rightarrow> string \<times> string" where
  "row_key r = (let m = json_field ''metadata'' (json_field ''object'' (Some r)) in
     (json_string (json_field ''namespace'' m), json_string (json_field ''name'' m)))"

definition sortItems :: "Unstructured list \<Rightarrow> Unstructured list" where
  "sortItems items = sort_key item_key items"

definition sortRows :: "json list \<Rightarrow> json list" where
  "sortRows rows = sort_key row_key rows"

definition emptyResourceVersion :: "ApiServer \<Rightarrow> GroupVersionResource \<Rightarrow> ApiError + string" where
  "emptyResourceVersion sv gvr = (case as_listOne sv of
       Inl err \<Rightarrow> Inl (wrap_error (''failed to get resource version for resource '' @ gvr_resource gvr @ '': '') err)
     | Inr l \<Rightarrow> Inr (ul_resourceVersion l))"

text \<open>\<^verbatim>\<open>GroupVersion.String\<close>\<close>

definition groupVersion_string :: "GroupVersionResource \<Rightarrow> string" where
  "groupVersion_string gvr = (if gvr_group gvr = '''' then gvr_version gvr else gvr_group gvr @ ''/'' @ gvr_version gvr)"

text \<open>What the handler does with what the workers gathered.\<close>

definition list_response :: "ApiServer \<Rightarrow> GroupVersionResource \<Rightarrow> ListState \<Rightarrow> HttpResponse" where
  "list_response sv resource s =
     (if ls_refused s then HttpError 500 ''context canceled''
      else case ls_err s of
        Some err \<Rightarrow> handleError err
      | None \<Rightarrow>
          (let itemsList = sortItems (ls_items s); rowList = sortRows (ls_rows s);
               resourceVersion = Itoa (ls_latest s)
           in case (if resourceVersion = ''0'' then emptyResourceVersion sv resource else Inr resourceVersion) of
                Inl err \<Rightarrow> handleError err
              | Inr resourceVersion \<Rightarrow>
                  if length rowList > 0 then ResponseTable resourceVersion (ls_columns s) rowList
                  else (case GetKindForResource (as_kindFor sv) resource of
                      Inl err \<Rightarrow> handleError err
                    | Inr kind \<Rightarrow> ResponseData (groupVersion_string resource) (kind @ ''List'') resourceVersion itemsList)))"

text \<open>A response that some interleaving of the workers gives.\<close>

inductive listHandler :: "ApiServer \<Rightarrow> GroupVersionResource \<Rightarrow> string list \<Rightarrow> HttpResponse \<Rightarrow> bool" for sv resource namespaces where
  "(list_step (as_list sv))\<^sup>*\<^sup>* (list_start namespaces) s \<Longrightarrow> list_done s \<Longrightarrow>
   listHandler sv resource namespaces (list_response sv resource s)"

inductive_simps listHandler_iff: "listHandler sv resource namespaces resp"

definition NamespaceHandler :: "ApiServer \<Rightarrow> apiResourceWatcher \<Rightarrow> (string, string) gomap \<Rightarrow> bool \<Rightarrow> HttpResponse \<Rightarrow> bool" where
  "NamespaceHandler sv apis vars watch resp = (case gvrFromVars vars apis of
       Inl err \<Rightarrow> resp = HttpError 404 err
     | Inr resource \<Rightarrow> (case as_client sv resource of
           Some err \<Rightarrow> resp = HttpError 500 err
         | None \<Rightarrow> (case as_parse sv (get_str vars ''namespace'' @ hnsLabelSuffix) of
               Inl err \<Rightarrow> resp = HttpError 500 err
             | Inr selector \<Rightarrow> (case as_namespaces sv selector of
                   Inl err \<Rightarrow> resp = HttpError 500 err
                 | Inr namespaces \<Rightarrow>
                     if watch then (case getWatchers sv (map nsi_name namespaces) of
                         Inl err \<Rightarrow> resp = HttpError 404 (error_text err)
                       | Inr watchers \<Rightarrow> resp = Watching watchers)
                     else listHandler sv resource (map nsi_name namespaces) resp))))"

end
