(* ===== verification/Stats.thy ===== *)
theory Stats
  imports HNC_API "HOL-Library.Word"
begin

text \<open>
  The statistics of the reconcilers (src/internal/stats): 32-bit counters, the peaks of concurrent
  reconciliations, and the measurements that are recorded.

  A measurement is the name of its measure, the kind it is tagged with, and the value; exporting it is
  OpenCensus. An operation that reads the counters of a kind that never started dereferences a nil
  pointer, which is \<open>None\<close>. The operations are first modelled as if each ran alone; the last section
  gives the two memory accesses of a counter update, which other goroutines can interleave with.
\<close>

section \<open>Counters (counter.go)\<close>

type_synonym counter = "32 word"

definition incr :: "counter \<Rightarrow> counter" where
  "incr c = c + 1"

definition decr :: "counter \<Rightarrow> counter" where
  "decr c = c - 1"

text \<open>Every 32-bit number is exact as a \<^verbatim>\<open>float64\<close>, so the detour compares the signed values.\<close>

definition max_counter :: "counter \<Rightarrow> counter \<Rightarrow> counter" where
  "max_counter a b = (if sint a \<ge> sint b then a else b)"

section \<open>Operations (stats.go, metrics.go)\<close>

record object_stat =
  totalReconciles :: counter
  curReconciles :: counter
  apiWrites :: counter
  totalOverwrites :: counter

type_synonym measurement = "string \<times> string option \<times> int"

text \<open>The variables \<^verbatim>\<open>stats\<close> and \<^verbatim>\<open>peak\<close>, and what has been recorded.\<close>

record stat =
  actionID :: counter
  totalHierConfigReconciles :: counter
  curHierConfigReconciles :: counter
  hierConfigWrites :: counter
  namespaceWrites :: counter
  stat_objects :: "(GroupKind, object_stat) gomap"
  peakHierConfigReconcile :: counter
  peakObjectReconcile :: "(GroupKind, counter) gomap"
  suppressObjectTags :: bool
  recorded :: "measurement list"

definition init_stats :: "bool \<Rightarrow> stat" where
  "init_stats suppress = \<lparr>actionID = 1, totalHierConfigReconciles = 0, curHierConfigReconciles = 0, hierConfigWrites = 0,
     namespaceWrites = 0, stat_objects = [], peakHierConfigReconcile = 0, peakObjectReconcile = [],
     suppressObjectTags = suppress, recorded = []\<rparr>"

text \<open>\<^verbatim>\<open>GroupKind.String\<close>\<close>

definition groupKind_string :: "GroupKind \<Rightarrow> string" where
  "groupKind_string gk = (if gk_group gk = '''' then gk_kind gk else gk_kind gk @ ''.'' @ gk_group gk)"

definition recordMetric :: "counter \<Rightarrow> string \<Rightarrow> stat \<Rightarrow> stat" where
  "recordMetric m ms s = s\<lparr>recorded := recorded s @ [(ms, None, sint m)]\<rparr>"

definition recordObjectMetric :: "counter \<Rightarrow> string \<Rightarrow> GroupKind \<Rightarrow> stat \<Rightarrow> stat" where
  "recordObjectMetric m ms gk s =
     s\<lparr>recorded := recorded s @ [(ms, if \<not> suppressObjectTags s then Some (groupKind_string gk) else None, sint m)]\<rparr>"

definition group_kind :: "GroupVersionKind \<Rightarrow> GroupKind" where
  "group_kind gvk = \<lparr>gk_group = gvk_group gvk, gk_kind = gvk_kind gvk\<rparr>"

definition StartHierConfigReconcile :: "stat \<Rightarrow> stat" where
  "StartHierConfigReconcile s =
     (let s = s\<lparr>totalHierConfigReconciles := incr (totalHierConfigReconciles s),
                curHierConfigReconciles := incr (curHierConfigReconciles s)\<rparr>;
          s = recordMetric (totalHierConfigReconciles s) ''hierconfig_reconcile_total'' s
      in s\<lparr>peakHierConfigReconcile := max_counter (peakHierConfigReconcile s) (curHierConfigReconciles s)\<rparr>)"

definition StopHierConfigReconcile :: "stat \<Rightarrow> stat" where
  "StopHierConfigReconcile s = s\<lparr>curHierConfigReconciles := decr (curHierConfigReconciles s)\<rparr>"

definition new_object :: object_stat where
  "new_object = \<lparr>totalReconciles = 0, curReconciles = 0, apiWrites = 0, totalOverwrites = 0\<rparr>"

definition update_object :: "GroupKind \<Rightarrow> (object_stat \<Rightarrow> object_stat) \<Rightarrow> stat \<Rightarrow> (object_stat \<times> stat) option" where
  "update_object gk u s = (case map_of (stat_objects s) gk of
       None \<Rightarrow> None
     | Some ob \<Rightarrow> Some (u ob, s\<lparr>stat_objects := AList.update gk (u ob) (stat_objects s)\<rparr>))"

definition StartObjReconcile :: "GroupVersionKind \<Rightarrow> stat \<Rightarrow> stat option" where
  "StartObjReconcile gvk s =
     (let gk = group_kind gvk;
          s = (if \<not> has_key (stat_objects s) gk then s\<lparr>stat_objects := AList.update gk new_object (stat_objects s)\<rparr> else s)
      in case update_object gk (\<lambda>ob. ob\<lparr>totalReconciles := incr (totalReconciles ob), curReconciles := incr (curReconciles ob)\<rparr>) s of
           None \<Rightarrow> None
         | Some (ob, s) \<Rightarrow>
             (let s = recordObjectMetric (totalReconciles ob) ''object_reconcile_total'' gk s;
                  old = (case map_of (peakObjectReconcile s) gk of None \<Rightarrow> 0 | Some c \<Rightarrow> c)
              in Some (s\<lparr>peakObjectReconcile := AList.update gk (max_counter old (curReconciles ob)) (peakObjectReconcile s)\<rparr>)))"

definition StopObjReconcile :: "GroupVersionKind \<Rightarrow> stat \<Rightarrow> stat option" where
  "StopObjReconcile gvk s =
     map_option snd (update_object (group_kind gvk) (\<lambda>ob. ob\<lparr>curReconciles := decr (curReconciles ob)\<rparr>) s)"

definition WriteNamespace :: "stat \<Rightarrow> stat" where
  "WriteNamespace s = (let s = s\<lparr>namespaceWrites := incr (namespaceWrites s)\<rparr> in
     recordMetric (namespaceWrites s) ''namespace_writes_total'' s)"

definition WriteHierConfig :: "stat \<Rightarrow> stat" where
  "WriteHierConfig s = (let s = s\<lparr>hierConfigWrites := incr (hierConfigWrites s)\<rparr> in
     recordMetric (hierConfigWrites s) ''hierconfig_writes_total'' s)"

definition WriteObject :: "GroupVersionKind \<Rightarrow> stat \<Rightarrow> stat option" where
  "WriteObject gvk s = map_option (\<lambda>(ob, s). recordObjectMetric (apiWrites ob) ''object_writes_total'' (group_kind gvk) s)
     (update_object (group_kind gvk) (\<lambda>ob. ob\<lparr>apiWrites := incr (apiWrites ob)\<rparr>) s)"

definition OverwriteObject :: "GroupVersionKind \<Rightarrow> stat \<Rightarrow> stat option" where
  "OverwriteObject gvk s = map_option (\<lambda>(ob, s). recordObjectMetric (totalOverwrites ob) ''object_overwrites_total'' (group_kind gvk) s)
     (update_object (group_kind gvk) (\<lambda>ob. ob\<lparr>totalOverwrites := incr (totalOverwrites ob)\<rparr>) s)"

text \<open>One round of the loop that reports the peaks; the loop holds the lock and iterates over the kinds.\<close>

definition recordPeakConcurrentReconciles :: "stat \<Rightarrow> stat" where
  "recordPeakConcurrentReconciles s =
     (let s = recordMetric (peakHierConfigReconcile s) ''hierconfig_reconcile_concurrent_peak'' s;
          s = s\<lparr>peakHierConfigReconcile := 0\<rparr>
      in fold (\<lambda>(gk, c) s. (recordObjectMetric c ''object_reconcile_concurrent_peak'' gk s)
             \<lparr>peakObjectReconcile := AList.update gk 0 (peakObjectReconcile s)\<rparr>)
           (peakObjectReconcile s) s)"

definition sum_objects :: "(object_stat \<Rightarrow> counter) \<Rightarrow> stat \<Rightarrow> counter" where
  "sum_objects g s = fold (\<lambda>(gk, ob) total. total + g ob) (stat_objects s) 0"

definition getTotalObjReconciles :: "stat \<Rightarrow> counter" where
  "getTotalObjReconciles = sum_objects totalReconciles"
definition getCurObjReconciles :: "stat \<Rightarrow> counter" where
  "getCurObjReconciles = sum_objects curReconciles"
definition getObjWrites :: "stat \<Rightarrow> counter" where
  "getObjWrites = sum_objects apiWrites"
definition getObjOverwrites :: "stat \<Rightarrow> counter" where
  "getObjOverwrites = sum_objects totalOverwrites"

text \<open>
  One round of the activity log: the status that is logged, if any, with the number of the action, and the
  variables of the loop (the last total, the last number of running reconciliations, and whether the
  controllers were working).
\<close>

definition logging :: "counter \<times> counter \<times> bool \<Rightarrow> stat \<Rightarrow> (counter \<times> string) option \<times> (counter \<times> counter \<times> bool) \<times> stat" where
  "logging v s = (case v of (lastTotal, lastCur, working) \<Rightarrow>
     (let total = totalHierConfigReconciles s + getTotalObjReconciles s;
          (entry, working, s) =
            (if total \<noteq> lastTotal \<or> lastCur \<noteq> 0
             then (Some (actionID s, if \<not> working then ''start'' else ''continue''), True, s)
             else if working then (Some (actionID s, ''finish''), False, s\<lparr>actionID := incr (actionID s)\<rparr>)
             else (None, False, s))
      in (entry, (total, curHierConfigReconciles s + getCurObjReconciles s, working), s)))"

section \<open>What the counters count\<close>

datatype StatEvent =
    StartHC | StopHC | StartObj GroupVersionKind | StopObj GroupVersionKind
  | WriteNs | WriteHC | WriteObj GroupVersionKind | OverwriteObj GroupVersionKind | Report

fun stat_event :: "StatEvent \<Rightarrow> stat \<Rightarrow> stat option" where
  "stat_event StartHC s = Some (StartHierConfigReconcile s)"
| "stat_event StopHC s = Some (StopHierConfigReconcile s)"
| "stat_event (StartObj gvk) s = StartObjReconcile gvk s"
| "stat_event (StopObj gvk) s = StopObjReconcile gvk s"
| "stat_event WriteNs s = Some (WriteNamespace s)"
| "stat_event WriteHC s = Some (WriteHierConfig s)"
| "stat_event (WriteObj gvk) s = WriteObject gvk s"
| "stat_event (OverwriteObj gvk) s = OverwriteObject gvk s"
| "stat_event Report s = Some (recordPeakConcurrentReconciles s)"

fun stat_events :: "StatEvent list \<Rightarrow> stat \<Rightarrow> stat option" where
  "stat_events [] s = Some s"
| "stat_events (e # es) s = (case stat_event e s of None \<Rightarrow> None | Some s \<Rightarrow> stat_events es s)"

definition started :: "stat \<Rightarrow> GroupKind set" where
  "started s = dom (map_of (stat_objects s))"

definition cur_of :: "stat \<Rightarrow> GroupKind \<Rightarrow> counter" where
  "cur_of s gk = (case map_of (stat_objects s) gk of None \<Rightarrow> 0 | Some ob \<Rightarrow> curReconciles ob)"

lemma record_simps [simp]:
  "stat_objects (recordMetric m ms s) = stat_objects s" "stat_objects (recordObjectMetric m ms gk s) = stat_objects s"
  "curHierConfigReconciles (recordMetric m ms s) = curHierConfigReconciles s"
  "curHierConfigReconciles (recordObjectMetric m ms gk s) = curHierConfigReconciles s"
  by (simp_all add: recordMetric_def recordObjectMetric_def)

lemma report_keeps:
  "stat_objects (recordPeakConcurrentReconciles s) = stat_objects s \<and>
   curHierConfigReconciles (recordPeakConcurrentReconciles s) = curHierConfigReconciles s"
proof -
  have "stat_objects (fold (\<lambda>(gk, c) s. (recordObjectMetric c ms gk s)\<lparr>peakObjectReconcile := AList.update gk 0 (peakObjectReconcile s)\<rparr>) ps t) =
      stat_objects t \<and>
    curHierConfigReconciles (fold (\<lambda>(gk, c) s. (recordObjectMetric c ms gk s)\<lparr>peakObjectReconcile := AList.update gk 0 (peakObjectReconcile s)\<rparr>) ps t) =
      curHierConfigReconciles t" for ms ps t
    by (induction ps arbitrary: t) auto
  then show ?thesis by (simp add: recordPeakConcurrentReconciles_def Let_def)
qed

fun event_hc :: "StatEvent \<Rightarrow> int" where
  "event_hc StartHC = 1" | "event_hc StopHC = - 1" | "event_hc e = 0"

fun event_obj :: "GroupKind \<Rightarrow> StatEvent \<Rightarrow> int" where
  "event_obj gk (StartObj gvk) = (if group_kind gvk = gk then 1 else 0)"
| "event_obj gk (StopObj gvk) = (if group_kind gvk = gk then - 1 else 0)"
| "event_obj gk e = 0"

fun event_kind :: "StatEvent \<Rightarrow> GroupKind set" where
  "event_kind (StopObj gvk) = {group_kind gvk}"
| "event_kind (WriteObj gvk) = {group_kind gvk}"
| "event_kind (OverwriteObj gvk) = {group_kind gvk}"
| "event_kind e = {}"

fun event_starts :: "StatEvent \<Rightarrow> GroupKind set" where
  "event_starts (StartObj gvk) = {group_kind gvk}" | "event_starts e = {}"

lemmas stat_ops = StartHierConfigReconcile_def StopHierConfigReconcile_def StartObjReconcile_def StopObjReconcile_def
  WriteNamespace_def WriteHierConfig_def WriteObject_def OverwriteObject_def update_object_def incr_def decr_def

lemma stat_event_counts:
  assumes "stat_event e s = Some s'"
  shows "curHierConfigReconciles s' = curHierConfigReconciles s + of_int (event_hc e)"
    "cur_of s' gk = cur_of s gk + of_int (event_obj gk e)"
    "started s' = started s \<union> event_starts e"
  using assms
  by (cases e; auto simp: stat_ops cur_of_def started_def report_keeps Let_def map_of_update has_key_def new_object_def
      split: option.splits if_splits)+

lemma stat_event_runs: "stat_event e s = None \<longleftrightarrow> \<not> event_kind e \<subseteq> started s"
  by (cases e) (auto simp: stat_ops started_def Let_def map_of_update has_key_def split: option.splits if_splits)

text \<open>
  If the operations run one after the other, the number of running reconciliations is, modulo \<open>2\<^sup>3\<^sup>2\<close>,
  the number of starts without the number of stops, for the hierarchy and for every kind.
\<close>

lemma stat_events_count:
  assumes "stat_events es (init_stats suppress) = Some s"
  shows "curHierConfigReconciles s = of_int (sum_list (map event_hc es))"
    "cur_of s gk = of_int (sum_list (map (event_obj gk) es))"
proof -
  have "curHierConfigReconciles s = curHierConfigReconciles t + of_int (sum_list (map event_hc es)) \<and>
      cur_of s gk = cur_of t gk + of_int (sum_list (map (event_obj gk) es))"
    if "stat_events es t = Some s" for t
    using that
  proof (induction es arbitrary: t)
    case (Cons e es)
    then obtain t' where "stat_event e t = Some t'" "stat_events es t' = Some s" by (auto split: option.splits)
    then show ?case using Cons.IH [of t'] stat_event_counts [of e t t'] by simp
  qed simp
  from this [OF assms] show "curHierConfigReconciles s = of_int (sum_list (map event_hc es))"
    "cur_of s gk = of_int (sum_list (map (event_obj gk) es))"
    by (simp_all add: init_stats_def cur_of_def)
qed

text \<open>
  No operation dereferences a nil pointer if the reconciler of the kind has started before, as
  \<^verbatim>\<open>Reconcile\<close> does first.
\<close>

lemma stat_events_run:
  assumes "\<And>es1 e es2. es = es1 @ e # es2 \<Longrightarrow> event_kind e \<subseteq> started s \<union> (\<Union>e \<in> set es1. event_starts e)"
  shows "\<exists>s'. stat_events es s = Some s'"
  using assms
proof (induction es arbitrary: s)
  case (Cons e es)
  have "event_kind e \<subseteq> started s" using Cons.prems [of "[]" e es] by simp
  then obtain t where t: "stat_event e s = Some t" using stat_event_runs by fastforce
  have "event_kind e' \<subseteq> started t \<union> (\<Union>e \<in> set es1. event_starts e)" if "es = es1 @ e' # es2" for es1 e' es2
    using Cons.prems [of "e # es1" e' es2] that stat_event_counts(3) [OF t] by auto
  then show ?case using Cons.IH t by auto
qed simp

section \<open>Updates that interleave\<close>

text \<open>
  \<^verbatim>\<open>incr\<close> and \<^verbatim>\<open>decr\<close> read the counter into a variable, add to the variable, and write it back; the
  atomic addition is on the variable. \<^verbatim>\<open>StopHierConfigReconcile\<close> does not take the lock. A goroutine is
  the amount it adds, and the value it has read.
\<close>

inductive counter_step :: "counter \<times> (int \<times> counter option) list \<Rightarrow> counter \<times> (int \<times> counter option) list \<Rightarrow> bool" where
  load: "counter_step (c, ts @ (d, None) # ts') (c, ts @ (d, Some c) # ts')"
| store: "counter_step (c, ts @ (d, Some v) # ts') (v + of_int d, ts @ ts')"

text \<open>A stop that interleaves with a start is lost, so that an idle controller counts a running reconciliation.\<close>

lemma counter_update_lost:
  "counter_step\<^sup>*\<^sup>* (1, [(1, None), (- 1, None)]) (2, [])"
  "counter_step\<^sup>*\<^sup>* (1, [(1, None), (- 1, None)]) (1, [])"
proof -
  have s: "counter_step (1, [(1, None), (- 1, None)]) (1, [(1, Some 1), (- 1, None)])"
    "counter_step (1, [(1, Some 1), (- 1, None)]) (1, [(1, Some 1), (- 1, Some 1)])"
    "counter_step (1, [(1, Some 1), (- 1, Some 1)]) (0, [(1, Some 1)])"
    "counter_step (0, [(1, Some 1)]) (2, [])"
    "counter_step (1, [(1, Some 1), (- 1, None)]) (2, [(- 1, None)])"
    "counter_step (2, [(- 1, None)]) (2, [(- 1, Some 2)])" "counter_step (2, [(- 1, Some 2)]) (1, [])"
    using counter_step.load [of 1 "[]" 1] counter_step.load [of 1 "[(1, Some 1)]" "- 1" "[]"]
      counter_step.store [of 1 "[(1, Some 1)]" "- 1" 1 "[]"] counter_step.store [of 0 "[]" 1 1 "[]"]
      counter_step.store [of 1 "[]" 1 1 "[(- 1, None)]"] counter_step.load [of 2 "[]" "- 1" "[]"]
      counter_step.store [of 2 "[]" "- 1" 2 "[]"] by simp_all
  note step = converse_rtranclp_into_rtranclp [where r = counter_step]
  show "counter_step\<^sup>*\<^sup>* (1, [(1, None), (- 1, None)]) (2, [])"
    by (rule step [OF s(1) step [OF s(2) step [OF s(3) step [OF s(4) rtranclp.rtrancl_refl]]]])
  show "counter_step\<^sup>*\<^sup>* (1, [(1, None), (- 1, None)]) (1, [])"
    by (rule step [OF s(1) step [OF s(5) step [OF s(6) step [OF s(7) rtranclp.rtrancl_refl]]]])
qed

end
