(* ===== verification/Spec2Isabelle.thy ===== *)
theory Spec2Isabelle
  imports HNC_Manager Forest_Refinement Kubectl_Properties ApiExtension_Properties Stats
begin

text \<open>
  Verification of the Hierarchical Namespace Controller.
\<close>

end
